(* ===== verification/Prov_Prelude.thy ===== *)
theory Prov_Prelude
  imports Main "HOL-Library.Word" "HOL-Library.State_Monad"
begin

text \<open>
  Prelude of the network-provisioning development: byte strings and the C library
  operations on them (\<open>memcpy\<close>, \<open>memset\<close>, \<open>strncpy\<close>, \<open>strcmp\<close>), Zephyr's errno
  values, and the sequencing monad in which the C functions are written
  (HOL-Library's state monad) with a weakest-precondition calculus over it.
  The collections \<open>wp\<close> (rules that push \<open>wp\<close> through a program) and
  \<open>buf\<close> (lengths of updated buffers) are what the component proofs feed to
  the simplifier.
\<close>

unbundle bit_operations_syntax

named_theorems wp "weakest-precondition rules of the sequencing monad"
named_theorems buf "lengths and contents of C buffers"

section \<open>Machine types\<close>

type_synonym byte = "8 word"
type_synonym u8 = "8 word"
type_synonym u16 = "16 word"
type_synonym u32 = "32 word"
type_synonym bytes = "byte list"

text \<open>A \<open>const char *\<close> that may be NULL; the characters stand without the
  terminating NUL.\<close>

type_synonym cstr = "string option"

definition bytes_of_string :: "string \<Rightarrow> bytes" where
  "bytes_of_string s = map of_char s"

text \<open>The test \<open>p == NULL || p[0] == '\0'\<close> that the C code writes for an absent
  string argument.\<close>

definition cstr_empty :: "cstr \<Rightarrow> bool" where
  "cstr_empty p = (case p of None \<Rightarrow> True | Some s \<Rightarrow> s = [])"

lemma length_bytes_of_string [simp, buf]: "length (bytes_of_string s) = length s"
  by (simp add: bytes_of_string_def)

lemma cstr_empty_simps [simp]:
  "cstr_empty None" "cstr_empty (Some []) = True" "cstr_empty (Some (c # s)) = False"
  by (simp_all add: cstr_empty_def)

section \<open>Zephyr errno values\<close>

abbreviation (input) EPERM :: int where "EPERM \<equiv> 1"
abbreviation (input) ENOENT :: int where "ENOENT \<equiv> 2"
abbreviation (input) EIO :: int where "EIO \<equiv> 5"
abbreviation (input) ENOEXEC :: int where "ENOEXEC \<equiv> 8"
abbreviation (input) ENOMEM :: int where "ENOMEM \<equiv> 12"
abbreviation (input) EACCES :: int where "EACCES \<equiv> 13"
abbreviation (input) EBUSY :: int where "EBUSY \<equiv> 16"
abbreviation (input) ENODEV :: int where "ENODEV \<equiv> 19"
abbreviation (input) EINVAL :: int where "EINVAL \<equiv> 22"
abbreviation (input) ENOSPC :: int where "ENOSPC \<equiv> 28"
abbreviation (input) ENOSYS :: int where "ENOSYS \<equiv> 88"
abbreviation (input) ENAMETOOLONG :: int where "ENAMETOOLONG \<equiv> 91"
abbreviation (input) ETIMEDOUT :: int where "ETIMEDOUT \<equiv> 116"
abbreviation (input) EALREADY :: int where "EALREADY \<equiv> 120"
abbreviation (input) ENOTSUP :: int where "ENOTSUP \<equiv> 134"

section \<open>Buffers\<close>

text \<open>
  A C array is the list of its elements. \<open>memcpy_at dst off src\<close> writes
  \<open>src\<close> at offset \<open>off\<close>; a write past the end of the array makes the list
  longer, so that "the array keeps its length" is the statement that no such write
  happened.
\<close>

definition memcpy_at :: "'a list \<Rightarrow> nat \<Rightarrow> 'a list \<Rightarrow> 'a list" where
  "memcpy_at dst off src = take off dst @ src @ drop (off + length src) dst"

abbreviation memcpy :: "'a list \<Rightarrow> 'a list \<Rightarrow> 'a list" where
  "memcpy dst src \<equiv> memcpy_at dst 0 src"

definition zeros :: "nat \<Rightarrow> bytes" where
  "zeros n = replicate n 0"

lemma length_zeros [simp, buf]: "length (zeros n) = n"
  by (simp add: zeros_def)

lemma length_memcpy_at [buf]:
  "off + length src \<le> length dst \<Longrightarrow> length (memcpy_at dst off src) = length dst"
  by (simp add: memcpy_at_def)

lemma take_memcpy [simp]: "take (length src) (memcpy dst src) = src"
  by (simp add: memcpy_at_def)

lemma take_memcpy_n: "n = length src \<Longrightarrow> take n (memcpy dst src) = src"
  by simp

lemma memcpy_full: "length src = length dst \<Longrightarrow> memcpy dst src = src"
  by (simp add: memcpy_at_def)

lemma take_memcpy_at_end:
  "off \<le> length dst \<Longrightarrow> take (off + length src) (memcpy_at dst off src) = take off dst @ src"
  by (simp add: memcpy_at_def)

text \<open>\<open>strncpy(dst, src, n)\<close> followed by a terminating NUL at position \<open>n\<close>:
  the stored string is the first \<open>n\<close> characters.\<close>

definition strncpy_z :: "nat \<Rightarrow> string \<Rightarrow> string" where
  "strncpy_z n s = take n s"

lemma length_strncpy_z [buf]: "length (strncpy_z n s) \<le> n"
  by (simp add: strncpy_z_def)

lemma strncpy_z_id: "length s \<le> n \<Longrightarrow> strncpy_z n s = s"
  by (simp add: strncpy_z_def)

text \<open>Byte-wise exclusive or of two buffers, over the shorter length.\<close>

fun xor_bytes :: "bytes \<Rightarrow> bytes \<Rightarrow> bytes" where
  "xor_bytes (x # xs) (y # ys) = (x XOR y) # xor_bytes xs ys"
| "xor_bytes _ _ = []"

lemma length_xor_bytes [simp, buf]: "length (xor_bytes xs ys) = min (length xs) (length ys)"
  by (induction xs ys rule: xor_bytes.induct) auto

lemma xor_bytes_cancel: "length xs \<le> length ks \<Longrightarrow> xor_bytes (xor_bytes xs ks) ks = xs"
proof (induction xs ks rule: xor_bytes.induct)
  case (1 x xs y ys)
  then show ?case by (simp add: xor.assoc)
qed auto

lemma xor_bytes_inj:
  "length xs \<le> length ks \<Longrightarrow> length ys \<le> length ks \<Longrightarrow>
    xor_bytes xs ks = xor_bytes ys ks \<longleftrightarrow> xs = ys"
  by (metis xor_bytes_cancel)

section \<open>The sequencing monad\<close>

abbreviation ret :: "'a \<Rightarrow> ('s, 'a) state" where "ret \<equiv> State_Monad.return"
abbreviation modify :: "('s \<Rightarrow> 's) \<Rightarrow> ('s, unit) state" where "modify \<equiv> State_Monad.update"

definition gets :: "('s \<Rightarrow> 'a) \<Rightarrow> ('s, 'a) state" where
  "gets f = State (\<lambda>s. (f s, s))"

definition if_do :: "bool \<Rightarrow> ('s, unit) state \<Rightarrow> ('s, unit) state" where
  "if_do b m = (if b then m else ret ())"

lemma run_gets [simp]: "run_state (gets f) s = (f s, s)"
  by (simp add: gets_def)

lemma run_modify [simp]: "run_state (modify f) s = ((), f s)"
  by (simp add: State_Monad.update_def)

lemma run_if_do [simp]: "run_state (if_do b m) s = (if b then run_state m s else ((), s))"
  by (simp add: if_do_def)

text \<open>\<open>wp m Q s\<close>: run from \<open>s\<close>, the program \<open>m\<close> returns a value and a state
  that satisfy \<open>Q\<close>. Every program here is total, so this is total correctness.\<close>

definition wp :: "('s, 'a) state \<Rightarrow> ('a \<Rightarrow> 's \<Rightarrow> bool) \<Rightarrow> 's \<Rightarrow> bool" where
  "wp m Q s = (case run_state m s of (a, s') \<Rightarrow> Q a s')"

lemma wp_return [wp, simp]: "wp (ret a) Q = Q a"
  by (simp add: wp_def fun_eq_iff)

lemma wp_bind [wp, simp]: "wp (State_Monad.bind m f) Q s = wp m (\<lambda>a. wp (f a) Q) s"
  by (simp add: wp_def split: prod.split)

lemma wp_gets [wp, simp]: "wp (gets f) Q s = Q (f s) s"
  by (simp add: wp_def)

lemma wp_modify [wp, simp]: "wp (modify f) Q s = Q () (f s)"
  by (simp add: wp_def)

lemma wp_if_do [wp, simp]: "wp (if_do b m) Q s = (if b then wp m Q s else Q () s)"
  by (simp add: wp_def)

lemma wp_if [wp, simp]: "wp (if b then m else n) Q s = (if b then wp m Q s else wp n Q s)"
  by simp

lemma wp_case_option [wp, simp]:
  "wp (case x of None \<Rightarrow> m | Some y \<Rightarrow> f y) Q s =
    (case x of None \<Rightarrow> wp m Q s | Some y \<Rightarrow> wp (f y) Q s)"
  by (simp split: option.split)

lemma wp_case_prod [wp, simp]:
  "wp (case x of (a, b) \<Rightarrow> f a b) Q s = (case x of (a, b) \<Rightarrow> wp (f a b) Q s)"
  by (simp split: prod.split)

lemma wp_let [wp, simp]: "wp (let x = e in f x) Q s = (let x = e in wp (f x) Q s)"
  by (simp add: Let_def)

lemma wp_mono:
  assumes "wp m P s" and "\<And>a s'. P a s' \<Longrightarrow> Q a s'"
  shows "wp m Q s"
  using assms by (auto simp: wp_def split: prod.splits)

lemma wp_conj: "wp m P s \<Longrightarrow> wp m Q s \<Longrightarrow> wp m (\<lambda>a s'. P a s' \<and> Q a s') s"
  by (auto simp: wp_def split: prod.splits)

lemma wp_runD: "wp m Q s \<Longrightarrow> run_state m s = (a, s') \<Longrightarrow> Q a s'"
  by (simp add: wp_def)

lemma wp_runI: "(\<And>a s'. run_state m s = (a, s') \<Longrightarrow> Q a s') \<Longrightarrow> wp m Q s"
  by (simp add: wp_def split: prod.split)

lemma wp_eq_run:
  assumes eq: "\<And>Q. wp m Q s = wp n Q s"
  shows "run_state m s = run_state n s"
proof -
  have "wp n (\<lambda>a s'. (a, s') = run_state n s) s" by (simp add: wp_def split: prod.split)
  then have "wp m (\<lambda>a s'. (a, s') = run_state n s) s" by (simp add: eq)
  then show ?thesis by (simp add: wp_def split: prod.splits)
qed

lemma wp_sel: "wp m Q s \<longleftrightarrow> Q (fst (run_state m s)) (snd (run_state m s))"
  by (simp add: wp_def split: prod.split)

text \<open>\<open>keeps m f\<close>: running \<open>m\<close> never changes the projection \<open>f\<close> of the state.\<close>

definition keeps :: "('s, 'a) state \<Rightarrow> ('s \<Rightarrow> 'b) \<Rightarrow> bool" where
  "keeps m f \<longleftrightarrow> (\<forall>s. wp m (\<lambda>_ s'. f s' = f s) s)"

lemma keepsI: "(\<And>s. wp m (\<lambda>_ s'. f s' = f s) s) \<Longrightarrow> keeps m f"
  by (simp add: keeps_def)

lemma keepsD: "keeps m f \<Longrightarrow> f (snd (run_state m s)) = f s"
  by (simp add: keeps_def wp_sel)

lemma keeps_return [intro!]: "keeps (ret a) f"
  by (simp add: keeps_def wp)

lemma keeps_bind [intro!]:
  assumes "keeps m f" and "\<And>a. keeps (g a) f"
  shows "keeps (State_Monad.bind m g) f"
  using assms by (simp add: keeps_def wp_sel split_def)

text \<open>A loop over a list of items, in order.\<close>

fun for_each :: "('a \<Rightarrow> ('s, unit) state) \<Rightarrow> 'a list \<Rightarrow> ('s, unit) state" where
  "for_each f [] = ret ()"
| "for_each f (x # xs) = do { f x; for_each f xs }"

lemma wp_for_each_append: "wp (for_each f (xs @ ys)) Q = wp (for_each f xs) (\<lambda>_. wp (for_each f ys) Q)"
proof (induction xs)
  case Nil
  then show ?case by (simp add: fun_eq_iff)
next
  case (Cons x xs)
  then show ?case by (intro ext) simp
qed

lemma wp_for_each_inv:
  assumes "I s" and "\<And>x t. x \<in> set xs \<Longrightarrow> I t \<Longrightarrow> wp (f x) (\<lambda>_. I) t"
  shows "wp (for_each f xs) (\<lambda>_. I) s"
  using assms
proof (induction xs arbitrary: s)
  case Nil
  then show ?case by (simp add: wp)
next
  case (Cons x xs)
  have "wp (f x) (\<lambda>_. I) s" using Cons.prems by simp
  then have "wp (f x) (\<lambda>_. wp (for_each f xs) (\<lambda>_. I)) s"
    by (rule wp_mono) (use Cons in auto)
  then show ?case by (simp add: wp)
qed

end
