(* ===== verification/Prov_Messages.thy ===== *)
theory Prov_Messages
  imports Prov_Prelude
begin

text \<open>
  The protobuf messages of \<^verbatim>\<open>src/proto/*.proto\<close> as the nanopb structs that the C code
  reads and fills. An enum is a datatype with one further constructor for the values
  the schema does not name (a decoded proto3 enum can hold any of them). A
  \<^verbatim>\<open>bytes\<close> field (\<^verbatim>\<open>PB_BYTES_ARRAY_T\<close>: a size and an array) is the list of
  its \<open>size\<close> bytes. A \<^verbatim>\<open>oneof\<close> is a datatype whose constructor is the
  \<^verbatim>\<open>which_\<close> tag together with the active union member; \<open>..._none\<close> is the
  tag 0 of the zero-initialised struct.
\<close>

section \<open>constants.proto, network_constants.proto\<close>

datatype Status =
    Status_Success | Status_InvalidSecScheme | Status_InvalidProto | Status_TooManySessions
  | Status_InvalidArgument | Status_InternalError | Status_CryptoError | Status_InvalidSession

datatype WifiStationState =
  WifiSta_Connected | WifiSta_Connecting | WifiSta_Disconnected | WifiSta_ConnectionFailed

datatype WifiConnectFailedReason = AuthError | WifiNetworkNotFound

datatype WifiAuthMode =
    WifiAuthMode_Open | WifiAuthMode_WEP | WifiAuthMode_WPA_PSK | WifiAuthMode_WPA2_PSK
  | WifiAuthMode_WPA_WPA2_PSK | WifiAuthMode_WPA2_ENTERPRISE | WifiAuthMode_WPA3_PSK
  | WifiAuthMode_WPA2_WPA3_PSK

record WifiConnectedState =
  wcs_ip4_addr :: string
  wcs_auth_mode :: WifiAuthMode
  wcs_ssid :: bytes
  wcs_bssid :: bytes
  wcs_channel :: "32 word"

datatype ThreadNetworkState =
  Thread_Attached | Thread_Attaching | Thread_Dettached | Thread_AttachingFailed

datatype ThreadAttachFailedReason = DatasetInvalid | ThreadNetworkNotFound

record ThreadAttachState =
  tas_pan_id :: u32
  tas_ext_pan_id :: bytes
  tas_channel :: u32
  tas_name :: string

section \<open>session.proto, sec0.proto, sec1.proto\<close>

datatype SecSchemeVersion = SecScheme0 | SecScheme1 | SecScheme2 | SecScheme_other nat

datatype Sec0MsgType = S0_Session_Command | S0_Session_Response | Sec0MsgType_other nat

datatype Sec0Union = Sec0_none | Sec0_sc | Sec0_sr Status

record Sec0Payload =
  sec0_msg :: Sec0MsgType
  sec0_payload :: Sec0Union

datatype Sec1MsgType =
    Session_Command0 | Session_Response0 | Session_Command1 | Session_Response1
  | Sec1MsgType_other nat

text \<open>\<open>Sec1_sc0 client_pubkey\<close>, \<open>Sec1_sr0 status device_pubkey device_random\<close>,
  \<open>Sec1_sc1 client_verify_data\<close>, \<open>Sec1_sr1 status device_verify_data\<close>.\<close>

datatype Sec1Union =
    Sec1_none | Sec1_sc0 bytes | Sec1_sr0 Status bytes bytes | Sec1_sc1 bytes
  | Sec1_sr1 Status bytes

record Sec1Payload =
  sec1_msg :: Sec1MsgType
  sec1_payload :: Sec1Union

datatype SessionProto = Proto_none | Proto_sec0 Sec0Payload | Proto_sec1 Sec1Payload

record SessionData =
  sec_ver :: SecSchemeVersion
  session_proto :: SessionProto

section \<open>network_config.proto\<close>

datatype WifiStatusUnion =
    WifiStatus_none | WifiStatus_fail_reason WifiConnectFailedReason
  | WifiStatus_connected WifiConnectedState | WifiStatus_attempt_failed u32

datatype ThreadStatusUnion =
    ThreadStatus_none | ThreadStatus_fail_reason ThreadAttachFailedReason
  | ThreadStatus_attached ThreadAttachState

record CmdSetWifiConfig =
  cmd_ssid :: bytes
  cmd_passphrase :: bytes
  cmd_bssid :: bytes
  cmd_channel :: "32 word"

datatype NetworkConfigMsgType =
    TypeCmdGetWifiStatus | TypeRespGetWifiStatus | TypeCmdSetWifiConfig
  | TypeRespSetWifiConfig | TypeCmdApplyWifiConfig | TypeRespApplyWifiConfig
  | TypeCmdGetThreadStatus | TypeRespGetThreadStatus | TypeCmdSetThreadConfig
  | TypeRespSetThreadConfig | TypeCmdApplyThreadConfig | TypeRespApplyThreadConfig
  | NetworkConfigMsgType_other nat

datatype NetworkConfigUnion =
    Config_none
  | Cmd_get_wifi_status
  | Resp_get_wifi_status Status WifiStationState WifiStatusUnion
  | Cmd_set_wifi_config CmdSetWifiConfig
  | Resp_set_wifi_config Status
  | Cmd_apply_wifi_config
  | Resp_apply_wifi_config Status
  | Cmd_get_thread_status
  | Resp_get_thread_status Status ThreadNetworkState ThreadStatusUnion
  | Cmd_set_thread_config bytes
  | Resp_set_thread_config Status
  | Cmd_apply_thread_config
  | Resp_apply_thread_config Status

record NetworkConfigPayload =
  config_msg :: NetworkConfigMsgType
  config_payload :: NetworkConfigUnion

section \<open>network_scan.proto\<close>

record WiFiScanResult =
  wsr_ssid :: bytes
  wsr_channel :: u32
  wsr_rssi :: "32 word"
  wsr_bssid :: bytes
  wsr_auth :: WifiAuthMode

record ThreadScanResult =
  tsr_pan_id :: u32
  tsr_channel :: u32
  tsr_rssi :: "32 word"
  tsr_lqi :: u32
  tsr_ext_addr :: bytes
  tsr_network_name :: string
  tsr_ext_pan_id :: bytes

datatype NetworkScanMsgType =
    TypeCmdScanWifiStart | TypeRespScanWifiStart | TypeCmdScanWifiStatus
  | TypeRespScanWifiStatus | TypeCmdScanWifiResult | TypeRespScanWifiResult
  | TypeCmdScanThreadStart | TypeRespScanThreadStart | TypeCmdScanThreadStatus
  | TypeRespScanThreadStatus | TypeCmdScanThreadResult | TypeRespScanThreadResult
  | NetworkScanMsgType_other nat

text \<open>\<open>Cmd_scan_wifi_start blocking\<close> (the other fields of that message are not read),
  \<open>Cmd_scan_thread_start blocking channel_mask\<close>, \<open>Resp_..._status finished count\<close>,
  \<open>Cmd_..._result start_index count\<close>.\<close>

datatype NetworkScanUnion =
    Scan_none
  | Cmd_scan_wifi_start bool
  | Resp_scan_wifi_start
  | Cmd_scan_wifi_status
  | Resp_scan_wifi_status bool u32
  | Cmd_scan_wifi_result u32 u32
  | Resp_scan_wifi_result "WiFiScanResult list"
  | Cmd_scan_thread_start bool u32
  | Resp_scan_thread_start
  | Cmd_scan_thread_status
  | Resp_scan_thread_status bool u32
  | Cmd_scan_thread_result u32 u32
  | Resp_scan_thread_result "ThreadScanResult list"

record NetworkScanPayload =
  scan_msg :: NetworkScanMsgType
  scan_status :: Status
  scan_payload :: NetworkScanUnion

section \<open>network_ctrl.proto\<close>

datatype NetworkCtrlMsgType =
    TypeCtrlReserved | TypeCmdCtrlWifiReset | TypeRespCtrlWifiReset | TypeCmdCtrlWifiReprov
  | TypeRespCtrlWifiReprov | TypeCmdCtrlThreadReset | TypeRespCtrlThreadReset
  | TypeCmdCtrlThreadReprov | TypeRespCtrlThreadReprov | NetworkCtrlMsgType_other nat

datatype NetworkCtrlUnion =
    Ctrl_none
  | Cmd_ctrl_wifi_reset | Resp_ctrl_wifi_reset | Cmd_ctrl_wifi_reprov | Resp_ctrl_wifi_reprov
  | Cmd_ctrl_thread_reset | Resp_ctrl_thread_reset | Cmd_ctrl_thread_reprov
  | Resp_ctrl_thread_reprov

record NetworkCtrlPayload =
  ctrl_msg :: NetworkCtrlMsgType
  ctrl_status :: Status
  ctrl_payload :: NetworkCtrlUnion

section \<open>The codec interface of nanopb\<close>

text \<open>
  nanopb and the generated \<^verbatim>\<open>*.pb.c\<close> descriptors are not part of the repository: for each
  top-level message they are a parameter of this type. \<open>pb_encode c n m\<close> encodes into a
  stream of \<open>n\<close> bytes. Documented behaviour, used as a named hypothesis:
  \<open>pb_get_encoded_size\<close> is the number of bytes the encoding takes.
\<close>

record 'm codec =
  pb_decode :: "bytes \<Rightarrow> 'm option"
  pb_get_encoded_size :: "'m \<Rightarrow> nat option"
  pb_encode :: "nat \<Rightarrow> 'm \<Rightarrow> bytes option"

definition codec_sizes :: "'m codec \<Rightarrow> bool" where
  "codec_sizes c \<longleftrightarrow> (\<forall>m n bs. pb_get_encoded_size c m = Some n \<longrightarrow>
     pb_encode c n m = Some bs \<longrightarrow> length bs = n)"

definition codec_roundtrip :: "'m codec \<Rightarrow> bool" where
  "codec_roundtrip c \<longleftrightarrow> (\<forall>m n bs. pb_encode c n m = Some bs \<longrightarrow> pb_decode c bs = Some m)"

end
