(* ===== verification/Platform.thy ===== *)
theory Platform
  imports Prov_Messages
begin

text \<open>
  The boundary of the program: the Zephyr kernel, PSA Crypto, the Wi-Fi and OpenThread
  stacks, the Bluetooth, HTTP and shell services, the credential store, nanopb and the
  application's own callbacks. None of this code is in the repository, so it is a
  parameter, one value of type \<open>env\<close> that every operation takes. Each external function
  is a field of \<open>env\<close> that may answer in any way, depending on the history of all
  external calls made so far; the state \<open>kst\<close> records this history (newest call first,
  field \<open>hist\<close>), so that a theorem can speak about which external calls an operation
  makes, with which arguments and in which order. Field \<open>fault\<close> is set when the program
  dereferences an object that does not exist.
\<close>

section \<open>Types of the external interfaces\<close>

type_synonym iface = nat

datatype wifi_security_type =
    WIFI_SECURITY_TYPE_NONE | WIFI_SECURITY_TYPE_PSK | WIFI_SECURITY_TYPE_PSK_SHA256
  | WIFI_SECURITY_TYPE_SAE | WIFI_SECURITY_TYPE_WEP | WIFI_SECURITY_TYPE_WPA_PSK
  | WIFI_SECURITY_TYPE_other nat

datatype wifi_frequency_bands = WIFI_FREQ_BAND_2_4_GHZ | WIFI_FREQ_BAND_UNKNOWN

abbreviation (input) WIFI_MAC_ADDR_LEN :: nat where "WIFI_MAC_ADDR_LEN \<equiv> 6"
abbreviation (input) WIFI_SSID_MAX_LEN :: nat where "WIFI_SSID_MAX_LEN \<equiv> 32"
abbreviation (input) WIFI_PSK_MAX_LEN :: nat where "WIFI_PSK_MAX_LEN \<equiv> 64"
abbreviation (input) WIFI_CHANNEL_ANY :: u8 where "WIFI_CHANNEL_ANY \<equiv> 255"
abbreviation (input) WIFI_STATUS_CONN_SUCCESS :: int where "WIFI_STATUS_CONN_SUCCESS \<equiv> 0"
abbreviation (input) WIFI_STATUS_CONN_WRONG_PASSWORD :: int where "WIFI_STATUS_CONN_WRONG_PASSWORD \<equiv> 2"
abbreviation (input) WIFI_STATUS_CONN_AP_NOT_FOUND :: int where "WIFI_STATUS_CONN_AP_NOT_FOUND \<equiv> 4"
abbreviation (input) WIFI_CREDENTIALS_FLAG_BSSID :: u32 where "WIFI_CREDENTIALS_FLAG_BSSID \<equiv> 4"

text \<open>\<open>struct wifi_connect_req_params\<close>; a pointer with its length is the list it spans,
  a NULL pointer is None.\<close>

record wifi_connect_req_params =
  cp_ssid :: bytes
  cp_psk :: "bytes option"
  cp_security :: wifi_security_type
  cp_channel :: u8
  cp_band :: wifi_frequency_bands
  cp_bssid :: bytes

text \<open>The arguments of \<open>wifi_credentials_set_personal\<close>.\<close>

record wifi_credential =
  cr_ssid :: bytes
  cr_security :: wifi_security_type
  cr_bssid :: "bytes option"
  cr_password :: bytes
  cr_flags :: u32
  cr_channel :: u8
  cr_timeout :: u32

record wifi_iface_status =
  ist_ssid :: bytes
  ist_bssid :: bytes
  ist_channel :: "32 word"

record wifi_scan_result =
  sr_ssid :: bytes
  sr_ssid_length :: u8
  sr_mac :: bytes
  sr_channel :: u8
  sr_rssi :: "8 word"
  sr_security :: wifi_security_type

text \<open>What \<open>wifi_credentials_get_by_ssid_personal\<close> writes through its output pointers.\<close>

record stored_credential =
  sv_security :: wifi_security_type
  sv_bssid :: bytes
  sv_password :: bytes
  sv_flags :: u32
  sv_channel :: u8

datatype wifi_scan_event = SCAN_RESULT wifi_scan_result | SCAN_DONE

record otActiveScanResult =
  ot_mPanId :: u16
  ot_mChannel :: u8
  ot_mRssi :: "8 word"
  ot_mLqi :: u8
  ot_mExtAddress :: bytes
  ot_mExtendedPanId :: bytes
  ot_mNetworkName :: string

datatype otDeviceRole =
    OT_DEVICE_ROLE_DISABLED | OT_DEVICE_ROLE_DETACHED | OT_DEVICE_ROLE_CHILD
  | OT_DEVICE_ROLE_ROUTER | OT_DEVICE_ROLE_LEADER

text \<open>A PSA cipher operation is an opaque object of the crypto library. It is represented
  by the calls made on it since \<open>psa_cipher_operation_init\<close>, newest first; a call that failed
  puts the operation in its error state (documented), recorded as \<open>Cipher_error\<close>.\<close>

datatype cipher_call = Cipher_setup nat | Cipher_set_iv bytes | Cipher_update nat | Cipher_error

type_synonym psa_cipher_operation = "cipher_call list"

definition op_call :: "int \<Rightarrow> cipher_call \<Rightarrow> psa_cipher_operation \<Rightarrow> psa_cipher_operation" where
  "op_call status c op = (if status = 0 then c else Cipher_error) # op"

text \<open>The GATT attribute table handed to the Bluetooth stack.\<close>

datatype gatt_attr =
    Attr_primary_service bytes
  | Attr_chrc bytes nat
  | Attr_value bytes nat
  | Attr_cud nat

datatype bt_data = BT_DATA_FLAGS | BT_DATA_NAME_COMPLETE string | BT_DATA_UUID128_ALL bytes
  | BT_DATA_MANUFACTURER_DATA bytes

text \<open>Kernel objects of the program.\<close>

datatype ksem = Mgr_done | Wifi_scan_done_sem | Thread_scan_done_sem | Conn_result_sem

datatype kwork = Teardown_work | Retry_work | Attach_timeout

datatype k_timeout = K_MSEC nat | K_FOREVER

datatype net_cb = Wifi_config_cb | Wifi_scan_cb | Conn_cb

text \<open>\<open>enum network_prov_cb_event\<close> and \<open>enum network_prov_cred_fail_reason\<close>
  (network_prov_mgr.h): what the application callback is called with. \<open>CRED_FAIL\<close> carries the
  reason that the code passes as \<open>event_data\<close>; the other events carry NULL.\<close>

datatype network_prov_cred_fail_reason =
  NETWORK_PROV_WIFI_AUTH_ERROR | NETWORK_PROV_WIFI_NETWORK_NOT_FOUND

datatype network_prov_cb_event =
    NETWORK_PROV_INIT | NETWORK_PROV_START | NETWORK_PROV_CRED_RECV
  | NETWORK_PROV_CRED_FAIL network_prov_cred_fail_reason | NETWORK_PROV_CRED_SUCCESS
  | NETWORK_PROV_END | NETWORK_PROV_DEINIT

section \<open>External calls\<close>

datatype kern_call =
    K_malloc nat bool
  | K_free
  | K_sem_init ksem
  | K_sem_reset ksem
  | K_sem_give ksem
  | K_sem_take ksem k_timeout
  | K_work_init kwork
  | K_work_schedule kwork nat
  | K_work_reschedule kwork nat
  | K_work_cancel kwork
  | K_work_cancel_sync kwork
  | K_work_run kwork
  | K_sleep nat

datatype app_call =
    App_event network_prov_cb_event
  | App_endpoint nat nat bytes
  | Settings_subsys_init
  | Settings_load

text \<open>The two calls that make a key record its identifier when they succeed.\<close>

datatype psa_call =
    Psa_crypto_init
  | Psa_generate_key "nat option"
  | Psa_export_public_key nat
  | Psa_destroy_key nat
  | Psa_raw_key_agreement nat bytes
  | Psa_hash_compute bytes
  | Psa_import_key bytes "nat option"
  | Psa_cipher_encrypt_setup nat
  | Psa_cipher_set_iv bytes
  | Psa_cipher_update bytes
  | Psa_cipher_abort
  | Psa_generate_random nat

datatype wifi_call =
    Net_add_event_callback net_cb
  | Net_del_event_callback net_cb
  | Wifi_connect iface wifi_connect_req_params
  | Wifi_connect_no_iface wifi_connect_req_params
  | Wifi_scan iface
  | Wifi_iface_status iface
  | Wifi_ap_enable iface wifi_connect_req_params
  | Wifi_ap_disable iface
  | Cred_delete_by_ssid bytes
  | Cred_set_personal wifi_credential
  | Cred_delete_all
  | Net_set_ap_address iface
  | Dhcp_server_start iface
  | Dhcp_server_stop iface

datatype ot_call =
    Ot_mutex_lock
  | Ot_mutex_unlock
  | Ot_callback_register
  | Ot_callback_unregister
  | Ot_dataset_set_active bytes
  | Ot_ip6_set_enabled bool
  | Ot_thread_set_enabled bool
  | Ot_erase_persistent_info
  | Ot_discover u32
  | Ot_query
  | Ot_run

datatype trans_call =
    Http_server_start
  | Http_server_stop
  | Sys_rand32_get
  | Bt_set_name string
  | Bt_enable
  | Bt_gatt_service_register "gatt_attr list"
  | Bt_gatt_service_unregister
  | Bt_le_adv_start "bt_data list" "bt_data list"
  | Bt_le_adv_stop
  | Shell_error
  | Shell_print string

datatype call =
    Kern kern_call | App app_call | Psa psa_call | Wifi wifi_call | Ot ot_call
  | Trans trans_call

type_synonym history = "call list"

section \<open>The environment parameter\<close>

text \<open>\<open>uninit h n\<close> is the contents of a local array of \<open>n\<close> bytes that was not initialised.\<close>

record kernel_env =
  malloc_ok :: "history \<Rightarrow> nat \<Rightarrow> bool"
  sem_take :: "history \<Rightarrow> ksem \<Rightarrow> int"
  settings_subsys_init_ret :: "history \<Rightarrow> int"
  settings_load_ret :: "history \<Rightarrow> int"
  app_endpoint :: "history \<Rightarrow> nat \<Rightarrow> nat \<Rightarrow> bytes \<Rightarrow> int \<times> bytes option"
  uninit :: "history \<Rightarrow> nat \<Rightarrow> bytes"

text \<open>Kconfig symbols, the range of \<open>unsigned long\<close> on the target and the sizes of the
  two structs that are allocated on the heap.\<close>

record config =
  SCAN_MAX_ENTRIES :: nat
  BLE_MAX_RESP_LEN :: nat
  MAX_CUSTOM_ENDPOINTS :: nat
  AUTOSTOP_TIMEOUT_MS :: nat
  NETWORK_TYPE_THREAD :: bool
  SETTINGS :: bool
  ULONG_MAX :: nat
  sizeof_protocomm :: nat
  sizeof_sec1_ctx :: nat

text \<open>nanopb: one codec per top-level message, and what a read of the union member that is
  not the active one yields (the reinterpreted bytes of the active member).\<close>

record nanopb_env =
  SessionData_codec :: "SessionData codec"
  NetworkConfig_codec :: "NetworkConfigPayload codec"
  NetworkScan_codec :: "NetworkScanPayload codec"
  NetworkCtrl_codec :: "NetworkCtrlPayload codec"
  pun_sc0 :: "Sec1Union \<Rightarrow> bytes"
  pun_sc1 :: "Sec1Union \<Rightarrow> bytes"
  pun_set_wifi_config :: "NetworkConfigUnion \<Rightarrow> CmdSetWifiConfig"
  pun_set_thread_config :: "NetworkConfigUnion \<Rightarrow> bytes"
  pun_scan_wifi_result :: "NetworkScanUnion \<Rightarrow> u32 \<times> u32"
  pun_scan_thread_result :: "NetworkScanUnion \<Rightarrow> u32 \<times> u32"

record psa_env =
  psa_crypto_init_ret :: "history \<Rightarrow> int"
  psa_generate_key :: "history \<Rightarrow> int \<times> nat"
  psa_export_public_key :: "history \<Rightarrow> nat \<Rightarrow> int \<times> bytes"
  psa_raw_key_agreement :: "history \<Rightarrow> nat \<Rightarrow> bytes \<Rightarrow> int \<times> bytes"
  psa_hash_compute :: "history \<Rightarrow> bytes \<Rightarrow> int \<times> bytes"
  psa_import_key :: "history \<Rightarrow> bytes \<Rightarrow> int \<times> nat"
  psa_cipher_encrypt_setup :: "history \<Rightarrow> nat \<Rightarrow> int"
  psa_cipher_set_iv :: "history \<Rightarrow> psa_cipher_operation \<Rightarrow> bytes \<Rightarrow> int"
  psa_cipher_update :: "history \<Rightarrow> psa_cipher_operation \<Rightarrow> bytes \<Rightarrow> int \<times> bytes"
  psa_generate_random :: "history \<Rightarrow> nat \<Rightarrow> int \<times> bytes"

text \<open>\<open>connect_results\<close> are the connect results that reach a registered callback of the application
  while its thread waits or sleeps, in their order.\<close>

record wifi_env =
  net_if_get_wifi_sta :: "history \<Rightarrow> iface option"
  net_if_get_first_wifi :: "history \<Rightarrow> iface option"
  net_if_get_wifi_sap :: "history \<Rightarrow> iface option"
  wifi_connect_ret :: "history \<Rightarrow> iface \<Rightarrow> wifi_connect_req_params \<Rightarrow> int"
  wifi_scan_ret :: "history \<Rightarrow> iface \<Rightarrow> int"
  wifi_scan_events_during_wait :: "history \<Rightarrow> wifi_scan_event list"
  wifi_iface_status_ret :: "history \<Rightarrow> iface \<Rightarrow> int \<times> wifi_iface_status"
  ipv4_global_addr :: "history \<Rightarrow> iface \<Rightarrow> string option"
  cred_delete_by_ssid_ret :: "history \<Rightarrow> bytes \<Rightarrow> int"
  cred_set_personal_ret :: "history \<Rightarrow> wifi_credential \<Rightarrow> int"
  cred_is_empty :: "history \<Rightarrow> bool"
  cred_delete_all_ret :: "history \<Rightarrow> int"
  wifi_credentials_for_each_ssid :: "history \<Rightarrow> bytes list"
  wifi_credentials_get_by_ssid_personal :: "history \<Rightarrow> bytes \<Rightarrow> int \<times> stored_credential"
  wifi_connect_no_iface_ret :: "history \<Rightarrow> wifi_connect_req_params \<Rightarrow> int"
  connect_results :: "history \<Rightarrow> int list"
  dhcpv4_server_start_ret :: "history \<Rightarrow> iface \<Rightarrow> int"
  wifi_ap_enable_ret :: "history \<Rightarrow> iface \<Rightarrow> wifi_connect_req_params \<Rightarrow> int"

record ot_env =
  ot_callback_register_ret :: "history \<Rightarrow> int"
  otDatasetSetActiveTlvs :: "history \<Rightarrow> bytes \<Rightarrow> int"
  otThreadSetEnabled :: "history \<Rightarrow> bool \<Rightarrow> int"
  otInstanceErasePersistentInfo :: "history \<Rightarrow> int"
  otDatasetIsCommissioned :: "history \<Rightarrow> bool"
  otThreadGetDeviceRole :: "history \<Rightarrow> otDeviceRole"
  otLinkGetPanId :: "history \<Rightarrow> u16"
  otLinkGetChannel :: "history \<Rightarrow> u8"
  otThreadGetExtendedPanId :: "history \<Rightarrow> bytes"
  otThreadGetNetworkName :: "history \<Rightarrow> string"
  otLinkGetSupportedChannelMask :: "history \<Rightarrow> u32"
  otThreadDiscover :: "history \<Rightarrow> u32 \<Rightarrow> int"
  ot_results_during_wait :: "history \<Rightarrow> otActiveScanResult option list"
  openthread_run_ret :: "history \<Rightarrow> int"

record transport_env =
  http_server_start_ret :: "history \<Rightarrow> int"
  sys_rand32_get :: "history \<Rightarrow> u32"
  bt_set_name_ret :: "history \<Rightarrow> string \<Rightarrow> int"
  bt_enable_ret :: "history \<Rightarrow> int"
  bt_get_name :: "history \<Rightarrow> string"
  bt_gatt_service_register_ret :: "history \<Rightarrow> int"
  bt_le_adv_start_ret :: "history \<Rightarrow> int"
  hex2bin :: "string \<Rightarrow> nat \<Rightarrow> bytes"
  bin2hex :: "bytes \<Rightarrow> string"

record env =
  kern :: kernel_env
  cfg :: config
  nanopb :: nanopb_env
  psa :: psa_env
  wifi :: wifi_env
  ot :: ot_env
  transp :: transport_env

section \<open>The base of the program state, and the kernel calls\<close>

record kst =
  hist :: history
  fault :: bool

definition ext_call :: "call \<Rightarrow> ('z kst_scheme, unit) state" where
  "ext_call c = modify (\<lambda>s. s\<lparr>hist := c # hist s\<rparr>)"

definition set_fault :: "('z kst_scheme, unit) state" where
  "set_fault = modify (\<lambda>s. s\<lparr>fault := True\<rparr>)"

text \<open>An external function that is asked (\<open>q\<close>, given the history) and then recorded.\<close>

definition ask :: "(history \<Rightarrow> 'a) \<Rightarrow> ('a \<Rightarrow> call) \<Rightarrow> ('z kst_scheme, 'a) state" where
  "ask q c = do { r \<leftarrow> gets (\<lambda>s. q (hist s)); ext_call (c r); ret r }"

definition k_malloc :: "env \<Rightarrow> nat \<Rightarrow> ('z kst_scheme, bool) state" where
  "k_malloc E n = ask (\<lambda>h. malloc_ok (kern E) h n) (\<lambda>ok. Kern (K_malloc n ok))"

text \<open>\<open>k_free(p)\<close> for a pointer that is NULL (None) or an allocated block.\<close>

definition k_free :: "'b option \<Rightarrow> ('z kst_scheme, unit) state" where
  "k_free p = (case p of None \<Rightarrow> ret () | Some _ \<Rightarrow> ext_call (Kern K_free))"

definition k_sem_take :: "env \<Rightarrow> ksem \<Rightarrow> k_timeout \<Rightarrow> ('z kst_scheme, int) state" where
  "k_sem_take E sem ms = ask (\<lambda>h. sem_take (kern E) h sem) (\<lambda>_. Kern (K_sem_take sem ms))"

lemma wp_ext_call [wp, simp]: "wp (ext_call c) Q s = Q () (s\<lparr>hist := c # hist s\<rparr>)"
  by (simp add: ext_call_def wp)

lemma wp_set_fault [wp, simp]: "wp set_fault Q s = Q () (s\<lparr>fault := True\<rparr>)"
  by (simp add: set_fault_def wp)

lemma wp_ask [wp, simp]:
  "wp (ask q c) Q s = Q (q (hist s)) (s\<lparr>hist := c (q (hist s)) # hist s\<rparr>)"
  by (simp add: ask_def wp)

lemma wp_k_malloc [wp, simp]:
  "wp (k_malloc E n) Q s =
    Q (malloc_ok (kern E) (hist s) n)
      (s\<lparr>hist := Kern (K_malloc n (malloc_ok (kern E) (hist s) n)) # hist s\<rparr>)"
  by (simp add: k_malloc_def wp)

lemma wp_k_free [wp, simp]:
  "wp (k_free p) Q s = (case p of None \<Rightarrow> Q () s | Some _ \<Rightarrow> Q () (s\<lparr>hist := Kern K_free # hist s\<rparr>))"
  by (simp add: k_free_def wp split: option.split)

lemma wp_k_sem_take [wp, simp]:
  "wp (k_sem_take E sem ms) Q s =
    Q (sem_take (kern E) (hist s) sem) (s\<lparr>hist := Kern (K_sem_take sem ms) # hist s\<rparr>)"
  by (simp add: k_sem_take_def wp)

text \<open>A step that changes nothing but the history.\<close>

definition only_hist :: "'z kst_scheme \<Rightarrow> 'z kst_scheme \<Rightarrow> bool" where
  "only_hist s s' \<longleftrightarrow> s' = s\<lparr>hist := hist s'\<rparr>"

lemma only_hist_simps [simp]:
  "only_hist s s" "only_hist s (s\<lparr>hist := h\<rparr>)" "only_hist (s\<lparr>hist := h\<rparr>) s' = only_hist s s'"
  by (simp_all add: only_hist_def)

lemma only_histE:
  assumes "only_hist s s'" obtains h where "s' = s\<lparr>hist := h\<rparr>"
  using assms by (auto simp: only_hist_def)

lemma only_hist_trans: "only_hist s t \<Longrightarrow> only_hist t u \<Longrightarrow> only_hist s u"
  by (elim only_histE) simp

lemma only_hist_fault: "only_hist s s' \<Longrightarrow> fault s' = fault s"
  by (elim only_histE) simp

section \<open>Reading the history\<close>

text \<open>Heap blocks that are allocated and not yet freed.\<close>

fun blocks :: "history \<Rightarrow> int" where
  "blocks [] = 0"
| "blocks (Kern (K_malloc n ok) # h) = (if ok then 1 else 0) + blocks h"
| "blocks (Kern K_free # h) = blocks h - 1"
| "blocks (c # h) = blocks h"

text \<open>The events delivered to the application, newest first.\<close>

fun app_events :: "history \<Rightarrow> network_prov_cb_event list" where
  "app_events [] = []"
| "app_events (App (App_event e) # h) = e # app_events h"
| "app_events (c # h) = app_events h"

text \<open>Whether a delayable work item is scheduled: the last schedule call is not followed by
  a cancellation or by the kernel running the item (documented k_work semantics).\<close>

fun armed :: "kwork \<Rightarrow> history \<Rightarrow> bool" where
  "armed w [] = False"
| "armed w (Kern (K_work_schedule v n) # h) = (v = w \<or> armed w h)"
| "armed w (Kern (K_work_reschedule v n) # h) = (v = w \<or> armed w h)"
| "armed w (Kern (K_work_init v) # h) = (v \<noteq> w \<and> armed w h)"
| "armed w (Kern (K_work_cancel v) # h) = (v \<noteq> w \<and> armed w h)"
| "armed w (Kern (K_work_cancel_sync v) # h) = (v \<noteq> w \<and> armed w h)"
| "armed w (Kern (K_work_run v) # h) = (v \<noteq> w \<and> armed w h)"
| "armed w (c # h) = armed w h"

text \<open>The count of a binary semaphore (documented k_sem semantics; a take that timed out
  leaves it at 0, one that succeeded took the unit).\<close>

fun sem_given :: "ksem \<Rightarrow> history \<Rightarrow> bool" where
  "sem_given m [] = False"
| "sem_given m (Kern (K_sem_init v) # h) = (v \<noteq> m \<and> sem_given m h)"
| "sem_given m (Kern (K_sem_reset v) # h) = (v \<noteq> m \<and> sem_given m h)"
| "sem_given m (Kern (K_sem_give v) # h) = (v = m \<or> sem_given m h)"
| "sem_given m (Kern (K_sem_take v n) # h) = (v \<noteq> m \<and> sem_given m h)"
| "sem_given m (c # h) = sem_given m h"

text \<open>The PSA keys that were made and not destroyed.\<close>

fun live_keys :: "history \<Rightarrow> nat list" where
  "live_keys [] = []"
| "live_keys (Psa (Psa_generate_key (Some k)) # h) = k # live_keys h"
| "live_keys (Psa (Psa_import_key b (Some k)) # h) = k # live_keys h"
| "live_keys (Psa (Psa_destroy_key k) # h) = remove1 k (live_keys h)"
| "live_keys (c # h) = live_keys h"

text \<open>The key material behind an identifier of an imported key.\<close>

fun imported :: "history \<Rightarrow> nat \<Rightarrow> bytes option" where
  "imported [] k = None"
| "imported (Psa (Psa_import_key b (Some j)) # h) k = (if j = k then Some b else imported h k)"
| "imported (Psa (Psa_destroy_key j) # h) k = (if j = k then None else imported h k)"
| "imported (c # h) k = imported h k"

text \<open>Hypothesis on the kernel: a take succeeds (returns 0) exactly when a unit is there by
  the time it stops waiting.\<close>

definition sem_law :: "env \<Rightarrow> bool" where
  "sem_law E \<longleftrightarrow> (\<forall>h m. sem_take (kern E) h m = 0 \<longleftrightarrow> sem_given m h)"

section \<open>A concrete environment\<close>

text \<open>An environment in which every external function succeeds, used where a statement is
  evaluated on a concrete run. Its codec is written for one message only: \<open>one_msg m bs\<close> encodes
  \<open>m\<close> as \<open>bs\<close> and decodes \<open>bs\<close> to \<open>m\<close>.\<close>

definition one_msg :: "'m \<Rightarrow> bytes \<Rightarrow> 'm codec" where
  "one_msg m bs = \<lparr>pb_decode = (\<lambda>b. if b = bs then Some m else None),
     pb_get_encoded_size = (\<lambda>x. if x = m then Some (length bs) else None),
     pb_encode = (\<lambda>n x. if x = m then Some bs else None)\<rparr>"

definition ok_kern :: kernel_env where
  "ok_kern = \<lparr>malloc_ok = (\<lambda>_ _. True), sem_take = (\<lambda>h m. if sem_given m h then 0 else - 11),
     settings_subsys_init_ret = (\<lambda>_. 0), settings_load_ret = (\<lambda>_. 0),
     app_endpoint = (\<lambda>_ _ _ b. (0, Some (b @ b))), uninit = (\<lambda>_ n. zeros n)\<rparr>"

definition ok_cfg :: config where
  "ok_cfg = \<lparr>SCAN_MAX_ENTRIES = 16, BLE_MAX_RESP_LEN = 512, MAX_CUSTOM_ENDPOINTS = 3,
     AUTOSTOP_TIMEOUT_MS = 30000, NETWORK_TYPE_THREAD = False, SETTINGS = True, ULONG_MAX = 4294967295,
     sizeof_protocomm = 280, sizeof_sec1_ctx = 400\<rparr>"

definition ok_nanopb :: nanopb_env where
  "ok_nanopb = \<lparr>
     SessionData_codec = one_msg \<lparr>sec_ver = SecScheme0, session_proto = Proto_none\<rparr> [],
     NetworkConfig_codec = one_msg \<lparr>config_msg = TypeCmdGetWifiStatus, config_payload = Config_none\<rparr> [],
     NetworkScan_codec = one_msg
       \<lparr>scan_msg = TypeCmdScanWifiStart, scan_status = Status_Success, scan_payload = Scan_none\<rparr> [],
     NetworkCtrl_codec = one_msg
       \<lparr>ctrl_msg = TypeCtrlReserved, ctrl_status = Status_Success, ctrl_payload = Ctrl_none\<rparr> [],
     pun_sc0 = (\<lambda>_. []), pun_sc1 = (\<lambda>_. []),
     pun_set_wifi_config = (\<lambda>_. \<lparr>cmd_ssid = [], cmd_passphrase = [], cmd_bssid = [], cmd_channel = 0\<rparr>),
     pun_set_thread_config = (\<lambda>_. []),
     pun_scan_wifi_result = (\<lambda>_. (0, 0)), pun_scan_thread_result = (\<lambda>_. (0, 0))\<rparr>"

definition ok_psa :: psa_env where
  "ok_psa = \<lparr>psa_crypto_init_ret = (\<lambda>_. 0), psa_generate_key = (\<lambda>_. (0, 1)),
     psa_export_public_key = (\<lambda>_ _. (0, replicate 32 7)),
     psa_raw_key_agreement = (\<lambda>_ _ _. (0, replicate 32 9)),
     psa_hash_compute = (\<lambda>_ _. (0, replicate 32 5)), psa_import_key = (\<lambda>_ _. (0, 2)),
     psa_cipher_encrypt_setup = (\<lambda>_ _. 0), psa_cipher_set_iv = (\<lambda>_ _ _. 0),
     psa_cipher_update = (\<lambda>_ _ b. (0, b)), psa_generate_random = (\<lambda>_ n. (0, replicate n 3))\<rparr>"

definition ok_wifi :: wifi_env where
  "ok_wifi = \<lparr>net_if_get_wifi_sta = (\<lambda>_. Some 1), net_if_get_first_wifi = (\<lambda>_. Some 1),
     net_if_get_wifi_sap = (\<lambda>_. Some 2), wifi_connect_ret = (\<lambda>_ _ _. 0), wifi_scan_ret = (\<lambda>_ _. 0),
     wifi_scan_events_during_wait = (\<lambda>_. [SCAN_DONE]),
     wifi_iface_status_ret = (\<lambda>_ _. (0, \<lparr>ist_ssid = [], ist_bssid = zeros 6, ist_channel = 6\<rparr>)),
     ipv4_global_addr = (\<lambda>_ _. Some ''10.0.0.2''), cred_delete_by_ssid_ret = (\<lambda>_ _. 0),
     cred_set_personal_ret = (\<lambda>_ c. if cr_ssid c = [] then - 22 else 0), cred_is_empty = (\<lambda>_. True), cred_delete_all_ret = (\<lambda>_. 0),
     wifi_credentials_for_each_ssid = (\<lambda>_. []),
     wifi_credentials_get_by_ssid_personal = (\<lambda>_ _. (- 2, \<lparr>sv_security = WIFI_SECURITY_TYPE_NONE, sv_bssid = zeros 6,
       sv_password = [], sv_flags = 0, sv_channel = 0\<rparr>)),
     wifi_connect_no_iface_ret = (\<lambda>_ _. - 134), connect_results = (\<lambda>_. []),
     dhcpv4_server_start_ret = (\<lambda>_ _. 0), wifi_ap_enable_ret = (\<lambda>_ _ _. 0)\<rparr>"

definition ok_ot :: ot_env where
  "ok_ot = \<lparr>ot_callback_register_ret = (\<lambda>_. 0), otDatasetSetActiveTlvs = (\<lambda>_ _. 0),
     otThreadSetEnabled = (\<lambda>_ _. 0), otInstanceErasePersistentInfo = (\<lambda>_. 0),
     otDatasetIsCommissioned = (\<lambda>_. True), otThreadGetDeviceRole = (\<lambda>_. OT_DEVICE_ROLE_CHILD),
     otLinkGetPanId = (\<lambda>_. 4660), otLinkGetChannel = (\<lambda>_. 15),
     otThreadGetExtendedPanId = (\<lambda>_. zeros 8), otThreadGetNetworkName = (\<lambda>_. ''OpenThread''),
     otLinkGetSupportedChannelMask = (\<lambda>_. 134215680), otThreadDiscover = (\<lambda>_ _. 0),
     ot_results_during_wait = (\<lambda>_. [None]), openthread_run_ret = (\<lambda>_. 0)\<rparr>"

definition ok_transp :: transport_env where
  "ok_transp = \<lparr>http_server_start_ret = (\<lambda>_. 0), sys_rand32_get = (\<lambda>_. 1234),
     bt_set_name_ret = (\<lambda>_ _. 0), bt_enable_ret = (\<lambda>_. 0), bt_get_name = (\<lambda>_. ''PROV''),
     bt_gatt_service_register_ret = (\<lambda>_. 0), bt_le_adv_start_ret = (\<lambda>_. 0),
     hex2bin = (\<lambda>_ _. []), bin2hex = (\<lambda>_. [])\<rparr>"

definition ok_env :: env where
  "ok_env = \<lparr>kern = ok_kern, cfg = ok_cfg, nanopb = ok_nanopb, psa = ok_psa, wifi = ok_wifi,
     ot = ok_ot, transp = ok_transp\<rparr>"

lemmas ok_env_defs = ok_env_def ok_kern_def ok_cfg_def ok_nanopb_def ok_psa_def ok_wifi_def
  ok_ot_def ok_transp_def one_msg_def

end
