(* ===== verification/Pb_Util.thy ===== *)
theory Pb_Util
  imports Platform
begin

text \<open>
  \<^verbatim>\<open>src/src/pb_util.c\<close>: encode a protobuf message into a freshly allocated buffer.
  Every endpoint handler and both handshakes answer through this function, so its contract
  (a buffer exactly on success, nothing left allocated on failure) is shared by all of them.
\<close>

definition network_prov_pb_encode ::
  "env \<Rightarrow> 'm codec \<Rightarrow> 'm \<Rightarrow> ('z kst_scheme, int \<times> bytes option) state" where
  "network_prov_pb_encode E c src =
    (case pb_get_encoded_size c src of
       None \<Rightarrow> ret (- EINVAL, None)
     | Some sz \<Rightarrow> do {
         ok \<leftarrow> k_malloc E (if sz \<noteq> 0 then sz else 1);
         if \<not> ok then ret (- ENOMEM, None)
         else (case pb_encode c sz src of
             None \<Rightarrow> do { k_free (Some ()); ret (- EINVAL, None) }
           | Some bs \<Rightarrow> ret (0, Some bs)) })"

text \<open>The buffer discipline of a request handler that starts with a NULL output buffer: a
  success hands over one block, a failure none.\<close>

definition out_contract :: "history \<Rightarrow> int \<times> bytes option \<Rightarrow> history \<Rightarrow> bool" where
  "out_contract h r h' \<longleftrightarrow>
     (fst r = 0 \<longleftrightarrow> snd r \<noteq> None) \<and>
     blocks h' = blocks h + (if snd r = None then 0 else 1)"

definition encodes :: "'m codec \<Rightarrow> 'm \<Rightarrow> bytes \<Rightarrow> bool" where
  "encodes c m bs \<longleftrightarrow>
     (\<exists>n. pb_get_encoded_size c m = Some n \<and> pb_encode c n m = Some bs)"

text \<open>Calls that only manage the heap leave every other reading of the history alone.\<close>

fun heap_call :: "call \<Rightarrow> bool" where
  "heap_call (Kern (K_malloc n ok)) = True"
| "heap_call (Kern K_free) = True"
| "heap_call c = False"

lemma heap_call_cases:
  assumes "heap_call c"
  obtains n ok where "c = Kern (K_malloc n ok)" | "c = Kern K_free"
  using assms by (cases c rule: heap_call.cases) auto

lemma heap_only_readings:
  assumes "list_all heap_call k"
  shows "app_events (k @ h) = app_events h" "armed w (k @ h) = armed w h"
    "sem_given m (k @ h) = sem_given m h"
  using assms by (induction k) (auto elim!: heap_call_cases)

definition pb_post :: "'m codec \<Rightarrow> 'm \<Rightarrow> history \<Rightarrow> int \<times> bytes option \<Rightarrow> history \<Rightarrow> bool" where
  "pb_post c m h r h' \<longleftrightarrow>
     out_contract h r h' \<and> (\<exists>k. list_all heap_call k \<and> h' = k @ h) \<and>
     (\<forall>bs. snd r = Some bs \<longrightarrow> encodes c m bs) \<and>
     (fst r = 0 \<or> fst r = - EINVAL \<or> fst r = - ENOMEM)"

lemma wp_pb_encode:
  assumes "\<And>r h'. pb_post c m (hist s) r h' \<Longrightarrow> Q r (s\<lparr>hist := h'\<rparr>)"
  shows "wp (network_prov_pb_encode E c m) Q s"
proof -
  have app: "\<exists>k. list_all heap_call k \<and> x # xs = k @ xs" if "heap_call x" for x xs
    using that by (intro exI [of _ "[x]"]) simp
  have app2: "\<exists>k. list_all heap_call k \<and> x # y # xs = k @ xs" if "heap_call x" "heap_call y" for x y xs
    using that by (intro exI [of _ "[x, y]"]) simp
  show ?thesis
  proof (cases "pb_get_encoded_size c m")
    case None
    have "pb_post c m (hist s) (- EINVAL, None) (hist s)"
      by (simp add: pb_post_def out_contract_def)
    from assms [OF this] None show ?thesis
      by (simp add: network_prov_pb_encode_def wp)
  next
    case (Some n)
    then show ?thesis
      by (auto simp: network_prov_pb_encode_def wp pb_post_def out_contract_def encodes_def app app2
          split: option.split intro!: assms)
  qed
qed

lemma pb_postD:
  assumes "pb_post c m h r h'"
  shows "blocks h' = blocks h + (if snd r = None then 0 else 1)" "fst r = 0 \<longleftrightarrow> snd r \<noteq> None"
    "app_events h' = app_events h" "armed w h' = armed w h" "sem_given v h' = sem_given v h"
    "snd r = Some bs \<Longrightarrow> encodes c m bs"
  using assms by (auto simp: pb_post_def out_contract_def heap_only_readings)

lemma pb_encode_spec:
  "wp (network_prov_pb_encode E c m) (\<lambda>r s'. only_hist s s' \<and> pb_post c m (hist s) r (hist s')) s"
  by (rule wp_pb_encode) simp

lemma pb_post_contract: "pb_post c m h r h' \<Longrightarrow> out_contract h r h'"
  by (simp add: pb_post_def)

text \<open>The contract of an endpoint handler on the heap and the instances, and what a handler that
  answers with an encoded message promises.\<close>

lemma out_contract_refl: "e \<noteq> 0 \<Longrightarrow> blocks h' = blocks h \<Longrightarrow> out_contract h (e, None) h'"
  by (simp add: out_contract_def)

lemma out_contract_pb:
  "pb_post c m h' r h'' \<Longrightarrow> blocks h' = blocks h \<Longrightarrow> out_contract h r h''"
  by (simp add: pb_post_def out_contract_def)

text \<open>The answer of an endpoint is the encoding of a message with \<open>P\<close>, if there is one.\<close>

definition answers :: "'m codec \<Rightarrow> ('m \<Rightarrow> bool) \<Rightarrow> int \<times> bytes option \<Rightarrow> bool" where
  "answers c P r \<longleftrightarrow> (\<forall>bs. snd r = Some bs \<longrightarrow> (\<exists>m. P m \<and> encodes c m bs))"

lemma answers_pb: "pb_post c m h r h' \<Longrightarrow> P m \<Longrightarrow> answers c P r"
  by (auto simp: answers_def dest: pb_postD(6))

lemma answers_None [simp]: "answers c P (e, None)"
  by (simp add: answers_def)

lemma answers_mono: "answers c P r \<Longrightarrow> (\<And>m. P m \<Longrightarrow> Q m) \<Longrightarrow> answers c Q r"
  by (fastforce simp: answers_def)

end
