(* ===== verification/Protocomm.thy ===== *)
theory Protocomm
  imports Pb_Util
begin

text \<open>
  \<^verbatim>\<open>src/src/protocomm.c\<close> and \<^verbatim>\<open>protocomm.h\<close>: the endpoint registry and the request
  dispatcher with its per-session security hook. Instances live in a store of objects
  (\<open>pcs\<close>, by address), because the manager and the transport hold pointers to the same
  instance: a use of a freed instance sets \<open>fault\<close>. Addresses are never handed out twice,
  so a stale pointer never looks valid.

  Function pointers are values of the types \<open>'sec\<close> (a security vtable) and \<open>'h\<close> (an endpoint
  handler, with its private pointer of type \<open>'p\<close>); what they point to is the argument
  \<open>L\<close> of the operations.
\<close>

section \<open>State\<close>

abbreviation (input) PROTOCOMM_MAX_ENDPOINTS :: nat where "PROTOCOMM_MAX_ENDPOINTS \<equiv> 8"
abbreviation (input) PROTOCOMM_EP_NAME_MAX :: nat where "PROTOCOMM_EP_NAME_MAX \<equiv> 16"

datatype ep_type = EP_DATA | EP_SECURITY | EP_VERSION

record ('h, 'p) protocomm_ep =
  ep_name :: string
  ep_ty :: ep_type
  ep_handler :: "'h option"
  ep_priv :: "'p option"

text \<open>The table \<open>endpoints[]\<close> with \<open>n_endpoints\<close> is the list of its used entries.\<close>

record ('sec, 'ctx, 'h, 'p) protocomm =
  endpoints :: "('h, 'p) protocomm_ep list"
  sec :: "'sec option"
  pop :: cstr
  sec_ctx :: "'ctx option"
  version :: cstr

record ('sec, 'ctx, 'h, 'p) pcst = kst +
  pcs :: "nat \<Rightarrow> ('sec, 'ctx, 'h, 'p) protocomm option"

text \<open>\<open>struct protocomm_security\<close>. A function that changes the session context through its
  pointer returns the new context.\<close>

record ('ctx, 'w) protocomm_security =
  sec_version :: int
  sec_init :: "(cstr \<Rightarrow> ('w, int \<times> 'ctx option) state) option"
  sec_cleanup :: "('ctx \<Rightarrow> ('w, unit) state) option"
  sec_handshake :: "('ctx option \<Rightarrow> bytes \<Rightarrow> ('w, (int \<times> bytes option) \<times> 'ctx option) state) option"
  sec_encrypt :: "'ctx option \<Rightarrow> bytes \<Rightarrow> ('w, (int \<times> bytes) \<times> 'ctx option) state"
  sec_decrypt :: "'ctx option \<Rightarrow> bytes \<Rightarrow> ('w, (int \<times> bytes) \<times> 'ctx option) state"

record ('sec, 'ctx, 'h, 'p, 'w) link =
  vtable :: "'sec \<Rightarrow> ('ctx, 'w) protocomm_security"
  call_handler :: "'h \<Rightarrow> 'p option \<Rightarrow> bytes \<Rightarrow> ('w, int \<times> bytes option) state"

section \<open>Operations\<close>

definition empty_protocomm :: "('sec, 'ctx, 'h, 'p) protocomm" where
  "empty_protocomm = \<lparr>endpoints = [], sec = None, pop = None, sec_ctx = None, version = None\<rparr>"

text \<open>Dereference of an instance pointer; \<open>d\<close> is the value after undefined behaviour.\<close>

definition with_pc ::
  "nat \<Rightarrow> 'a \<Rightarrow> (('sec, 'ctx, 'h, 'p) protocomm \<Rightarrow> (('sec, 'ctx, 'h, 'p, 'z) pcst_scheme, 'a) state) \<Rightarrow>
    (('sec, 'ctx, 'h, 'p, 'z) pcst_scheme, 'a) state" where
  "with_pc p d f = do {
     oc \<leftarrow> gets (\<lambda>s. pcs s p);
     (case oc of None \<Rightarrow> do { set_fault; ret d } | Some c \<Rightarrow> f c) }"

definition upd_pc ::
  "nat \<Rightarrow> (('sec, 'ctx, 'h, 'p) protocomm \<Rightarrow> ('sec, 'ctx, 'h, 'p) protocomm) \<Rightarrow>
    (('sec, 'ctx, 'h, 'p, 'z) pcst_scheme, unit) state" where
  "upd_pc p f = modify (\<lambda>s. s\<lparr>pcs := (pcs s)(p := map_option f (pcs s p))\<rparr>)"

definition protocomm_new ::
  "env \<Rightarrow> (('sec, 'ctx, 'h, 'p, 'z) pcst_scheme, nat option) state" where
  "protocomm_new E = do {
     a \<leftarrow> gets (\<lambda>s. length (hist s));
     ok \<leftarrow> k_malloc E (sizeof_protocomm (cfg E));
     if \<not> ok then ret None
     else do {
       modify (\<lambda>s. s\<lparr>pcs := (pcs s)(a \<mapsto> empty_protocomm)\<rparr>);
       ret (Some a) } }"

fun find_ep_list :: "('h, 'p) protocomm_ep list \<Rightarrow> string \<Rightarrow> ('h, 'p) protocomm_ep option" where
  "find_ep_list [] name = None"
| "find_ep_list (e # es) name = (if ep_name e = name then Some e else find_ep_list es name)"

definition find_ep :: "('sec, 'ctx, 'h, 'p) protocomm \<Rightarrow> string \<Rightarrow> ('h, 'p) protocomm_ep option" where
  "find_ep c name = find_ep_list (endpoints c) name"

definition add_ep ::
  "nat option \<Rightarrow> cstr \<Rightarrow> ep_type \<Rightarrow> 'h option \<Rightarrow> 'p option \<Rightarrow>
    (('sec, 'ctx, 'h, 'p, 'z) pcst_scheme, int) state" where
  "add_ep pc name type handler priv =
    (case (pc, name) of
       (Some p, Some n) \<Rightarrow>
         (if length n \<ge> PROTOCOMM_EP_NAME_MAX then ret (- ENAMETOOLONG)
          else with_pc p 0 (\<lambda>c.
            if find_ep c n \<noteq> None then ret (- EALREADY)
            else if length (endpoints c) \<ge> PROTOCOMM_MAX_ENDPOINTS then ret (- ENOMEM)
            else do {
              upd_pc p (\<lambda>c. c\<lparr>endpoints := endpoints c @
                [\<lparr>ep_name = strncpy_z (PROTOCOMM_EP_NAME_MAX - 1) n, ep_ty = type,
                  ep_handler = handler, ep_priv = priv\<rparr>]\<rparr>);
              ret 0 }))
     | _ \<Rightarrow> ret (- EINVAL))"

definition protocomm_add_endpoint ::
  "nat option \<Rightarrow> cstr \<Rightarrow> 'h option \<Rightarrow> 'p option \<Rightarrow>
    (('sec, 'ctx, 'h, 'p, 'z) pcst_scheme, int) state" where
  "protocomm_add_endpoint pc name handler priv = add_ep pc name EP_DATA handler priv"

definition protocomm_set_security ::
  "nat option \<Rightarrow> cstr \<Rightarrow> 'sec option \<Rightarrow> cstr \<Rightarrow>
    (('sec, 'ctx, 'h, 'p, 'z) pcst_scheme, int) state" where
  "protocomm_set_security pc name sc popv =
    (if sc = None then ret (- EINVAL)
     else do {
       r \<leftarrow> add_ep pc name EP_SECURITY None None;
       if r \<noteq> 0 then ret r
       else do {
         (case pc of None \<Rightarrow> set_fault
          | Some p \<Rightarrow> upd_pc p (\<lambda>c. c\<lparr>sec := sc, pop := popv\<rparr>));
         ret 0 } })"

definition protocomm_set_version ::
  "nat option \<Rightarrow> cstr \<Rightarrow> cstr \<Rightarrow> (('sec, 'ctx, 'h, 'p, 'z) pcst_scheme, int) state" where
  "protocomm_set_version pc name ver =
    (if ver = None then ret (- EINVAL)
     else do {
       r \<leftarrow> add_ep pc name EP_VERSION None None;
       if r \<noteq> 0 then ret r
       else do {
         (case pc of None \<Rightarrow> set_fault | Some p \<Rightarrow> upd_pc p (\<lambda>c. c\<lparr>version := ver\<rparr>));
         ret 0 } })"

definition protocomm_close_session ::
  "('sec, 'ctx, 'h, 'p, ('sec, 'ctx, 'h, 'p, 'z) pcst_scheme) link \<Rightarrow> nat option \<Rightarrow>
    (('sec, 'ctx, 'h, 'p, 'z) pcst_scheme, unit) state" where
  "protocomm_close_session L pc =
    (case pc of
       None \<Rightarrow> ret ()
     | Some p \<Rightarrow> with_pc p () (\<lambda>c.
         (case sec c of None \<Rightarrow> ret ()
          | Some v \<Rightarrow>
            (case sec_ctx c of None \<Rightarrow> ret ()
             | Some x \<Rightarrow> do {
                 (case sec_cleanup (vtable L v) of None \<Rightarrow> ret () | Some f \<Rightarrow> f x);
                 upd_pc p (\<lambda>c. c\<lparr>sec_ctx := None\<rparr>) }))))"

definition protocomm_open_session ::
  "('sec, 'ctx, 'h, 'p, ('sec, 'ctx, 'h, 'p, 'z) pcst_scheme) link \<Rightarrow> nat option \<Rightarrow>
    (('sec, 'ctx, 'h, 'p, 'z) pcst_scheme, unit) state" where
  "protocomm_open_session L pc =
    (case pc of
       None \<Rightarrow> ret ()
     | Some p \<Rightarrow> with_pc p () (\<lambda>c.
         (case sec c of None \<Rightarrow> ret ()
          | Some v \<Rightarrow> do {
              protocomm_close_session L pc;
              (case sec_init (vtable L v) of None \<Rightarrow> ret ()
               | Some f \<Rightarrow> do {
                   rx \<leftarrow> f (pop c);
                   upd_pc p (\<lambda>c. c\<lparr>sec_ctx := (if fst rx \<noteq> 0 then None else snd rx)\<rparr>) }) })))"

definition protocomm_delete ::
  "('sec, 'ctx, 'h, 'p, ('sec, 'ctx, 'h, 'p, 'z) pcst_scheme) link \<Rightarrow> nat option \<Rightarrow>
    (('sec, 'ctx, 'h, 'p, 'z) pcst_scheme, unit) state" where
  "protocomm_delete L pc =
    (case pc of
       None \<Rightarrow> ret ()
     | Some p \<Rightarrow> do {
         protocomm_close_session L pc;
         modify (\<lambda>s. s\<lparr>pcs := (pcs s)(p := None)\<rparr>);
         k_free (Some p) })"

definition handle_version ::
  "env \<Rightarrow> nat \<Rightarrow> (('sec, 'ctx, 'h, 'p, 'z) pcst_scheme, int \<times> bytes option) state" where
  "handle_version E p = with_pc p (0, None) (\<lambda>c.
     (case version c of
        None \<Rightarrow> do { set_fault; ret (0, None) }
      | Some v \<Rightarrow> do {
          ok \<leftarrow> k_malloc E (length v);
          if \<not> ok then ret (- ENOMEM, None)
          else ret (0, Some (bytes_of_string v)) }))"

text \<open>One call of \<open>pc->sec->encrypt\<close> or \<open>decrypt\<close> on \<open>pc->sec_ctx\<close>.\<close>

definition crypt ::
  "nat \<Rightarrow> ('ctx option \<Rightarrow> bytes \<Rightarrow>
      (('sec, 'ctx, 'h, 'p, 'z) pcst_scheme, (int \<times> bytes) \<times> 'ctx option) state) \<Rightarrow>
    bytes \<Rightarrow> (('sec, 'ctx, 'h, 'p, 'z) pcst_scheme, int \<times> bytes) state" where
  "crypt p f b = with_pc p (0, []) (\<lambda>c. do {
     rx \<leftarrow> f (sec_ctx c) b;
     upd_pc p (\<lambda>c. c\<lparr>sec_ctx := snd rx\<rparr>);
     ret (fst rx) })"

text \<open>First part of \<open>handle_data\<close>: the request is decrypted into a fresh buffer; an empty
  request is passed on as a NULL buffer.\<close>

definition decrypt_request ::
  "env \<Rightarrow> ('ctx, ('sec, 'ctx, 'h, 'p, 'z) pcst_scheme) protocomm_security \<Rightarrow> nat \<Rightarrow> bytes \<Rightarrow>
    (('sec, 'ctx, 'h, 'p, 'z) pcst_scheme, int + bytes option) state" where
  "decrypt_request E vt p inbuf =
    (if inbuf = [] then ret (Inr None)
     else do {
       ok \<leftarrow> k_malloc E (length inbuf);
       if \<not> ok then ret (Inl (- ENOMEM))
       else do {
         rp \<leftarrow> crypt p (sec_decrypt vt) inbuf;
         if fst rp \<noteq> 0 then do { k_free (Some ()); ret (Inl (fst rp)) }
         else ret (Inr (Some (snd rp))) } })"

text \<open>Last part of \<open>handle_data\<close>: the response is encrypted into a fresh buffer. A response of
  length 0 is answered with a NULL buffer, and the handler's block is not freed.\<close>

definition encrypt_response ::
  "env \<Rightarrow> ('ctx, ('sec, 'ctx, 'h, 'p, 'z) pcst_scheme) protocomm_security \<Rightarrow> nat \<Rightarrow> bytes option \<Rightarrow>
    (('sec, 'ctx, 'h, 'p, 'z) pcst_scheme, int \<times> bytes option) state" where
  "encrypt_response E vt p raw_out =
    (case raw_out of
       None \<Rightarrow> ret (0, None)
     | Some raw \<Rightarrow>
        if length raw = 0 then ret (0, None)
        else do {
          ok \<leftarrow> k_malloc E (length raw);
          if \<not> ok then do { k_free raw_out; ret (- ENOMEM, None) }
          else do {
            re \<leftarrow> crypt p (sec_encrypt vt) raw;
            k_free raw_out;
            if fst re \<noteq> 0 then do { k_free (Some ()); ret (fst re, None) }
            else ret (0, Some (snd re)) } })"

text \<open>Middle part of \<open>handle_data\<close>: the endpoint handler runs on the plaintext.\<close>

definition run_endpoint ::
  "env \<Rightarrow> ('sec, 'ctx, 'h, 'p, ('sec, 'ctx, 'h, 'p, 'z) pcst_scheme) link \<Rightarrow> nat \<Rightarrow> 'sec \<Rightarrow>
    ('h, 'p) protocomm_ep \<Rightarrow> bytes option \<Rightarrow>
    (('sec, 'ctx, 'h, 'p, 'z) pcst_scheme, int \<times> bytes option) state" where
  "run_endpoint E L p v ep plain =
    (case ep_handler ep of
       None \<Rightarrow> do { set_fault; ret (0, None) }
     | Some h \<Rightarrow> do {
         rr \<leftarrow> call_handler L h (ep_priv ep) (case plain of None \<Rightarrow> [] | Some b \<Rightarrow> b);
         k_free plain;
         if fst rr \<noteq> 0 then do { k_free (snd rr); ret (fst rr, None) }
         else encrypt_response E (vtable L v) p (snd rr) })"

definition handle_data ::
  "env \<Rightarrow> ('sec, 'ctx, 'h, 'p, ('sec, 'ctx, 'h, 'p, 'z) pcst_scheme) link \<Rightarrow> nat \<Rightarrow> 'sec \<Rightarrow>
    ('h, 'p) protocomm_ep \<Rightarrow> bytes \<Rightarrow>
    (('sec, 'ctx, 'h, 'p, 'z) pcst_scheme, int \<times> bytes option) state" where
  "handle_data E L p v ep inbuf = do {
     d \<leftarrow> decrypt_request E (vtable L v) p inbuf;
     (case d of Inl e \<Rightarrow> ret (e, None) | Inr plain \<Rightarrow> run_endpoint E L p v ep plain) }"

definition protocomm_req_handle ::
  "env \<Rightarrow> ('sec, 'ctx, 'h, 'p, ('sec, 'ctx, 'h, 'p, 'z) pcst_scheme) link \<Rightarrow> nat option \<Rightarrow> cstr \<Rightarrow>
    bytes \<Rightarrow> (('sec, 'ctx, 'h, 'p, 'z) pcst_scheme, int \<times> bytes option) state" where
  "protocomm_req_handle E L pc name inbuf =
    (case (pc, name) of
       (Some p, Some n) \<Rightarrow> with_pc p (0, None) (\<lambda>c.
         (case find_ep c n of
            None \<Rightarrow> ret (- ENOENT, None)
          | Some ep \<Rightarrow>
             (case ep_ty ep of
                EP_VERSION \<Rightarrow> handle_version E p
              | EP_SECURITY \<Rightarrow>
                  (case sec c of
                     None \<Rightarrow> ret (- ENOSYS, None)
                   | Some v \<Rightarrow>
                      (case sec_handshake (vtable L v) of
                         None \<Rightarrow> ret (- ENOSYS, None)
                       | Some hs \<Rightarrow> do {
                           rx \<leftarrow> hs (sec_ctx c) inbuf;
                           upd_pc p (\<lambda>c. c\<lparr>sec_ctx := snd rx\<rparr>);
                           ret (fst rx) }))
              | EP_DATA \<Rightarrow>
                  (case sec c of
                     None \<Rightarrow> ret (- EACCES, None)
                   | Some v \<Rightarrow>
                      (if sec_ctx c = None then ret (- EACCES, None)
                       else handle_data E L p v ep inbuf)))))
     | _ \<Rightarrow> ret (- EINVAL, None))"

definition protocomm_endpoint_count ::
  "nat option \<Rightarrow> (('sec, 'ctx, 'h, 'p, 'z) pcst_scheme, nat) state" where
  "protocomm_endpoint_count pc =
    (case pc of None \<Rightarrow> ret 0 | Some p \<Rightarrow> with_pc p 0 (\<lambda>c. ret (length (endpoints c))))"

definition protocomm_endpoint_name ::
  "nat option \<Rightarrow> nat \<Rightarrow> (('sec, 'ctx, 'h, 'p, 'z) pcst_scheme, cstr) state" where
  "protocomm_endpoint_name pc idx =
    (case pc of None \<Rightarrow> ret None
     | Some p \<Rightarrow> with_pc p None (\<lambda>c.
         if idx \<ge> length (endpoints c) then ret None
         else ret (Some (ep_name (endpoints c ! idx)))))"

section \<open>Rules for the object store\<close>

lemma wp_with_pc [wp, simp]:
  "wp (with_pc p d f) Q s =
    (case pcs s p of None \<Rightarrow> Q d (s\<lparr>fault := True\<rparr>) | Some c \<Rightarrow> wp (f c) Q s)"
  by (simp add: with_pc_def wp split: option.split)

lemma wp_upd_pc [wp, simp]:
  "wp (upd_pc p f) Q s = Q () (s\<lparr>pcs := (pcs s)(p := map_option f (pcs s p))\<rparr>)"
  by (simp add: upd_pc_def wp)

section \<open>The endpoint registry\<close>

text \<open>Well-formedness of the table: names fit \<open>char name[16]\<close>, are distinct, and the table
  does not overflow.\<close>

definition registry_ok :: "('h, 'p) protocomm_ep list \<Rightarrow> bool" where
  "registry_ok es \<longleftrightarrow> distinct (map ep_name es) \<and> length es \<le> PROTOCOMM_MAX_ENDPOINTS \<and>
     (\<forall>e \<in> set es. length (ep_name e) < PROTOCOMM_EP_NAME_MAX)"

lemma registry_ok_Nil [simp]: "registry_ok []"
  by (simp add: registry_ok_def)

lemma find_ep_list_append:
  "find_ep_list (es @ fs) n = (case find_ep_list es n of None \<Rightarrow> find_ep_list fs n | Some e \<Rightarrow> Some e)"
  by (induction es) auto

lemma find_ep_list_None: "find_ep_list es n = None \<longleftrightarrow> n \<notin> ep_name ` set es"
  by (induction es) auto

lemma find_ep_list_Some: "find_ep_list es n = Some e \<Longrightarrow> e \<in> set es \<and> ep_name e = n"
  by (induction es) (auto split: if_splits)

lemma find_ep_list_nth:
  "distinct (map ep_name es) \<Longrightarrow> i < length es \<Longrightarrow> find_ep_list es (ep_name (es ! i)) = Some (es ! i)"
proof (induction es arbitrary: i)
  case (Cons e es)
  show ?case
  proof (cases i)
    case (Suc j)
    with Cons.prems have "j < length es" and "ep_name e \<noteq> ep_name (es ! j)" by (auto simp: image_iff)
    with Suc Cons show ?thesis by auto
  qed simp
qed simp

lemma find_ep_list_dom: "dom (find_ep_list es) = ep_name ` set es"
  unfolding dom_def by (simp only: find_ep_list_None not_not Collect_mem_eq)

lemma card_find_ep: "registry_ok (endpoints c) \<Longrightarrow> card (dom (find_ep c)) = length (endpoints c)"
proof -
  assume "registry_ok (endpoints c)"
  then have "distinct (map ep_name (endpoints c))" by (simp add: registry_ok_def)
  then have "card (set (map ep_name (endpoints c))) = length (endpoints c)"
    by (metis distinct_card length_map)
  then show ?thesis by (simp add: find_ep_def [abs_def] find_ep_list_dom)
qed

lemma registry_ok_snoc:
  "registry_ok es \<Longrightarrow> find_ep_list es (ep_name e) = None \<Longrightarrow> length es < PROTOCOMM_MAX_ENDPOINTS \<Longrightarrow>
    length (ep_name e) < PROTOCOMM_EP_NAME_MAX \<Longrightarrow> registry_ok (es @ [e])"
  by (auto simp: registry_ok_def find_ep_list_None)

text \<open>The registry as a finite map from names to endpoints: the abstract operation that
  \<open>add_ep\<close> implements.\<close>

definition registry_insert ::
  "(string \<rightharpoonup> ('h, 'p) protocomm_ep) \<Rightarrow> ('h, 'p) protocomm_ep \<Rightarrow>
    bool \<times> (string \<rightharpoonup> ('h, 'p) protocomm_ep)" where
  "registry_insert m e =
    (if length (ep_name e) < PROTOCOMM_EP_NAME_MAX \<and> ep_name e \<notin> dom m \<and>
        card (dom m) < PROTOCOMM_MAX_ENDPOINTS
     then (True, m(ep_name e \<mapsto> e)) else (False, m))"

lemma add_ep_run:
  assumes "pcs s p = Some c"
  shows "run_state (add_ep (Some p) (Some n) ty h pr) s =
    (if length n \<ge> PROTOCOMM_EP_NAME_MAX then (- ENAMETOOLONG, s)
     else if find_ep c n \<noteq> None then (- EALREADY, s)
     else if length (endpoints c) \<ge> PROTOCOMM_MAX_ENDPOINTS then (- ENOMEM, s)
     else (0, s\<lparr>pcs := (pcs s)(p \<mapsto> c\<lparr>endpoints := endpoints c @
       [\<lparr>ep_name = n, ep_ty = ty, ep_handler = h, ep_priv = pr\<rparr>]\<rparr>)\<rparr>))"
  using assms by (simp add: add_ep_def with_pc_def upd_pc_def strncpy_z_id)

lemma wp_add_ep:
  assumes "pcs s p = Some c"
  shows "wp (add_ep (Some p) (Some n) ty h pr) Q s =
    (if length n \<ge> PROTOCOMM_EP_NAME_MAX then Q (- ENAMETOOLONG) s
     else if find_ep c n \<noteq> None then Q (- EALREADY) s
     else if length (endpoints c) \<ge> PROTOCOMM_MAX_ENDPOINTS then Q (- ENOMEM) s
     else Q 0 (s\<lparr>pcs := (pcs s)(p \<mapsto> c\<lparr>endpoints := endpoints c @
       [\<lparr>ep_name = n, ep_ty = ty, ep_handler = h, ep_priv = pr\<rparr>]\<rparr>)\<rparr>))"
  using add_ep_run [OF assms] by (simp add: wp_def)

lemma add_ep_keeps_registry:
  assumes "pcs s p = Some c" and "registry_ok (endpoints c)"
  shows "wp (add_ep (Some p) (Some n) ty h pr)
    (\<lambda>r s'. \<exists>c'. pcs s' = (pcs s)(p \<mapsto> c') \<and> registry_ok (endpoints c') \<and>
       (r = 0, find_ep c') =
         registry_insert (find_ep c) \<lparr>ep_name = n, ep_ty = ty, ep_handler = h, ep_priv = pr\<rparr>) s"
proof -
  have dom: "card (dom (find_ep c)) = length (endpoints c)" using assms(2) by (rule card_find_ep)
  have ins: "find_ep (c\<lparr>endpoints := endpoints c @ [e]\<rparr>) = (find_ep c)(ep_name e \<mapsto> e)"
    if "find_ep c (ep_name e) = None" for e
    using that by (auto simp: find_ep_def find_ep_list_append fun_eq_iff split: option.splits)
  let ?e = "\<lparr>ep_name = n, ep_ty = ty, ep_handler = h, ep_priv = pr\<rparr>"
  show ?thesis
  proof (cases "length n < PROTOCOMM_EP_NAME_MAX \<and> find_ep c n = None \<and>
      length (endpoints c) < PROTOCOMM_MAX_ENDPOINTS")
    case True
    then have "registry_ok (endpoints c @ [?e])"
      using assms(2) by (intro registry_ok_snoc) (auto simp: find_ep_def)
    with True assms dom ins [of ?e] show ?thesis
      by (auto simp: wp_add_ep registry_insert_def domIff)
  next
    case False
    with assms dom show ?thesis
      by (auto simp: wp_add_ep registry_insert_def domIff intro!: exI [of _ c])
  qed
qed

section \<open>Interfaces: the security vtable and the linked program\<close>

definition same_objects ::
  "('sec, 'ctx, 'h, 'p, 'z) pcst_scheme \<Rightarrow> ('sec, 'ctx, 'h, 'p, 'z) pcst_scheme \<Rightarrow> bool" where
  "same_objects s s' \<longleftrightarrow> pcs s' = pcs s \<and> fault s' = fault s"

text \<open>A session context is reached through a \<open>void *\<close>: its signature \<open>sg x\<close> is the scheme whose
  struct it is and the number of heap blocks it owns.\<close>

type_synonym ('sec, 'ctx) signature = "'ctx \<Rightarrow> 'sec \<times> int"

definition ctx_owned :: "('sec, 'ctx) signature \<Rightarrow> 'ctx option \<Rightarrow> int" where
  "ctx_owned sg x = (case x of None \<Rightarrow> 0 | Some y \<Rightarrow> snd (sg y))"

definition ctx_typed :: "('sec, 'ctx) signature \<Rightarrow> 'sec \<Rightarrow> 'ctx option \<Rightarrow> bool" where
  "ctx_typed sg v x = (case x of None \<Rightarrow> True | Some y \<Rightarrow> fst (sg y) = v)"

definition pc_owned :: "('sec, 'ctx) signature \<Rightarrow> ('sec, 'ctx, 'h, 'p) protocomm \<Rightarrow> int" where
  "pc_owned sg c = 1 + ctx_owned sg (sec_ctx c)"

lemma ctx_simps [simp]:
  "ctx_owned sg None = 0" "ctx_owned sg (Some y) = snd (sg y)"
  "ctx_typed sg v None" "ctx_typed sg v (Some y) \<longleftrightarrow> fst (sg y) = v"
  by (simp_all add: ctx_owned_def ctx_typed_def)

lemma ctx_sig_cong:
  assumes "map_option sg y = map_option sg x"
  shows "ctx_owned sg y = ctx_owned sg x" "ctx_typed sg v y = ctx_typed sg v x"
    "y = None \<longleftrightarrow> x = None"
  using assms by (cases x; cases y; simp)+

text \<open>What protocomm relies on in a security scheme (\<open>struct protocomm_security\<close>, here the one
  named \<open>v\<close>): none of its functions touches a protocomm instance or dereferences a wrong
  object; \<open>init\<close> makes a context of this scheme exactly on success, which owns its heap blocks
  until \<open>cleanup\<close>; a handshake hands over one output block exactly on success; encryption and
  decryption keep the heap balanced.\<close>

locale security_vtable =
  fixes vt :: "('ctx, ('sec, 'ctx, 'h, 'p, 'z) pcst_scheme) protocomm_security"
    and v :: 'sec
    and sg :: "('sec, 'ctx) signature"
  assumes init_law: "\<exists>f. sec_init vt = Some f \<and> (\<forall>pp s. wp (f pp) (\<lambda>r s'. same_objects s s' \<and>
      (fst r = 0 \<longleftrightarrow> snd r \<noteq> None) \<and> ctx_typed sg v (snd r) \<and>
      blocks (hist s') = blocks (hist s) + ctx_owned sg (snd r)) s)"
    and cleanup_law: "\<exists>f. sec_cleanup vt = Some f \<and> (\<forall>x s. fst (sg x) = v \<longrightarrow>
      wp (f x) (\<lambda>_ s'. same_objects s s' \<and> blocks (hist s') = blocks (hist s) - snd (sg x)) s)"
    and handshake_law: "sec_handshake vt = Some g \<Longrightarrow> ctx_typed sg v x \<Longrightarrow>
      wp (g x b) (\<lambda>r s'. same_objects s s' \<and> out_contract (hist s) (fst r) (hist s') \<and>
      map_option sg (snd r) = map_option sg x) s"
    and encrypt_law: "ctx_typed sg v x \<Longrightarrow> wp (sec_encrypt vt x b) (\<lambda>r s'. same_objects s s' \<and>
      blocks (hist s') = blocks (hist s) \<and> map_option sg (snd r) = map_option sg x) s"
    and decrypt_law: "ctx_typed sg v x \<Longrightarrow> wp (sec_decrypt vt x b) (\<lambda>r s'. same_objects s s' \<and>
      blocks (hist s') = blocks (hist s) \<and> map_option sg (snd r) = map_option sg x) s"

text \<open>The invariant of an instance: its registry is well formed, every data endpoint has a
  handler, a version endpoint has its string, and a session context belongs to the configured
  scheme.\<close>

definition pc_inv :: "('sec, 'ctx) signature \<Rightarrow> ('sec, 'ctx, 'h, 'p) protocomm \<Rightarrow> bool" where
  "pc_inv sg c \<longleftrightarrow> registry_ok (endpoints c) \<and>
     (sec_ctx c \<noteq> None \<longrightarrow> (\<exists>v. sec c = Some v \<and> ctx_typed sg v (sec_ctx c))) \<and>
     (\<forall>e \<in> set (endpoints c). (ep_ty e = EP_DATA \<longrightarrow> ep_handler e \<noteq> None) \<and>
        (ep_ty e = EP_VERSION \<longrightarrow> version c \<noteq> None))"

lemma pc_inv_typed: "pc_inv sg c \<Longrightarrow> sec c = Some v \<Longrightarrow> ctx_typed sg v (sec_ctx c)"
  by (cases "sec_ctx c") (auto simp: pc_inv_def)

lemma pc_inv_ctx:
  "pc_inv sg c \<Longrightarrow> sec c = Some v \<Longrightarrow> ctx_typed sg v x \<Longrightarrow> pc_inv sg (c\<lparr>sec_ctx := x\<rparr>)"
  "pc_inv sg c \<Longrightarrow> pc_inv sg (c\<lparr>sec_ctx := None\<rparr>)"
  by (auto simp: pc_inv_def)

text \<open>A step that changes nothing of the instances but the contents of one session context.\<close>

definition ctx_step ::
  "('sec, 'ctx) signature \<Rightarrow> nat \<Rightarrow> ('sec, 'ctx, 'h, 'p, 'z) pcst_scheme \<Rightarrow>
    ('sec, 'ctx, 'h, 'p, 'z) pcst_scheme \<Rightarrow> bool" where
  "ctx_step sg p s s' \<longleftrightarrow> fault s' = fault s \<and>
     (\<exists>c y. pcs s p = Some c \<and> pcs s' = (pcs s)(p \<mapsto> c\<lparr>sec_ctx := y\<rparr>) \<and>
        map_option sg y = map_option sg (sec_ctx c))"

lemma same_objects_pcs: "same_objects s s' \<Longrightarrow> pcs s' = pcs s"
  by (simp add: same_objects_def)

lemma same_objects_refl [simp]: "same_objects s s"
  by (simp add: same_objects_def)

lemma same_objects_hist [simp]:
  "same_objects (s\<lparr>hist := h\<rparr>) s' = same_objects s s'"
  "same_objects s (s'\<lparr>hist := h\<rparr>) = same_objects s s'"
  by (simp_all add: same_objects_def)

lemma same_objects_only_hist: "only_hist s s' \<Longrightarrow> same_objects s s'"
  by (elim only_histE) simp

lemma ctx_step_hist [simp]:
  "ctx_step sg p (s\<lparr>hist := h\<rparr>) s' = ctx_step sg p s s'"
  "ctx_step sg p s (s'\<lparr>hist := h\<rparr>) = ctx_step sg p s s'"
  by (simp_all add: ctx_step_def)

lemma ctx_step_refl: "pcs s p = Some c \<Longrightarrow> pcs s' = pcs s \<Longrightarrow> fault s' = fault s \<Longrightarrow> ctx_step sg p s s'"
  unfolding ctx_step_def by (intro conjI exI [of _ c] exI [of _ "sec_ctx c"]) auto

lemma ctx_stepE:
  assumes "ctx_step sg p s s'"
  obtains c y where "pcs s p = Some c" "pcs s' = (pcs s)(p \<mapsto> c\<lparr>sec_ctx := y\<rparr>)"
    "map_option sg y = map_option sg (sec_ctx c)" "fault s' = fault s"
  using assms unfolding ctx_step_def by (elim conjE exE)

lemma ctx_step_same: "same_objects s s' \<Longrightarrow> pcs s p = Some c \<Longrightarrow> ctx_step sg p s s'"
  by (simp add: same_objects_def ctx_step_refl)

lemma ctx_step_sameD: "same_objects s s' \<Longrightarrow> ctx_step sg p s' u \<Longrightarrow> ctx_step sg p s u"
  by (simp add: same_objects_def ctx_step_def)

lemma ctx_step_trans:
  assumes "ctx_step sg p s s'" and "ctx_step sg p s' s''"
  shows "ctx_step sg p s s''"
proof -
  from assms(1) obtain c y where 1: "pcs s p = Some c" "pcs s' = (pcs s)(p \<mapsto> c\<lparr>sec_ctx := y\<rparr>)"
    "map_option sg y = map_option sg (sec_ctx c)" "fault s' = fault s"
    by (rule ctx_stepE)
  from assms(2) obtain d z where 2: "pcs s' p = Some d" "pcs s'' = (pcs s')(p \<mapsto> d\<lparr>sec_ctx := z\<rparr>)"
    "map_option sg z = map_option sg (sec_ctx d)" "fault s'' = fault s'"
    by (rule ctx_stepE)
  from 1(2) 2(1) have d: "d = c\<lparr>sec_ctx := y\<rparr>" by simp
  show ?thesis
    unfolding ctx_step_def using 1 2 by (intro conjI exI [of _ c] exI [of _ z]) (simp_all add: d)
qed

text \<open>An instance with its session context fit for the scheme \<open>v\<close>.\<close>

definition pc_ready ::
  "('sec, 'ctx) signature \<Rightarrow> 'sec \<Rightarrow> nat \<Rightarrow> ('sec, 'ctx, 'h, 'p, 'z) pcst_scheme \<Rightarrow> bool" where
  "pc_ready sg v p s \<longleftrightarrow> (\<exists>c. pcs s p = Some c \<and> ctx_typed sg v (sec_ctx c))"

lemma pc_ready_hist [simp]: "pc_ready sg v p (s\<lparr>hist := h\<rparr>) = pc_ready sg v p s"
  by (simp add: pc_ready_def)

lemma pc_ready_same: "same_objects s s' \<Longrightarrow> pc_ready sg v p s' = pc_ready sg v p s"
  by (simp add: pc_ready_def same_objects_def)

lemma pc_ready_step: "ctx_step sg p s s' \<Longrightarrow> pc_ready sg v p s \<Longrightarrow> pc_ready sg v p s'"
  by (erule ctx_stepE) (auto simp: pc_ready_def dest: ctx_sig_cong(2))

lemma pc_ready_refl: "pc_ready sg v p s \<Longrightarrow> ctx_step sg p s s"
  by (auto simp: pc_ready_def ctx_step_refl)

text \<open>The whole set of functions a protocomm instance calls. \<open>callable h pr\<close> says that the handler
  may be called with the private pointer \<open>pr\<close>; \<open>nonempty h\<close> holds of handlers that never answer with
  an allocated buffer of length 0.\<close>

locale protocomm_link =
  fixes L :: "('sec, 'ctx, 'h, 'p, ('sec, 'ctx, 'h, 'p, 'z) pcst_scheme) link"
    and sg :: "('sec, 'ctx) signature"
    and callable :: "'h \<Rightarrow> 'p option \<Rightarrow> bool"
    and nonempty :: "'h \<Rightarrow> bool"
  assumes vtables: "security_vtable (vtable L v) v sg"
    and handlers: "callable h pr \<Longrightarrow> wp (call_handler L h pr b) (\<lambda>r s'. same_objects s s' \<and>
      blocks (hist s') = blocks (hist s) + (if snd r = None then 0 else 1) \<and>
      (nonempty h \<longrightarrow> snd r \<noteq> Some [])) s"
begin

lemmas handshake_law = security_vtable.handshake_law [OF vtables]
lemmas encrypt_law = security_vtable.encrypt_law [OF vtables]
lemmas decrypt_law = security_vtable.decrypt_law [OF vtables]

lemma close_session_spec:
  assumes c: "pcs s p = Some c" and inv: "pc_inv sg c"
  shows "wp (protocomm_close_session L (Some p)) (\<lambda>_ s'.
    pcs s' = (pcs s)(p \<mapsto> c\<lparr>sec_ctx := None\<rparr>) \<and> fault s' = fault s \<and>
    blocks (hist s') = blocks (hist s) - ctx_owned sg (sec_ctx c)) s"
proof (cases "sec_ctx c")
  case None
  have "c\<lparr>sec_ctx := None\<rparr> = c" using None by simp
  with None c show ?thesis
    by (auto simp: protocomm_close_session_def ctx_owned_def split: option.split)
next
  case (Some x)
  with inv obtain v where v: "sec c = Some v" "fst (sg x) = v" by (auto simp: pc_inv_def)
  obtain f where f: "sec_cleanup (vtable L v) = Some f"
    and post: "wp (f x) (\<lambda>_ s'. same_objects s s' \<and> blocks (hist s') = blocks (hist s) - snd (sg x)) s"
    using security_vtable.cleanup_law [OF vtables, of v] v(2) by blast
  from post show ?thesis
    unfolding protocomm_close_session_def using c Some v f
    by (simp add: ctx_owned_def) (erule wp_mono, simp add: same_objects_def)
qed

lemma open_session_spec:
  assumes c: "pcs s p = Some c" and inv: "pc_inv sg c" and v: "sec c = Some v"
  shows "wp (protocomm_open_session L (Some p)) (\<lambda>_ s'. \<exists>y.
    pcs s' = (pcs s)(p \<mapsto> c\<lparr>sec_ctx := y\<rparr>) \<and> ctx_typed sg v y \<and> fault s' = fault s \<and>
    blocks (hist s') = blocks (hist s) - ctx_owned sg (sec_ctx c) + ctx_owned sg y) s"
proof -
  obtain f where f: "sec_init (vtable L v) = Some f"
    and post: "\<And>pp s. wp (f pp) (\<lambda>r s'. same_objects s s' \<and>
      (fst r = 0 \<longleftrightarrow> snd r \<noteq> None) \<and> ctx_typed sg v (snd r) \<and>
      blocks (hist s') = blocks (hist s) + ctx_owned sg (snd r)) s"
    using security_vtable.init_law [OF vtables, of v] by blast
  show ?thesis
    unfolding protocomm_open_session_def using c v f
    by simp
      (rule wp_mono [OF close_session_spec [OF c inv]], simp, rule wp_mono [OF post],
        auto simp: same_objects_def)
qed

lemma delete_spec:
  assumes c: "pcs s p = Some c" and inv: "pc_inv sg c"
  shows "wp (protocomm_delete L (Some p)) (\<lambda>_ s'. pcs s' = (pcs s)(p := None) \<and>
    fault s' = fault s \<and> blocks (hist s') = blocks (hist s) - pc_owned sg c) s"
  unfolding protocomm_delete_def
  by simp (rule wp_mono [OF close_session_spec [OF assms]], simp add: pc_owned_def)

lemma crypt_spec:
  assumes c: "pc_ready sg v p s"
    and law: "\<And>x b s. ctx_typed sg v x \<Longrightarrow> wp (g x b) (\<lambda>r s'. same_objects s s' \<and>
      blocks (hist s') = blocks (hist s) \<and> map_option sg (snd r) = map_option sg x) s"
  shows "wp (crypt p g b) (\<lambda>r s'. ctx_step sg p s s' \<and> blocks (hist s') = blocks (hist s)) s"
  using c unfolding crypt_def pc_ready_def
  by clarsimp (rule wp_mono [OF law], auto simp: same_objects_def ctx_step_def)

lemma decrypt_request_spec:
  assumes "pc_ready sg v p s"
  shows "wp (decrypt_request E (vtable L v) p b) (\<lambda>d s'. ctx_step sg p s s' \<and> d \<noteq> Inl 0 \<and>
     blocks (hist s') = blocks (hist s) +
       (case d of Inl _ \<Rightarrow> 0 | Inr None \<Rightarrow> 0 | Inr (Some _) \<Rightarrow> 1)) s"
  unfolding decrypt_request_def
  by (auto simp: assms pc_ready_refl [OF assms] intro!: wp_mono [OF crypt_spec [OF _ decrypt_law]])

lemma encrypt_response_spec:
  assumes "pc_ready sg v p s" and ne: "raw \<noteq> Some []"
  shows "wp (encrypt_response E (vtable L v) p raw) (\<lambda>r s'. ctx_step sg p s s' \<and>
     (fst r \<noteq> 0 \<longrightarrow> snd r = None) \<and>
     blocks (hist s') = blocks (hist s) + (if snd r = None then 0 else 1) -
       (if raw = None then 0 else 1)) s"
  unfolding encrypt_response_def using ne
  by (auto simp: assms(1) pc_ready_refl [OF assms(1)] intro!: wp_mono [OF crypt_spec [OF _ encrypt_law]]
      split: option.split)

lemma run_endpoint_spec:
  assumes p: "pc_ready sg v p s" and h: "ep_handler ep = Some h"
    and ne: "nonempty h" "callable h (ep_priv ep)"
  shows "wp (run_endpoint E L p v ep plain) (\<lambda>r s'. ctx_step sg p s s' \<and>
     (fst r \<noteq> 0 \<longrightarrow> snd r = None) \<and> blocks (hist s') = blocks (hist s) +
       (if snd r = None then 0 else 1) - (if plain = None then 0 else 1)) s"
proof -
  have same: "ctx_step sg p s s'" if "same_objects s s'" for s'
    using that p by (auto simp: pc_ready_def intro: ctx_step_same)
  show ?thesis
    unfolding run_endpoint_def h using ne
    by (auto intro!: wp_mono [OF handlers] wp_mono [OF encrypt_response_spec]
        simp: pc_ready_same p same split: option.split)
      (erule (1) ctx_step_sameD)+
qed

lemma handle_data_spec:
  assumes p: "pc_ready sg v p s" and h: "ep_handler ep = Some h"
    and ne: "nonempty h" "callable h (ep_priv ep)"
  shows "wp (handle_data E L p v ep b) (\<lambda>r s'. ctx_step sg p s s' \<and>
     (fst r \<noteq> 0 \<longrightarrow> snd r = None) \<and>
     blocks (hist s') = blocks (hist s) + (if snd r = None then 0 else 1)) s"
proof -
  have "wp (case d of Inl e \<Rightarrow> ret (e, None) | Inr plain \<Rightarrow> run_endpoint E L p v ep plain)
     (\<lambda>r s'. ctx_step sg p s s' \<and> (fst r \<noteq> 0 \<longrightarrow> snd r = None) \<and>
        blocks (hist s') = blocks (hist s) + (if snd r = None then 0 else 1)) s1"
    if 1: "ctx_step sg p s s1" "blocks (hist s1) = blocks (hist s) +
       (case d of Inl _ \<Rightarrow> 0 | Inr None \<Rightarrow> 0 | Inr (Some _) \<Rightarrow> 1)" for d s1
  proof (cases d)
    case (Inr plain)
    have "wp (run_endpoint E L p v ep plain) (\<lambda>r s'. ctx_step sg p s1 s' \<and>
     (fst r \<noteq> 0 \<longrightarrow> snd r = None) \<and> blocks (hist s') = blocks (hist s1) +
       (if snd r = None then 0 else 1) - (if plain = None then 0 else 1)) s1"
      using pc_ready_step [OF 1(1) p] h ne by (rule run_endpoint_spec)
    then show ?thesis
      unfolding Inr sum.case
      by (rule wp_mono) (use 1 Inr in \<open>auto dest: ctx_step_trans split: option.splits\<close>)
  qed (use 1 in simp)
  then show ?thesis
    unfolding handle_data_def wp_bind
    by (intro wp_mono [OF decrypt_request_spec [OF p]]) simp
qed

text \<open>Every request, on every endpoint and every path, keeps the instance, leaks nothing and
  hands over an output buffer only on success.\<close>

lemma req_handle_spec:
  assumes c: "pcs s p = Some c" and inv: "pc_inv sg c"
    and ne: "\<And>ep h. ep \<in> set (endpoints c) \<Longrightarrow> ep_handler ep = Some h \<Longrightarrow> nonempty h \<and> callable h (ep_priv ep)"
  shows "wp (protocomm_req_handle E L (Some p) (Some n) b) (\<lambda>r s'. ctx_step sg p s s' \<and>
     (fst r \<noteq> 0 \<longrightarrow> snd r = None) \<and>
     blocks (hist s') = blocks (hist s) + (if snd r = None then 0 else 1)) s" (is "wp _ ?Q s")
proof (cases "find_ep c n")
  case None
  with c show ?thesis by (simp add: protocomm_req_handle_def ctx_step_refl [OF c])
next
  case (Some ep)
  then have ep: "ep \<in> set (endpoints c)" by (auto simp: find_ep_def dest: find_ep_list_Some)
  have req: "wp (protocomm_req_handle E L (Some p) (Some n) b) Q s =
    wp (case ep_ty ep of EP_VERSION \<Rightarrow> handle_version E p
       | EP_SECURITY \<Rightarrow> (case sec c of None \<Rightarrow> ret (- ENOSYS, None)
          | Some v \<Rightarrow> (case sec_handshake (vtable L v) of None \<Rightarrow> ret (- ENOSYS, None)
             | Some hs \<Rightarrow> do { rx \<leftarrow> hs (sec_ctx c) b;
                 upd_pc p (\<lambda>c. c\<lparr>sec_ctx := snd rx\<rparr>); ret (fst rx) }))
       | EP_DATA \<Rightarrow> (case sec c of None \<Rightarrow> ret (- EACCES, None)
          | Some v \<Rightarrow> (if sec_ctx c = None then ret (- EACCES, None)
              else handle_data E L p v ep b))) Q s" for Q
    using c Some by (simp add: protocomm_req_handle_def)
  have ready: "pc_ready sg v p s" if "sec c = Some v" for v
    using that pc_inv_typed [OF inv] c by (simp add: pc_ready_def)
  show ?thesis
  proof (cases "ep_ty ep")
    case EP_VERSION
    with inv ep c show ?thesis
      by (auto simp: req handle_version_def pc_inv_def ctx_step_refl [OF c] split: option.split)
  next
    case EP_SECURITY
    show ?thesis
      unfolding req EP_SECURITY using c
      by (auto simp: ctx_step_refl [OF c] pc_inv_typed [OF inv] split: option.split
          intro!: wp_mono [OF handshake_law])
        (auto simp: same_objects_def out_contract_def ctx_step_def)
  next
    case EP_DATA
    with inv ep obtain h where h: "ep_handler ep = Some h" by (auto simp: pc_inv_def)
    show ?thesis
      unfolding req EP_DATA using c h ne [OF ep h]
      by (auto simp: ctx_step_refl [OF c] ready split: option.split intro!: handle_data_spec)
  qed
qed

end

section \<open>Properties\<close>

text \<open>C14. The endpoint table implements a bounded map from names to endpoints: on a
  well-formed table, adding an endpoint returns 0 exactly when the name fits 15 characters, is
  new and fewer than 8 endpoints are registered; then exactly this binding is added to what
  \<open>find_ep\<close> finds, and otherwise nothing changes. The table stays well formed (distinct names,
  at most 8 entries, every name shorter than its array).\<close>

theorem add_ep_refines_registry:
  assumes "pcs s p = Some c" and "registry_ok (endpoints c)"
  shows "wp (add_ep (Some p) (Some n) ty h pr)
    (\<lambda>r s'. \<exists>c'. pcs s' = (pcs s)(p \<mapsto> c') \<and> registry_ok (endpoints c') \<and>
       (r = 0, find_ep c') =
         registry_insert (find_ep c) \<lparr>ep_name = n, ep_ty = ty, ep_handler = h, ep_priv = pr\<rparr>) s"
  using assms by (rule add_ep_keeps_registry)

definition demo_st :: "(unit, unit, unit, unit) protocomm \<Rightarrow> (unit, unit, unit, unit) pcst" where
  "demo_st c = \<lparr>hist = [], fault = False, pcs = [0 \<mapsto> c]\<rparr>"

theorem add_ep_refines_registry_witness:
  "wp (add_ep (Some 0) (Some ''ep'') EP_DATA (Some ()) None)
    (\<lambda>r s'. \<exists>c'. pcs s' = (pcs (demo_st empty_protocomm))(0 \<mapsto> c') \<and> registry_ok (endpoints c') \<and>
       (r = 0, find_ep c') = registry_insert (find_ep (empty_protocomm :: (unit, unit, unit, unit) protocomm))
          \<lparr>ep_name = ''ep'', ep_ty = EP_DATA, ep_handler = Some (), ep_priv = None\<rparr>)
    (demo_st empty_protocomm)"
  by (rule add_ep_refines_registry) (simp_all add: demo_st_def empty_protocomm_def)

text \<open>A request on a data endpoint while no security scheme is set or no session is open is
  refused with \<open>-EACCES\<close>, without an output buffer and without any effect: the state, including
  the history of external calls, is unchanged.\<close>

lemma data_request_needs_session:
  assumes "pcs s p = Some c" and "find_ep c n = Some ep" and "ep_ty ep = EP_DATA"
    and "sec c = None \<or> sec_ctx c = None"
  shows "run_state (protocomm_req_handle E L (Some p) (Some n) b) s = ((- EACCES, None), s)"
  using assms by (auto simp: protocomm_req_handle_def with_pc_def split: option.split)

definition demo_pc :: "(unit, unit, unit, unit) protocomm" where
  "demo_pc = empty_protocomm\<lparr>endpoints :=
     [\<lparr>ep_name = ''ep'', ep_ty = EP_DATA, ep_handler = Some (), ep_priv = None\<rparr>]\<rparr>"

definition demo_link :: "(unit, unit, unit, unit, (unit, unit, unit, unit) pcst) link" where
  "demo_link = \<lparr>vtable = (\<lambda>_. \<lparr>sec_version = 0, sec_init = None, sec_cleanup = None,
       sec_handshake = None, sec_encrypt = (\<lambda>x b. ret ((0, b), x)),
       sec_decrypt = (\<lambda>x b. ret ((0, b), x))\<rparr>),
     call_handler = (\<lambda>_ _ b. ret (0, None))\<rparr>"

theorem data_request_needs_session_witness:
  "run_state (protocomm_req_handle ok_env demo_link (Some 0) (Some ''ep'') [1, 2])
     (demo_st demo_pc) = ((- EACCES, None), demo_st demo_pc)"
  by (rule data_request_needs_session [where c = demo_pc and
        ep = "\<lparr>ep_name = ''ep'', ep_ty = EP_DATA, ep_handler = Some (), ep_priv = None\<rparr>"])
    (simp_all add: demo_st_def demo_pc_def empty_protocomm_def find_ep_def)

end
