(* ===== verification/Security0.thy ===== *)
theory Security0
  imports Protocomm
begin

text \<open>
  \<^verbatim>\<open>src/src/security0.c\<close>: the scheme without encryption, and the types that both schemes
  share: the names of the two vtables (\<^verbatim>\<open>security.h\<close>) and the objects a session context
  pointer (\<open>void *\<close>) can point to.
\<close>

section \<open>Session contexts\<close>

abbreviation (input) PUBKEY_LEN :: nat where "PUBKEY_LEN \<equiv> 32"
abbreviation (input) RANDOM_LEN :: nat where "RANDOM_LEN \<equiv> 16"
abbreviation (input) SESSION_KEY_LEN :: nat where "SESSION_KEY_LEN \<equiv> 32"
abbreviation (input) POP_MAX :: nat where "POP_MAX \<equiv> 64"

datatype sec1_state = SEC1_INIT | SEC1_CMD0_DONE | SEC1_DONE

text \<open>\<open>struct sec1_ctx\<close> of security1.c; \<open>PSA_KEY_ID_NULL\<close> is 0.\<close>

record sec1_ctx =
  s1_state :: sec1_state
  s1_pop :: bytes
  s1_pop_len :: nat
  device_key :: nat
  device_pubkey :: bytes
  client_pubkey :: bytes
  device_random :: bytes
  session_key :: nat
  cipher :: psa_cipher_operation

datatype session_ctx = Sec0_sentinel | Sec1_object sec1_ctx

datatype security_ref = network_prov_security0 | network_prov_security1

fun ctx_sig :: "session_ctx \<Rightarrow> security_ref \<times> int" where
  "ctx_sig Sec0_sentinel = (network_prov_security0, 0)"
| "ctx_sig (Sec1_object x) = (network_prov_security1, 1)"

lemma ctx_sig_iff:
  "fst (ctx_sig x) = network_prov_security0 \<longleftrightarrow> x = Sec0_sentinel"
  "fst (ctx_sig x) = network_prov_security1 \<longleftrightarrow> (\<exists>c. x = Sec1_object c)"
  by (cases x; simp)+

section \<open>Operations of scheme 0\<close>

definition sec0_init :: "cstr \<Rightarrow> ('w, int \<times> session_ctx option) state" where
  "sec0_init pp = ret (0, Some Sec0_sentinel)"

definition sec0_cleanup :: "session_ctx \<Rightarrow> ('w, unit) state" where
  "sec0_cleanup x = ret ()"

definition sec0_handshake ::
  "env \<Rightarrow> session_ctx option \<Rightarrow> bytes \<Rightarrow>
    ('z kst_scheme, (int \<times> bytes option) \<times> session_ctx option) state" where
  "sec0_handshake E ctx inbuf =
    (case pb_decode (SessionData_codec (nanopb E)) inbuf of
       None \<Rightarrow> ret ((- EINVAL, None), ctx)
     | Some req \<Rightarrow>
        if sec_ver req \<noteq> SecScheme0 then ret ((- EINVAL, None), ctx)
        else do {
          r \<leftarrow> network_prov_pb_encode E (SessionData_codec (nanopb E))
            \<lparr>sec_ver = SecScheme0, session_proto = Proto_sec0
               \<lparr>sec0_msg = S0_Session_Response, sec0_payload = Sec0_sr Status_Success\<rparr>\<rparr>;
          ret (r, ctx) })"

definition sec0_passthrough ::
  "session_ctx option \<Rightarrow> bytes \<Rightarrow> ('w, (int \<times> bytes) \<times> session_ctx option) state" where
  "sec0_passthrough ctx inbuf = ret ((0, inbuf), ctx)"

definition security0_vtable :: "env \<Rightarrow> (session_ctx, 'z kst_scheme) protocomm_security" where
  "security0_vtable E = \<lparr>sec_version = 0, sec_init = Some sec0_init,
     sec_cleanup = Some sec0_cleanup, sec_handshake = Some (sec0_handshake E),
     sec_encrypt = sec0_passthrough, sec_decrypt = sec0_passthrough\<rparr>"

section \<open>Scheme 0 meets the contract of a security scheme\<close>

lemma sec0_handshake_spec:
  "wp (sec0_handshake E x b) (\<lambda>r s'. same_objects s s' \<and>
     out_contract (hist s) (fst r) (hist s') \<and> snd r = x) s"
  unfolding sec0_handshake_def
  by (auto split: option.split intro!: wp_pb_encode simp: pb_post_def)
    (simp_all add: out_contract_def)

interpretation sec0: security_vtable "security0_vtable E" network_prov_security0 ctx_sig for E
  by unfold_locales
    (auto simp: security0_vtable_def sec0_init_def sec0_cleanup_def sec0_passthrough_def
        ctx_sig_iff intro!: wp_mono [OF sec0_handshake_spec])

end
