(* ===== verification/Security1.thy ===== *)
theory Security1
  imports Security0
begin

text \<open>
  \<^verbatim>\<open>src/src/security1.c\<close>: X25519 key agreement, an optional proof of possession mixed into
  the session key, and AES-256-CTR. PSA Crypto is a parameter; a cipher operation is the list of
  calls made on it. The functions that receive the context pointer return the context they
  leave behind, on the error paths too.
\<close>

section \<open>Operations\<close>

definition sec1_zero :: sec1_ctx where
  "sec1_zero = \<lparr>s1_state = SEC1_INIT, s1_pop = zeros POP_MAX, s1_pop_len = 0, device_key = 0,
     device_pubkey = zeros PUBKEY_LEN, client_pubkey = zeros PUBKEY_LEN,
     device_random = zeros RANDOM_LEN, session_key = 0, cipher = []\<rparr>"

text \<open>The copy of the proof of possession into \<open>ctx->pop\<close>.\<close>

definition sec1_store_pop :: "cstr \<Rightarrow> sec1_ctx \<Rightarrow> sec1_ctx" where
  "sec1_store_pop pp ctx =
    (case pp of None \<Rightarrow> ctx
     | Some p \<Rightarrow> if p = [] then ctx
         else let n = min (length p) (POP_MAX - 1) in
           ctx\<lparr>s1_pop_len := n, s1_pop := memcpy (s1_pop ctx) (take n (bytes_of_string p))\<rparr>)"

definition sec1_init :: "env \<Rightarrow> cstr \<Rightarrow> ('z kst_scheme, int \<times> session_ctx option) state" where
  "sec1_init E pp = do {
     st \<leftarrow> ask (psa_crypto_init_ret (psa E)) (\<lambda>_. Psa Psa_crypto_init);
     if st \<noteq> 0 then ret (- EIO, None)
     else do {
       ok \<leftarrow> k_malloc E (sizeof_sec1_ctx (cfg E));
       if \<not> ok then ret (- ENOMEM, None)
       else do {
         let ctx = sec1_store_pop pp sec1_zero;
         gk \<leftarrow> ask (psa_generate_key (psa E))
           (\<lambda>g. Psa (Psa_generate_key (if fst g = 0 then Some (snd g) else None)));
         if fst gk \<noteq> 0 then do { k_free (Some ctx); ret (- EIO, None) }
         else do {
           ex \<leftarrow> ask (\<lambda>h. psa_export_public_key (psa E) h (snd gk))
             (\<lambda>_. Psa (Psa_export_public_key (snd gk)));
           if fst ex \<noteq> 0 \<or> length (snd ex) \<noteq> PUBKEY_LEN
           then do {
             ext_call (Psa (Psa_destroy_key (snd gk)));
             k_free (Some ctx);
             ret (- EIO, None) }
           else ret (0, Some (Sec1_object
             (ctx\<lparr>device_key := snd gk, device_pubkey := memcpy (device_pubkey ctx) (snd ex)\<rparr>))) } } } }"

text \<open>A dereference of the context as \<open>struct sec1_ctx\<close>.\<close>

definition as_sec1 ::
  "session_ctx \<Rightarrow> 'a \<Rightarrow> (sec1_ctx \<Rightarrow> ('z kst_scheme, 'a) state) \<Rightarrow> ('z kst_scheme, 'a) state" where
  "as_sec1 x d f = (case x of Sec1_object c \<Rightarrow> f c | Sec0_sentinel \<Rightarrow> do { set_fault; ret d })"

text \<open>The context is wiped before it is freed; with the free the object no longer exists here, and the wipe is not a
  step of its own.\<close>

definition sec1_cleanup :: "session_ctx \<Rightarrow> ('z kst_scheme, unit) state" where
  "sec1_cleanup x = as_sec1 x () (\<lambda>ctx. do {
     ext_call (Psa Psa_cipher_abort);
     if_do (session_key ctx \<noteq> 0) (ext_call (Psa (Psa_destroy_key (session_key ctx))));
     if_do (device_key ctx \<noteq> 0) (ext_call (Psa (Psa_destroy_key (device_key ctx))));
     k_free (Some ctx) })"

definition arm_cipher :: "env \<Rightarrow> sec1_ctx \<Rightarrow> ('z kst_scheme, int \<times> sec1_ctx) state" where
  "arm_cipher E ctx = do {
     st \<leftarrow> ask (\<lambda>h. psa_cipher_encrypt_setup (psa E) h (session_key ctx))
       (\<lambda>_. Psa (Psa_cipher_encrypt_setup (session_key ctx)));
     let ctx = ctx\<lparr>cipher := op_call st (Cipher_setup (session_key ctx)) (cipher ctx)\<rparr>;
     if st \<noteq> 0 then ret (- EIO, ctx)
     else do {
       st2 \<leftarrow> ask (\<lambda>h. psa_cipher_set_iv (psa E) h (cipher ctx) (device_random ctx))
         (\<lambda>_. Psa (Psa_cipher_set_iv (device_random ctx)));
       let ctx = ctx\<lparr>cipher := op_call st2 (Cipher_set_iv (device_random ctx)) (cipher ctx)\<rparr>;
       if st2 \<noteq> 0 then ret (- EIO, ctx) else ret (0, ctx) } }"

text \<open>The key material: the shared secret, mixed with the hash of the proof of possession.\<close>

definition mix_pop :: "env \<Rightarrow> sec1_ctx \<Rightarrow> bytes \<Rightarrow> ('z kst_scheme, bytes option) state" where
  "mix_pop E ctx shared =
    (if s1_pop_len ctx > 0
     then do {
       hh \<leftarrow> ask (\<lambda>h. psa_hash_compute (psa E) h (take (s1_pop_len ctx) (s1_pop ctx)))
         (\<lambda>_. Psa (Psa_hash_compute (take (s1_pop_len ctx) (s1_pop ctx))));
       if fst hh \<noteq> 0 \<or> length (snd hh) \<noteq> SESSION_KEY_LEN then ret None
       else ret (Some (xor_bytes shared (snd hh))) }
     else ret (Some shared))"

definition import_session_key :: "env \<Rightarrow> sec1_ctx \<Rightarrow> bytes \<Rightarrow> ('z kst_scheme, int \<times> sec1_ctx) state" where
  "import_session_key E ctx key = do {
     ik \<leftarrow> ask (\<lambda>h. psa_import_key (psa E) h key)
       (\<lambda>g. Psa (Psa_import_key key (if fst g = 0 then Some (snd g) else None)));
     let ctx = ctx\<lparr>session_key := snd ik\<rparr>;
     if fst ik \<noteq> 0 then ret (- EIO, ctx)
     else arm_cipher E (ctx\<lparr>cipher := []\<rparr>) }"

definition derive_session_key :: "env \<Rightarrow> sec1_ctx \<Rightarrow> ('z kst_scheme, int \<times> sec1_ctx) state" where
  "derive_session_key E ctx = do {
     ka \<leftarrow> ask (\<lambda>h. psa_raw_key_agreement (psa E) h (device_key ctx) (client_pubkey ctx))
       (\<lambda>_. Psa (Psa_raw_key_agreement (device_key ctx) (client_pubkey ctx)));
     if fst ka \<noteq> 0 \<or> length (snd ka) \<noteq> SESSION_KEY_LEN then ret (- EIO, ctx)
     else do {
       km \<leftarrow> mix_pop E ctx (snd ka);
       (case km of
          None \<Rightarrow> ret (- EIO, ctx)
        | Some key \<Rightarrow> import_session_key E ctx key) } }"

definition ctr_xform :: "env \<Rightarrow> sec1_ctx \<Rightarrow> bytes \<Rightarrow> ('z kst_scheme, (int \<times> bytes) \<times> sec1_ctx) state" where
  "ctr_xform E ctx inbuf = do {
     up \<leftarrow> ask (\<lambda>h. psa_cipher_update (psa E) h (cipher ctx) inbuf) (\<lambda>_. Psa (Psa_cipher_update inbuf));
     let ctx = ctx\<lparr>cipher := op_call (fst up) (Cipher_update (length inbuf)) (cipher ctx)\<rparr>;
     if fst up \<noteq> 0 then ret ((- EIO, []), ctx) else ret ((0, snd up), ctx) }"

definition build_resp0 :: "env \<Rightarrow> sec1_ctx \<Rightarrow> ('z kst_scheme, int \<times> bytes option) state" where
  "build_resp0 E ctx = network_prov_pb_encode E (SessionData_codec (nanopb E))
     \<lparr>sec_ver = SecScheme1, session_proto = Proto_sec1
        \<lparr>sec1_msg = Session_Response0,
         sec1_payload = Sec1_sr0 Status_Success (device_pubkey ctx) (device_random ctx)\<rparr>\<rparr>"

definition build_resp1 :: "env \<Rightarrow> bytes \<Rightarrow> ('z kst_scheme, int \<times> bytes option) state" where
  "build_resp1 E device_verify = network_prov_pb_encode E (SessionData_codec (nanopb E))
     \<lparr>sec_ver = SecScheme1, session_proto = Proto_sec1
        \<lparr>sec1_msg = Session_Response1, sec1_payload = Sec1_sr1 Status_Success device_verify\<rparr>\<rparr>"

text \<open>The handlers read \<open>p->payload.sc0\<close> and \<open>p->payload.sc1\<close> by \<open>p->msg\<close> alone, whichever
  union member the decoder filled.\<close>

definition sc0_client_pubkey :: "env \<Rightarrow> Sec1Payload \<Rightarrow> bytes" where
  "sc0_client_pubkey E p = (case sec1_payload p of Sec1_sc0 k \<Rightarrow> k | u \<Rightarrow> pun_sc0 (nanopb E) u)"

definition sc1_client_verify_data :: "env \<Rightarrow> Sec1Payload \<Rightarrow> bytes" where
  "sc1_client_verify_data E p = (case sec1_payload p of Sec1_sc1 k \<Rightarrow> k | u \<Rightarrow> pun_sc1 (nanopb E) u)"

definition handle_cmd0 ::
  "env \<Rightarrow> sec1_ctx \<Rightarrow> Sec1Payload \<Rightarrow> ('z kst_scheme, (int \<times> bytes option) \<times> sec1_ctx) state" where
  "handle_cmd0 E ctx p =
    (if length (sc0_client_pubkey E p) \<noteq> PUBKEY_LEN then ret ((- EINVAL, None), ctx)
     else do {
       let ctx = ctx\<lparr>client_pubkey := memcpy (client_pubkey ctx) (sc0_client_pubkey E p)\<rparr>;
       rn \<leftarrow> ask (\<lambda>h. psa_generate_random (psa E) h RANDOM_LEN) (\<lambda>_. Psa (Psa_generate_random RANDOM_LEN));
       let ctx = ctx\<lparr>device_random := memcpy (device_random ctx) (snd rn)\<rparr>;
       if fst rn \<noteq> 0 then ret ((- EIO, None), ctx)
       else do {
         dk \<leftarrow> derive_session_key E ctx;
         if fst dk \<noteq> 0 then ret ((fst dk, None), snd dk)
         else do {
           let ctx = (snd dk)\<lparr>s1_state := SEC1_CMD0_DONE\<rparr>;
           r \<leftarrow> build_resp0 E ctx;
           ret (r, ctx) } } })"

definition handle_cmd1 ::
  "env \<Rightarrow> sec1_ctx \<Rightarrow> Sec1Payload \<Rightarrow> ('z kst_scheme, (int \<times> bytes option) \<times> sec1_ctx) state" where
  "handle_cmd1 E ctx p =
    (if s1_state ctx \<noteq> SEC1_CMD0_DONE then ret ((- EACCES, None), ctx)
     else if length (sc1_client_verify_data E p) \<noteq> PUBKEY_LEN then ret ((- EINVAL, None), ctx)
     else do {
       ck \<leftarrow> ctr_xform E ctx (sc1_client_verify_data E p);
       let ctx = snd ck;
       if fst (fst ck) \<noteq> 0 then ret ((fst (fst ck), None), ctx)
       else if length (snd (fst ck)) \<noteq> PUBKEY_LEN \<or> snd (fst ck) \<noteq> device_pubkey ctx
       then ret ((- EACCES, None), ctx)
       else do {
         garbage \<leftarrow> gets (\<lambda>s. uninit (kern E) (hist s) PUBKEY_LEN);
         dv \<leftarrow> ctr_xform E ctx (client_pubkey ctx);
         let ctx = snd dv;
         if fst (fst dv) \<noteq> 0 then ret ((fst (fst dv), None), ctx)
         else do {
           let ctx = ctx\<lparr>s1_state := SEC1_DONE\<rparr>;
           r \<leftarrow> build_resp1 E (memcpy garbage (snd (fst dv)));
           ret (r, ctx) } } })"

definition sec1_dispatch ::
  "env \<Rightarrow> sec1_ctx \<Rightarrow> bytes \<Rightarrow> ('z kst_scheme, (int \<times> bytes option) \<times> sec1_ctx) state" where
  "sec1_dispatch E ctx inbuf =
    (case pb_decode (SessionData_codec (nanopb E)) inbuf of
       None \<Rightarrow> ret ((- EINVAL, None), ctx)
     | Some req \<Rightarrow>
       (case (sec_ver req, session_proto req) of
          (SecScheme1, Proto_sec1 p) \<Rightarrow>
            (case sec1_msg p of
               Session_Command0 \<Rightarrow> handle_cmd0 E ctx p
             | Session_Command1 \<Rightarrow> handle_cmd1 E ctx p
             | _ \<Rightarrow> ret ((- EINVAL, None), ctx))
        | _ \<Rightarrow> ret ((- EINVAL, None), ctx)))"

definition sec1_handshake ::
  "env \<Rightarrow> session_ctx option \<Rightarrow> bytes \<Rightarrow>
    ('z kst_scheme, (int \<times> bytes option) \<times> session_ctx option) state" where
  "sec1_handshake E x inbuf =
    (case x of
       None \<Rightarrow> ret ((- EINVAL, None), None)
     | Some y \<Rightarrow> as_sec1 y ((0, None), x) (\<lambda>ctx. do {
         r \<leftarrow> sec1_dispatch E ctx inbuf;
         ret (fst r, Some (Sec1_object (snd r))) }))"

definition sec1_encrypt ::
  "env \<Rightarrow> session_ctx option \<Rightarrow> bytes \<Rightarrow> ('z kst_scheme, (int \<times> bytes) \<times> session_ctx option) state" where
  "sec1_encrypt E x inbuf =
    (case x of
       None \<Rightarrow> ret ((- EACCES, []), None)
     | Some y \<Rightarrow> as_sec1 y ((0, []), x) (\<lambda>ctx.
         if s1_state ctx \<noteq> SEC1_DONE then ret ((- EACCES, []), x)
         else do {
           r \<leftarrow> ctr_xform E ctx inbuf;
           ret (fst r, Some (Sec1_object (snd r))) }))"

definition security1_vtable :: "env \<Rightarrow> (session_ctx, 'z kst_scheme) protocomm_security" where
  "security1_vtable E = \<lparr>sec_version = 1, sec_init = Some (sec1_init E),
     sec_cleanup = Some sec1_cleanup, sec_handshake = Some (sec1_handshake E),
     sec_encrypt = sec1_encrypt E, sec_decrypt = sec1_encrypt E\<rparr>"

section \<open>Scheme 1 meets the contract of a security scheme\<close>

text \<open>A step that only talks to PSA: the heap and every object are as before.\<close>

definition psa_only :: "'z kst_scheme \<Rightarrow> 'z kst_scheme \<Rightarrow> bool" where
  "psa_only s s' \<longleftrightarrow> only_hist s s' \<and> blocks (hist s') = blocks (hist s)"

lemma ctr_xform_run:
  "run_state (ctr_xform E c b) s =
    (let u = psa_cipher_update (psa E) (hist s) (cipher c) b in
     ((if fst u \<noteq> 0 then (- EIO, []) else (0, snd u), c\<lparr>cipher := op_call (fst u) (Cipher_update (length b)) (cipher c)\<rparr>),
      s\<lparr>hist := Psa (Psa_cipher_update b) # hist s\<rparr>))"
  by (simp add: ctr_xform_def ask_def ext_call_def Let_def)

lemma wp_ctr_xform [wp, simp]:
  "wp (ctr_xform E c b) Q s =
     Q (if fst (psa_cipher_update (psa E) (hist s) (cipher c) b) \<noteq> 0 then (- EIO, [])
        else (0, snd (psa_cipher_update (psa E) (hist s) (cipher c) b)),
        c\<lparr>cipher := op_call (fst (psa_cipher_update (psa E) (hist s) (cipher c) b))
          (Cipher_update (length b)) (cipher c)\<rparr>)
       (s\<lparr>hist := Psa (Psa_cipher_update b) # hist s\<rparr>)"
  by (simp add: wp_def ctr_xform_run Let_def)

lemma derive_session_key_frame:
  "wp (derive_session_key E c) (\<lambda>r s'. psa_only s s' \<and>
     (fst r = 0 \<or> fst r = - EIO) \<and> s1_state (snd r) = s1_state c \<and>
     client_pubkey (snd r) = client_pubkey c \<and> device_pubkey (snd r) = device_pubkey c \<and>
     device_random (snd r) = device_random c \<and> device_key (snd r) = device_key c) s"
  by (auto simp: psa_only_def derive_session_key_def import_session_key_def mix_pop_def
      arm_cipher_def Let_def)

lemma build_resp_spec:
  "wp (build_resp0 E c) (\<lambda>r s'. only_hist s s' \<and> out_contract (hist s) r (hist s')) s"
  "wp (build_resp1 E v) (\<lambda>r s'. only_hist s s' \<and> out_contract (hist s) r (hist s')) s"
  unfolding build_resp0_def build_resp1_def
  by (rule wp_mono [OF pb_encode_spec], auto dest: pb_post_contract)+

text \<open>What one handshake message does to the heap and the state of the session. \<open>verified\<close>
  is the only way into \<open>SEC1_DONE\<close>.\<close>

lemma handle_cmd0_spec:
  "wp (handle_cmd0 E c p) (\<lambda>r s'. only_hist s s' \<and> out_contract (hist s) (fst r) (hist s') \<and>
     (s1_state (snd r) = SEC1_DONE \<longrightarrow> s1_state c = SEC1_DONE)) s"
  unfolding handle_cmd0_def Let_def
  by (auto intro!: wp_mono [OF derive_session_key_frame] wp_mono [OF build_resp_spec(1)]
      simp: psa_only_def out_contract_def)
    (blast intro: only_hist_trans)+

lemma handle_cmd1_spec:
  "wp (handle_cmd1 E c p) (\<lambda>r s'. only_hist s s' \<and> out_contract (hist s) (fst r) (hist s') \<and>
     (s1_state (snd r) = SEC1_DONE \<longrightarrow> s1_state c = SEC1_CMD0_DONE \<and>
       length (sc1_client_verify_data E p) = PUBKEY_LEN \<and>
       psa_cipher_update (psa E) (hist s) (cipher c) (sc1_client_verify_data E p) = (0, device_pubkey c)
       \<or> s1_state c = SEC1_DONE)) s"
  unfolding handle_cmd1_def Let_def
  by (auto intro!: wp_mono [OF build_resp_spec(2)] simp: out_contract_def prod_eq_iff
      elim: only_hist_trans)

text \<open>The request is a Cmd1 whose verify data decrypts to the device's public key.\<close>

definition verified :: "env \<Rightarrow> history \<Rightarrow> sec1_ctx \<Rightarrow> bytes \<Rightarrow> bool" where
  "verified E h c b \<longleftrightarrow> s1_state c = SEC1_CMD0_DONE \<and>
     (\<exists>p. pb_decode (SessionData_codec (nanopb E)) b =
          Some \<lparr>sec_ver = SecScheme1, session_proto = Proto_sec1 p\<rparr> \<and>
        sec1_msg p = Session_Command1 \<and> length (sc1_client_verify_data E p) = PUBKEY_LEN \<and>
        psa_cipher_update (psa E) h (cipher c) (sc1_client_verify_data E p) = (0, device_pubkey c))"

lemma sec1_dispatch_spec:
  "wp (sec1_dispatch E c b) (\<lambda>r s'. only_hist s s' \<and> out_contract (hist s) (fst r) (hist s') \<and>
     (s1_state (snd r) = SEC1_DONE \<longrightarrow> s1_state c = SEC1_DONE \<or> verified E (hist s) c b)) s"
proof -
  have bad: "wp (ret ((- EINVAL, None), c)) (\<lambda>r s'. only_hist s s' \<and>
     out_contract (hist s) (fst r) (hist s') \<and>
     (s1_state (snd r) = SEC1_DONE \<longrightarrow> s1_state c = SEC1_DONE \<or> verified E (hist s) c b)) s"
    by (simp add: out_contract_def)
  show ?thesis
  proof (cases "pb_decode (SessionData_codec (nanopb E)) b")
    case None
    with bad show ?thesis by (simp add: sec1_dispatch_def)
  next
    case (Some req)
    obtain v pr where req: "req = \<lparr>sec_ver = v, session_proto = pr\<rparr>" by (cases req) auto
    show ?thesis
    proof (cases "v = SecScheme1 \<and> (\<exists>p. pr = Proto_sec1 p)")
      case True
      then obtain p where p: "v = SecScheme1" "pr = Proto_sec1 p" by blast
      show ?thesis
        unfolding sec1_dispatch_def Some req option.case SessionData.select_convs p
        using bad Some req p
        by (cases "sec1_msg p")
          (auto intro!: wp_mono [OF handle_cmd0_spec] wp_mono [OF handle_cmd1_spec] simp: verified_def)
    next
      case False
      with bad Some req show ?thesis
        by (auto simp: sec1_dispatch_def split: SecSchemeVersion.split SessionProto.split)
    qed
  qed
qed

lemma wp_as_sec1 [wp, simp]:
  "wp (as_sec1 (Sec1_object c) d f) Q s = wp (f c) Q s"
  by (simp add: as_sec1_def)

lemma sec1_init_spec:
  "wp (sec1_init E pp) (\<lambda>r s'. only_hist s s' \<and> (fst r = 0 \<longleftrightarrow> snd r \<noteq> None) \<and>
     ctx_typed ctx_sig network_prov_security1 (snd r) \<and>
     blocks (hist s') = blocks (hist s) + ctx_owned ctx_sig (snd r)) s"
  by (auto simp: sec1_init_def Let_def)

lemma sec1_encrypt_spec:
  "wp (sec1_encrypt E (Some (Sec1_object c)) b) (\<lambda>r s'. only_hist s s' \<and>
     blocks (hist s') = blocks (hist s) \<and> (\<exists>d. snd r = Some (Sec1_object d))) s"
  by (auto simp: sec1_encrypt_def)

lemma sec1_encrypt_typed:
  assumes "ctx_typed ctx_sig network_prov_security1 x"
  shows "wp (sec1_encrypt E x b) (\<lambda>r s'. same_objects s s' \<and>
      blocks (hist s') = blocks (hist s) \<and> map_option ctx_sig (snd r) = map_option ctx_sig x) s"
  using assms by (cases x) (auto simp: ctx_sig_iff sec1_encrypt_def [of _ None]
        intro!: wp_mono [OF sec1_encrypt_spec] same_objects_only_hist)

lemma sec1_handshake_typed:
  assumes "ctx_typed ctx_sig network_prov_security1 x"
  shows "wp (sec1_handshake E x b) (\<lambda>r s'. same_objects s s' \<and>
      out_contract (hist s) (fst r) (hist s') \<and> map_option ctx_sig (snd r) = map_option ctx_sig x) s"
  using assms by (cases x) (auto simp: ctx_sig_iff sec1_handshake_def out_contract_def
        intro!: wp_mono [OF sec1_dispatch_spec] same_objects_only_hist)

interpretation sec1: security_vtable "security1_vtable E" network_prov_security1 ctx_sig for E
  by unfold_locales
    (auto simp: security1_vtable_def sec1_encrypt_typed sec1_handshake_typed ctx_sig_iff sec1_cleanup_def
      intro!: wp_mono [OF sec1_init_spec] same_objects_only_hist)

section \<open>The laws of PSA that the scheme relies on\<close>

text \<open>An operation that is set up for CTR with the key \<open>k\<close> and the IV \<open>iv\<close> and has processed
  chunks of the lengths \<open>ns\<close> (newest first); the part of the keystream of a key from position
  \<open>pos\<close> on.\<close>

definition ctr_op :: "nat \<Rightarrow> bytes \<Rightarrow> nat list \<Rightarrow> psa_cipher_operation" where
  "ctr_op k iv ns = map Cipher_update ns @ [Cipher_set_iv iv, Cipher_setup k]"

definition keystream :: "(bytes \<Rightarrow> bytes \<Rightarrow> nat \<Rightarrow> byte) \<Rightarrow> bytes \<Rightarrow> bytes \<Rightarrow> nat \<Rightarrow> nat \<Rightarrow> bytes" where
  "keystream aes key iv pos n = map (aes key iv) [pos..<pos + n]"

text \<open>Documented behaviour of PSA, for some key agreement \<open>dh\<close>, hash \<open>sha\<close> and keystream
  \<open>aes\<close>: what a successful call returns, that a new key gets an identifier that is not in use,
  that an update adds the keystream at the current position and that an operation without key
  and IV, or in its error state, refuses.\<close>

definition psa_laws ::
  "env \<Rightarrow> (nat \<Rightarrow> bytes \<Rightarrow> bytes) \<Rightarrow> (bytes \<Rightarrow> bytes) \<Rightarrow> (bytes \<Rightarrow> bytes \<Rightarrow> nat \<Rightarrow> byte) \<Rightarrow> bool" where
  "psa_laws E dh sha aes \<longleftrightarrow>
     (\<forall>h k pk. fst (psa_raw_key_agreement (psa E) h k pk) = 0 \<longrightarrow>
        snd (psa_raw_key_agreement (psa E) h k pk) = dh k pk) \<and>
     (\<forall>h b. fst (psa_hash_compute (psa E) h b) = 0 \<longrightarrow> snd (psa_hash_compute (psa E) h b) = sha b) \<and>
     (\<forall>h b. fst (psa_import_key (psa E) h b) = 0 \<longrightarrow>
        imported h (snd (psa_import_key (psa E) h b)) = None) \<and>
     (\<forall>h n. length (snd (psa_generate_random (psa E) h n)) = n) \<and>
     (\<forall>h k iv ns key b. imported h k = Some key \<longrightarrow> psa_cipher_update (psa E) h (ctr_op k iv ns) b =
        (0, xor_bytes b (keystream aes key iv (sum_list ns) (length b)))) \<and>
     (\<forall>h x b. (\<nexists>k iv ns. x = ctr_op k iv ns) \<longrightarrow> fst (psa_cipher_update (psa E) h x b) \<noteq> 0)"

lemma psa_lawsD:
  assumes "psa_laws E dh sha aes"
  shows "fst (psa_raw_key_agreement (psa E) h k pk) = 0 \<Longrightarrow>
      snd (psa_raw_key_agreement (psa E) h k pk) = dh k pk"
    "fst (psa_hash_compute (psa E) h b) = 0 \<Longrightarrow> snd (psa_hash_compute (psa E) h b) = sha b"
    "fst (psa_import_key (psa E) h b) = 0 \<Longrightarrow> imported h (snd (psa_import_key (psa E) h b)) = None"
    "length (snd (psa_generate_random (psa E) h n)) = n"
    "imported h k = Some key \<Longrightarrow> psa_cipher_update (psa E) h (ctr_op k iv ns) b =
        (0, xor_bytes b (keystream aes key iv (sum_list ns) (length b)))"
    "fst (psa_cipher_update (psa E) h x b) = 0 \<Longrightarrow> \<exists>k iv ns. x = ctr_op k iv ns"
  using assms unfolding psa_laws_def by blast+

lemma length_keystream [simp]: "length (keystream aes key iv pos n) = n"
  by (simp add: keystream_def)

lemma keystream_append:
  "keystream aes key iv pos m @ keystream aes key iv (pos + m) n = keystream aes key iv pos (m + n)"
  using upt_add_eq_append [of pos "pos + m" n] by (simp add: keystream_def add.assoc flip: map_append)

lemma ctr_op_inject [simp]: "ctr_op k iv ns = ctr_op j jv ms \<longleftrightarrow> k = j \<and> iv = jv \<and> ns = ms"
  by (auto simp: ctr_op_def map_injective inj_def)

lemma ctr_op_push: "op_call st (Cipher_update n) x = ctr_op k iv ns \<longleftrightarrow>
    st = 0 \<and> (\<exists>ms. ns = n # ms \<and> x = ctr_op k iv ms)"
  by (cases ns) (auto simp: op_call_def ctr_op_def)

lemma ctr_op_armed: "op_call st2 (Cipher_set_iv v) (op_call st (Cipher_setup j) []) = ctr_op k iv ns \<longleftrightarrow>
    st = 0 \<and> st2 = 0 \<and> ns = [] \<and> iv = v \<and> j = k"
  by (cases ns) (auto simp: op_call_def ctr_op_def append_eq_Cons_conv Cons_eq_append_conv)

lemma ctr_op_short: "[c] \<noteq> ctr_op k iv ns" "[] \<noteq> ctr_op k iv ns" "op_call st c [] \<noteq> ctr_op k iv ns"
  by (auto simp: op_call_def ctr_op_def append_eq_Cons_conv Cons_eq_append_conv)

text \<open>The session key for a client key: the shared secret, mixed with the hash of the proof of
  possession when there is one.\<close>

definition session_secret ::
  "(nat \<Rightarrow> bytes \<Rightarrow> bytes) \<Rightarrow> (bytes \<Rightarrow> bytes) \<Rightarrow> sec1_ctx \<Rightarrow> bytes \<Rightarrow> bytes" where
  "session_secret dh sha c pk =
    (if s1_pop_len c > 0 then xor_bytes (dh (device_key c) pk) (sha (take (s1_pop_len c) (s1_pop c)))
     else dh (device_key c) pk)"

section \<open>A session, from its initialisation on\<close>

text \<open>The contexts a session can reach: after a successful \<open>sec1_init\<close>, any sequence of
  handshake messages and of encryptions and decryptions, with other calls (none of them to PSA)
  in between.\<close>

fun is_psa_call :: "call \<Rightarrow> bool" where
  "is_psa_call (Psa c) = True"
| "is_psa_call c = False"

inductive sec1_reach :: "env \<Rightarrow> sec1_ctx \<Rightarrow> 'z kst_scheme \<Rightarrow> bool" for E where
  init: "run_state (sec1_init E pp) s = ((r, Some (Sec1_object c)), s') \<Longrightarrow> sec1_reach E c s'"
| handshake: "sec1_reach E c s \<Longrightarrow>
    run_state (sec1_handshake E (Some (Sec1_object c)) b) s = ((r, Some (Sec1_object c')), s') \<Longrightarrow>
    sec1_reach E c' s'"
| crypt: "sec1_reach E c s \<Longrightarrow>
    run_state (sec1_encrypt E (Some (Sec1_object c)) b) s = ((r, Some (Sec1_object c')), s') \<Longrightarrow>
    sec1_reach E c' s'"
| other: "sec1_reach E c s \<Longrightarrow> hist s' = k @ hist s \<Longrightarrow> list_all (\<lambda>x. \<not> is_psa_call x) k \<Longrightarrow>
    sec1_reach E c s'"

text \<open>The device's public key was presented encrypted under the session key of some client
  public key: the client proved that it knows the shared secret and the proof of possession.\<close>

definition proof_given ::
  "(nat \<Rightarrow> bytes \<Rightarrow> bytes) \<Rightarrow> (bytes \<Rightarrow> bytes) \<Rightarrow> (bytes \<Rightarrow> bytes \<Rightarrow> nat \<Rightarrow> byte) \<Rightarrow> sec1_ctx \<Rightarrow> history \<Rightarrow> bool" where
  "proof_given dh sha aes c h \<longleftrightarrow> (\<exists>pk iv pos.
     Psa (Psa_cipher_update (xor_bytes (device_pubkey c)
       (keystream aes (session_secret dh sha c pk) iv pos PUBKEY_LEN))) \<in> set h)"

text \<open>What stays fixed in a context during a session.\<close>

definition same_identity :: "sec1_ctx \<Rightarrow> sec1_ctx \<Rightarrow> bool" where
  "same_identity c d \<longleftrightarrow> device_key d = device_key c \<and> device_pubkey d = device_pubkey c \<and>
     s1_pop d = s1_pop c \<and> s1_pop_len d = s1_pop_len c"

lemma session_secret_cong: "same_identity c d \<Longrightarrow> session_secret dh sha d = session_secret dh sha c"
  by (simp add: same_identity_def session_secret_def fun_eq_iff)

lemma proof_given_mono:
  assumes "proof_given dh sha aes c h" "same_identity c d" "set h \<subseteq> set h'"
  shows "proof_given dh sha aes d h'"
  using assms session_secret_cong [OF assms(2)] by (auto simp: proof_given_def same_identity_def)

lemma imported_other: "list_all (\<lambda>x. \<not> is_psa_call x) k \<Longrightarrow> imported (k @ h) j = imported h j"
proof (induction k)
  case (Cons x k)
  then show ?case by (cases x) auto
qed simp

definition keys_grow :: "history \<Rightarrow> history \<Rightarrow> bool" where
  "keys_grow h h' \<longleftrightarrow> set h \<subseteq> set h' \<and> (\<forall>k b. imported h k = Some b \<longrightarrow> imported h' k = Some b)"

lemma keys_grow_trans: "keys_grow h h' \<Longrightarrow> keys_grow h' h'' \<Longrightarrow> keys_grow h h''"
  unfolding keys_grow_def by blast

lemma keys_grow_heap: "list_all heap_call k \<Longrightarrow> keys_grow h (k @ h)"
  unfolding keys_grow_def by (induction k) (auto elim!: heap_call_cases)

lemma keys_grow_pb: "pb_post c m h r h' \<Longrightarrow> keys_grow h h'"
  by (auto simp: pb_post_def keys_grow_heap)

lemma same_identity_trans: "same_identity c d \<Longrightarrow> same_identity d e \<Longrightarrow> same_identity c e"
  by (simp add: same_identity_def)

text \<open>The cipher operation after a step is keyed with a key of this session.\<close>

definition keyed ::
  "(nat \<Rightarrow> bytes \<Rightarrow> bytes) \<Rightarrow> (bytes \<Rightarrow> bytes) \<Rightarrow> sec1_ctx \<Rightarrow> history \<Rightarrow> bool" where
  "keyed dh sha c h \<longleftrightarrow>
     (\<forall>k iv ns. cipher c = ctr_op k iv ns \<longrightarrow> (\<exists>pk. imported h k = Some (session_secret dh sha c pk)))"

lemma keyed_mono:
  assumes "keyed dh sha c h" "same_identity c d" "keys_grow h h'"
    and "\<And>k iv ns. cipher d = ctr_op k iv ns \<Longrightarrow> \<exists>ms. cipher c = ctr_op k iv ms"
  shows "keyed dh sha d h'"
  using assms session_secret_cong [OF assms(2)] unfolding keyed_def keys_grow_def by metis

lemma keyed_simps [simp]:
  "keyed dh sha (c\<lparr>session_key := x\<rparr>) h = keyed dh sha c h"
  "keyed dh sha (c\<lparr>client_pubkey := b\<rparr>) h = keyed dh sha c h"
  "keyed dh sha (c\<lparr>device_random := b\<rparr>) h = keyed dh sha c h"
  "keyed dh sha (c\<lparr>s1_state := st\<rparr>) h = keyed dh sha c h"
  "keyed dh sha c (Psa (Psa_raw_key_agreement j b) # h) = keyed dh sha c h"
  "keyed dh sha c (Psa (Psa_hash_compute b) # h) = keyed dh sha c h"
  "keyed dh sha c (Psa (Psa_generate_random n) # h) = keyed dh sha c h"
  "keyed dh sha c (Psa (Psa_cipher_update b) # h) = keyed dh sha c h"
  "keyed dh sha c (Psa (Psa_import_key b None) # h) = keyed dh sha c h"
  by (simp_all add: keyed_def session_secret_def)

lemma same_identity_simps [simp]:
  "same_identity c c"
  "same_identity c (d\<lparr>session_key := x\<rparr>) = same_identity c d"
  "same_identity c (d\<lparr>client_pubkey := b\<rparr>) = same_identity c d"
  "same_identity c (d\<lparr>device_random := b\<rparr>) = same_identity c d"
  "same_identity c (d\<lparr>s1_state := st\<rparr>) = same_identity c d"
  "same_identity c (d\<lparr>cipher := x'\<rparr>) = same_identity c d"
  "same_identity (c\<lparr>client_pubkey := b\<rparr>) d = same_identity c d"
  "same_identity (c\<lparr>device_random := b\<rparr>) d = same_identity c d"
  by (simp_all add: same_identity_def)

lemma keys_grow_simps [simp]:
  "keys_grow h h"
  "keys_grow h h' \<Longrightarrow> keys_grow h (Psa (Psa_raw_key_agreement j b) # h')"
  "keys_grow h h' \<Longrightarrow> keys_grow h (Psa (Psa_hash_compute b) # h')"
  "keys_grow h h' \<Longrightarrow> keys_grow h (Psa (Psa_generate_random n) # h')"
  "keys_grow h h' \<Longrightarrow> keys_grow h (Psa (Psa_cipher_update b) # h')"
  "keys_grow h h' \<Longrightarrow> keys_grow h (Psa (Psa_cipher_encrypt_setup n) # h')"
  "keys_grow h h' \<Longrightarrow> keys_grow h (Psa (Psa_cipher_set_iv b) # h')"
  "keys_grow h h' \<Longrightarrow> keys_grow h (Psa (Psa_import_key b None) # h')"
  "imported h k = None \<Longrightarrow> keys_grow h (Psa (Psa_import_key b (Some k)) # h)"
  by (auto simp: keys_grow_def)

text \<open>The contract of a step of the handshake on the keys.\<close>

definition key_step ::
  "(nat \<Rightarrow> bytes \<Rightarrow> bytes) \<Rightarrow> (bytes \<Rightarrow> bytes) \<Rightarrow> sec1_ctx \<Rightarrow> history \<Rightarrow> sec1_ctx \<Rightarrow> history \<Rightarrow> bool" where
  "key_step dh sha c h d h' \<longleftrightarrow> same_identity c d \<and> keys_grow h h' \<and> keyed dh sha d h'"

lemma key_stepI:
  "same_identity c d \<Longrightarrow> keys_grow h h' \<Longrightarrow> keyed dh sha d h' \<Longrightarrow> key_step dh sha c h d h'"
  by (simp add: key_step_def)

lemma import_session_key_keyed:
  assumes laws: "psa_laws E dh sha aes" and k: "keyed dh sha c (hist s)"
    and key: "key = session_secret dh sha c pk"
  shows "wp (import_session_key E c key) (\<lambda>r s'. key_step dh sha c (hist s) (snd r) (hist s')) s"
proof -
  have secret: "session_secret dh sha (c\<lparr>session_key := x, cipher := y\<rparr>) = session_secret dh sha c"
    "session_secret dh sha (c\<lparr>session_key := x\<rparr>) = session_secret dh sha c"
    for x y by (simp_all add: session_secret_def fun_eq_iff)
  show ?thesis
    unfolding import_session_key_def arm_cipher_def Let_def key_step_def using k
    by (auto simp: key secret keyed_def [of _ _ "_\<lparr>cipher := _\<rparr>"] ctr_op_armed ctr_op_short
        psa_lawsD(3) [OF laws])
qed

lemma derive_session_key_keyed:
  assumes laws: "psa_laws E dh sha aes" and k: "keyed dh sha c (hist s)"
  shows "wp (derive_session_key E c) (\<lambda>r s'. key_step dh sha c (hist s) (snd r) (hist s')) s"
  unfolding derive_session_key_def mix_pop_def
  using k by (auto intro!: wp_mono [OF import_session_key_keyed [OF laws, where pk = "client_pubkey c"]]
      simp: session_secret_def psa_lawsD(1,2) [OF laws] key_step_def)
    (erule keys_grow_trans [rotated], simp)+

lemma handle_cmd0_keyed:
  assumes laws: "psa_laws E dh sha aes" and k: "keyed dh sha c (hist s)"
  shows "wp (handle_cmd0 E c p) (\<lambda>r s'. key_step dh sha c (hist s) (snd r) (hist s')) s"
proof -
  have resp: "wp (build_resp0 E e) (\<lambda>_ s'. key_step dh sha c h d (hist s')) t"
    if "key_step dh sha c h d (hist t)" for e d h t
    unfolding build_resp0_def
    by (rule wp_mono [OF pb_encode_spec])
      (use that in \<open>auto simp: key_step_def dest!: keys_grow_pb intro: keys_grow_trans
        elim!: keyed_mono\<close>)
  have pre: "key_step dh sha c (hist s) d h'"
    if "key_step dh sha (c\<lparr>client_pubkey := a, device_random := b\<rparr>) (Psa (Psa_generate_random n) # hist s) d h'"
    for a b n d h'
    using that keys_grow_trans [OF keys_grow_simps(4) [OF keys_grow_simps(1)]]
    by (auto simp: key_step_def)
  show ?thesis
    unfolding handle_cmd0_def Let_def using k
    by (auto intro!: wp_mono [OF derive_session_key_keyed [OF laws]] resp
        simp: key_stepI dest!: pre) (simp add: key_step_def)
qed

lemma keyed_push:
  "keyed dh sha (d\<lparr>cipher := x\<rparr>) h \<Longrightarrow> keyed dh sha (d\<lparr>cipher := op_call st (Cipher_update n) x\<rparr>) h"
  "keyed dh sha d h \<Longrightarrow> keyed dh sha (d\<lparr>cipher := op_call st (Cipher_update n) (cipher d)\<rparr>) h"
  by (erule keyed_mono; auto simp: ctr_op_push same_identity_def)+

lemma handle_cmd1_keyed:
  assumes k: "keyed dh sha c (hist s)"
  shows "wp (handle_cmd1 E c p) (\<lambda>r s'. key_step dh sha c (hist s) (snd r) (hist s')) s"
proof -
  have resp: "wp (build_resp1 E v) (\<lambda>_ s'. key_step dh sha c h d (hist s')) t"
    if "key_step dh sha c h d (hist t)" for v d h t
    unfolding build_resp1_def
    by (rule wp_mono [OF pb_encode_spec])
      (use that in \<open>auto simp: key_step_def dest!: keys_grow_pb intro: keys_grow_trans
        elim!: keyed_mono\<close>)
  show ?thesis
    unfolding handle_cmd1_def Let_def using k
    by (auto intro!: wp_mono [OF resp] keyed_push simp: key_step_def)
qed

lemma sec1_dispatch_keyed:
  assumes laws: "psa_laws E dh sha aes" and k: "keyed dh sha c (hist s)"
  shows "wp (sec1_dispatch E c b) (\<lambda>r s'. key_step dh sha c (hist s) (snd r) (hist s')) s"
  unfolding sec1_dispatch_def using k handle_cmd0_keyed [OF laws k] handle_cmd1_keyed [OF k]
  by (auto split: option.split SecSchemeVersion.split SessionProto.split Sec1MsgType.split
      simp: key_stepI)

lemma verified_proof:
  assumes laws: "psa_laws E dh sha aes" and k: "keyed dh sha c h" and v: "verified E h c b"
  shows "\<exists>pk iv pos p. pb_decode (SessionData_codec (nanopb E)) b =
      Some \<lparr>sec_ver = SecScheme1, session_proto = Proto_sec1 p\<rparr> \<and> sec1_msg p = Session_Command1 \<and>
     length (sc1_client_verify_data E p) = PUBKEY_LEN \<and>
     sc1_client_verify_data E p =
       xor_bytes (device_pubkey c) (keystream aes (session_secret dh sha c pk) iv pos PUBKEY_LEN)"
proof -
  from v obtain p where p: "pb_decode (SessionData_codec (nanopb E)) b =
        Some \<lparr>sec_ver = SecScheme1, session_proto = Proto_sec1 p\<rparr>" "sec1_msg p = Session_Command1"
      "length (sc1_client_verify_data E p) = PUBKEY_LEN"
      "psa_cipher_update (psa E) h (cipher c) (sc1_client_verify_data E p) = (0, device_pubkey c)"
    by (auto simp: verified_def)
  from psa_lawsD(6) [OF laws] p(4) obtain kk iv ns where op: "cipher c = ctr_op kk iv ns"
    by (metis fst_conv)
  with k obtain pk where imp: "imported h kk = Some (session_secret dh sha c pk)"
    by (auto simp: keyed_def)
  from psa_lawsD(5) [OF laws imp] p op have "device_pubkey c = xor_bytes (sc1_client_verify_data E p)
      (keystream aes (session_secret dh sha c pk) iv (sum_list ns) PUBKEY_LEN)" by simp
  then have "sc1_client_verify_data E p = xor_bytes (device_pubkey c)
      (keystream aes (session_secret dh sha c pk) iv (sum_list ns) PUBKEY_LEN)"
    using p(3) by (simp add: xor_bytes_cancel)
  with p show ?thesis by blast
qed

lemma sec1_handshake_obj:
  "run_state (sec1_handshake E (Some (Sec1_object c)) b) s = ((r, Some (Sec1_object c')), s') \<longleftrightarrow>
    run_state (sec1_dispatch E c b) s = ((r, c'), s')"
  by (cases "run_state (sec1_dispatch E c b) s") (auto simp: sec1_handshake_def as_sec1_def)

lemma dispatch_records_proof:
  assumes v: "verified E (hist s) c b"
    and d: "pb_decode (SessionData_codec (nanopb E)) b =
      Some \<lparr>sec_ver = SecScheme1, session_proto = Proto_sec1 p\<rparr>" "sec1_msg p = Session_Command1"
  shows "wp (sec1_dispatch E c b)
    (\<lambda>_ s'. Psa (Psa_cipher_update (sc1_client_verify_data E p)) \<in> set (hist s')) s"
proof -
  have resp: "wp (build_resp1 E w) (\<lambda>_ s'. x \<in> set (hist s')) t" if "x \<in> set (hist t)" for w x t
    unfolding build_resp1_def
    by (rule wp_mono [OF pb_encode_spec]) (use that in \<open>auto dest!: keys_grow_pb simp: keys_grow_def\<close>)
  show ?thesis
    using v d by (auto simp: sec1_dispatch_def handle_cmd1_def verified_def Let_def intro!: resp)
qed

lemma dispatch_keeps_proof:
  assumes laws: "psa_laws E dh sha aes" and run: "run_state (sec1_dispatch E c b) s = ((r, c'), s')"
    and inv: "keyed dh sha c (hist s) \<and> (s1_state c = SEC1_DONE \<longrightarrow> proof_given dh sha aes c (hist s))"
    and ks: "key_step dh sha c (hist s) c' (hist s')" and d: "s1_state c' = SEC1_DONE"
  shows "proof_given dh sha aes c' (hist s')"
proof (cases "s1_state c = SEC1_DONE")
  case True
  with inv ks show ?thesis
    by (auto simp: key_step_def keys_grow_def intro: proof_given_mono)
next
  case False
  with d wp_runD [OF sec1_dispatch_spec run] have v: "verified E (hist s) c b" by auto
  from verified_proof [OF laws _ v] inv obtain pk iv pos p where
    p: "pb_decode (SessionData_codec (nanopb E)) b =
      Some \<lparr>sec_ver = SecScheme1, session_proto = Proto_sec1 p\<rparr>" "sec1_msg p = Session_Command1"
    "sc1_client_verify_data E p =
      xor_bytes (device_pubkey c) (keystream aes (session_secret dh sha c pk) iv pos PUBKEY_LEN)"
    by blast
  from wp_runD [OF dispatch_records_proof [OF v p(1,2)] run] p(3)
  have "proof_given dh sha aes c (hist s')" by (auto simp: proof_given_def)
  with ks show ?thesis by (auto simp: key_step_def intro: proof_given_mono)
qed

lemma sec1_reach_inv:
  assumes laws: "psa_laws E dh sha aes" and reach: "sec1_reach E c s"
  shows "keyed dh sha c (hist s) \<and> (s1_state c = SEC1_DONE \<longrightarrow> proof_given dh sha aes c (hist s))"
  using reach
proof induction
  case (init pp s r c s')
  have "wp (sec1_init E pp) (\<lambda>r s'. \<forall>c. snd r = Some (Sec1_object c) \<longrightarrow>
      cipher c = [] \<and> s1_state c = SEC1_INIT) s"
    by (auto simp: sec1_init_def Let_def sec1_store_pop_def sec1_zero_def split: option.split)
  with init have "cipher c = []" "s1_state c = SEC1_INIT" by (auto dest: wp_runD)
  then show ?case by (simp add: keyed_def ctr_op_short)
next
  case (handshake c s b r c' s')
  have run: "run_state (sec1_dispatch E c b) s = ((r, c'), s')"
    using handshake.hyps(2) by (simp add: sec1_handshake_obj)
  have ks: "key_step dh sha c (hist s) c' (hist s')"
    using wp_runD [OF sec1_dispatch_keyed [OF laws] run] handshake.IH by simp
  with dispatch_keeps_proof [OF laws run handshake.IH ks] show ?case by (simp add: key_step_def)
next
  case (crypt c s b r c' s')
  have "wp (sec1_encrypt E (Some (Sec1_object c)) b) (\<lambda>r s'. \<forall>c'. snd r = Some (Sec1_object c') \<longrightarrow>
     keyed dh sha c' (hist s') \<and> same_identity c c' \<and> s1_state c' = s1_state c \<and>
     set (hist s) \<subseteq> set (hist s')) s"
    using conjunct1 [OF crypt.IH] by (simp add: sec1_encrypt_def keyed_push subset_insertI)
  from wp_runD [OF this crypt.hyps(2)] have "keyed dh sha c' (hist s')" "same_identity c c'"
    "s1_state c' = s1_state c" "set (hist s) \<subseteq> set (hist s')" by auto
  with crypt.IH show ?case by (auto intro: proof_given_mono)
next
  case (other c s s' k)
  then show ?case
    by (auto simp: keyed_def imported_other intro: proof_given_mono)
qed

section \<open>The keystream of an established session\<close>

lemma xor_bytes_append:
  "length a = length k \<Longrightarrow> xor_bytes (a @ b) (k @ l) = xor_bytes a k @ xor_bytes b l"
  by (induction a k rule: list_induct2) auto

text \<open>An established session whose cipher operation has consumed \<open>sum_list ns\<close> bytes.\<close>

definition established ::
  "sec1_ctx \<Rightarrow> history \<Rightarrow> bytes \<Rightarrow> bytes \<Rightarrow> nat list \<Rightarrow> bool" where
  "established c h key iv ns \<longleftrightarrow> s1_state c = SEC1_DONE \<and>
     (\<exists>k. cipher c = ctr_op k iv ns \<and> imported h k = Some key)"

text \<open>A sequence of payloads in whatever directions: one call of \<open>sec1_encrypt\<close> for each.\<close>

fun sec1_messages ::
  "env \<Rightarrow> session_ctx option \<Rightarrow> bytes list \<Rightarrow> ('z kst_scheme, (int \<times> bytes) list \<times> session_ctx option) state" where
  "sec1_messages E x [] = ret ([], x)"
| "sec1_messages E x (m # ms) = do {
     r \<leftarrow> sec1_encrypt E x m;
     rs \<leftarrow> sec1_messages E (snd r) ms;
     ret (fst r # fst rs, snd rs) }"

lemma sec1_encrypt_established:
  assumes laws: "psa_laws E dh sha aes" and est: "established c (hist s) key iv ns"
  shows "wp (sec1_encrypt E (Some (Sec1_object c)) b) (\<lambda>r s'.
     fst r = (0, xor_bytes b (keystream aes key iv (sum_list ns) (length b))) \<and>
     (\<exists>c'. snd r = Some (Sec1_object c') \<and> established c' (hist s') key iv (length b # ns))) s"
proof -
  from est obtain k where k: "s1_state c = SEC1_DONE" "cipher c = ctr_op k iv ns"
    "imported (hist s) k = Some key" by (auto simp: established_def)
  have push: "op_call 0 (Cipher_update n) (ctr_op k iv ns) = ctr_op k iv (n # ns)" for n
    by (simp add: op_call_def ctr_op_def)
  show ?thesis
    using k by (auto simp: sec1_encrypt_def psa_lawsD(5) [OF laws] push established_def)
qed

lemma sec1_messages_stream:
  fixes s :: "'z kst_scheme"
  assumes laws: "psa_laws E dh sha aes"
  shows "established c (hist s) key iv ns \<Longrightarrow>
    wp (sec1_messages E (Some (Sec1_object c)) ms) (\<lambda>r s'.
       map fst (fst r) = replicate (length ms) 0 \<and>
       map (length \<circ> snd) (fst r) = map length ms \<and>
       concat (map snd (fst r)) =
         xor_bytes (concat ms) (keystream aes key iv (sum_list ns) (length (concat ms)))) s"
proof (induction ms arbitrary: c s ns)
  case Nil
  then show ?case by simp
next
  case (Cons m ms)
  have "wp (sec1_messages E (Some (Sec1_object d)) ms) (\<lambda>r s'.
       map fst (fst r) = replicate (length ms) 0 \<and> map (\<lambda>a. length (snd a)) (fst r) = map length ms \<and>
       xor_bytes m (keystream aes key iv (sum_list ns) (length m)) @ concat (map snd (fst r)) =
         xor_bytes (m @ concat ms)
           (keystream aes key iv (sum_list ns) (length m + length (concat ms)))) t"
    if "established d (hist t) key iv (length m # ns)" for d and t :: "'z kst_scheme"
    by (rule wp_mono [OF Cons.IH [OF that]])
      (auto simp: xor_bytes_append add.commute o_def simp flip: keystream_append)
  then show ?case
    by (auto intro!: wp_mono [OF sec1_encrypt_established [OF laws Cons.prems]])
qed

section \<open>An honest handshake\<close>

text \<open>PSA succeeds in the calls of the handshake.\<close>

definition psa_succeeds :: "env \<Rightarrow> bool" where
  "psa_succeeds E \<longleftrightarrow>
     (\<forall>h n. fst (psa_generate_random (psa E) h n) = 0) \<and>
     (\<forall>h k pk. fst (psa_raw_key_agreement (psa E) h k pk) = 0 \<and>
        length (snd (psa_raw_key_agreement (psa E) h k pk)) = SESSION_KEY_LEN) \<and>
     (\<forall>h b. fst (psa_hash_compute (psa E) h b) = 0 \<and>
        length (snd (psa_hash_compute (psa E) h b)) = SESSION_KEY_LEN) \<and>
     (\<forall>h b. fst (psa_import_key (psa E) h b) = 0) \<and>
     (\<forall>h k. psa_cipher_encrypt_setup (psa E) h k = 0) \<and>
     (\<forall>h x iv. psa_cipher_set_iv (psa E) h x iv = 0)"

lemma psa_succeedsD:
  assumes "psa_succeeds E" and laws: "psa_laws E dh sha aes"
  shows "fst (psa_generate_random (psa E) h n) = 0"
    "psa_raw_key_agreement (psa E) h k pk = (0, dh k pk)" "length (dh k pk) = SESSION_KEY_LEN"
    "psa_hash_compute (psa E) h b = (0, sha b)" "length (sha b) = SESSION_KEY_LEN"
    "fst (psa_import_key (psa E) h b) = 0" "psa_cipher_encrypt_setup (psa E) h k = 0"
    "psa_cipher_set_iv (psa E) h x iv = 0"
  using assms psa_lawsD(1,2) [OF laws] unfolding psa_succeeds_def
  by (auto simp: prod_eq_iff)

definition cmd0 :: "bytes \<Rightarrow> SessionData" where
  "cmd0 pk = \<lparr>sec_ver = SecScheme1, session_proto = Proto_sec1
     \<lparr>sec1_msg = Session_Command0, sec1_payload = Sec1_sc0 pk\<rparr>\<rparr>"

definition cmd1 :: "bytes \<Rightarrow> SessionData" where
  "cmd1 v = \<lparr>sec_ver = SecScheme1, session_proto = Proto_sec1
     \<lparr>sec1_msg = Session_Command1, sec1_payload = Sec1_sc1 v\<rparr>\<rparr>"

definition resp1 :: "bytes \<Rightarrow> SessionData" where
  "resp1 v = \<lparr>sec_ver = SecScheme1, session_proto = Proto_sec1
     \<lparr>sec1_msg = Session_Response1, sec1_payload = Sec1_sr1 Status_Success v\<rparr>\<rparr>"

lemma imported_heap: "pb_post c m h r h' \<Longrightarrow> imported h k = Some b \<Longrightarrow> imported h' k = Some b"
  by (drule keys_grow_pb) (simp add: keys_grow_def)

text \<open>After a Cmd0 the cipher is keyed with the secret of the client key, at position 0.\<close>

lemma dispatch_cmd0:
  assumes laws: "psa_laws E dh sha aes" and ok: "psa_succeeds E"
    and d: "pb_decode (SessionData_codec (nanopb E)) b = Some (cmd0 pk)"
    and len: "length pk = PUBKEY_LEN" "length (client_pubkey c) = PUBKEY_LEN"
      "length (device_random c) = RANDOM_LEN"
    and iv: "iv = snd (psa_generate_random (psa E) (hist s) RANDOM_LEN)"
  shows "wp (sec1_dispatch E c b) (\<lambda>r s'. s1_state (snd r) = SEC1_CMD0_DONE \<and>
     same_identity c (snd r) \<and> client_pubkey (snd r) = pk \<and>
     (\<exists>k. cipher (snd r) = ctr_op k iv [] \<and>
        imported (hist s') k = Some (session_secret dh sha c pk))) s"
proof -
  have rnd: "memcpy (device_random c) iv = iv" "memcpy (client_pubkey c) pk = pk"
    using psa_lawsD(4) [OF laws, of "hist s" RANDOM_LEN] len by (simp_all add: iv memcpy_full)
  have resp: "wp (build_resp0 E e) (\<lambda>_ s'. imported (hist s') j = Some key) t"
    if "imported (hist t) j = Some key" for e key j t
    unfolding build_resp0_def
    by (rule wp_mono [OF pb_encode_spec]) (use that in \<open>auto dest: imported_heap\<close>)
  have armed: "op_call 0 (Cipher_set_iv iv) (op_call 0 (Cipher_setup j) []) = ctr_op j iv []" for j
    by (simp add: op_call_def ctr_op_def)
  show ?thesis
    using d len
    by (auto simp: sec1_dispatch_def cmd0_def handle_cmd0_def sc0_client_pubkey_def Let_def
        derive_session_key_def mix_pop_def import_session_key_def arm_cipher_def iv [symmetric] rnd
        armed psa_succeedsD [OF ok laws] session_secret_def intro!: resp)
qed

text \<open>A Cmd1 is accepted exactly with the right verify data; then the answer is the client's key
  encrypted with the next 32 bytes of the keystream.\<close>

lemma dispatch_cmd1:
  assumes laws: "psa_laws E dh sha aes"
    and d: "pb_decode (SessionData_codec (nanopb E)) b = Some (cmd1 v)" and len: "length v = PUBKEY_LEN"
    and st: "s1_state c = SEC1_CMD0_DONE" "cipher c = ctr_op k iv ns" "imported (hist s) k = Some key"
    and wf: "length (device_pubkey c) = PUBKEY_LEN" "length (client_pubkey c) = PUBKEY_LEN"
    and un: "\<And>h. length (uninit (kern E) h PUBKEY_LEN) = PUBKEY_LEN"
  shows "wp (sec1_dispatch E c b) (\<lambda>r s'.
     if v = xor_bytes (device_pubkey c) (keystream aes key iv (sum_list ns) PUBKEY_LEN)
     then established (snd r) (hist s') key iv (PUBKEY_LEN # PUBKEY_LEN # ns) \<and>
       (\<forall>bs. snd (fst r) = Some bs \<longrightarrow> encodes (SessionData_codec (nanopb E))
         (resp1 (xor_bytes (client_pubkey c) (keystream aes key iv (sum_list ns + PUBKEY_LEN) PUBKEY_LEN))) bs)
     else fst r = (- EACCES, None) \<and> s1_state (snd r) = SEC1_CMD0_DONE) s"
proof -
  let ?ks = "keystream aes key iv (sum_list ns) PUBKEY_LEN"
  have eq: "xor_bytes v ?ks = device_pubkey c \<longleftrightarrow> v = xor_bytes (device_pubkey c) ?ks"
    using len wf xor_bytes_cancel [of v ?ks] xor_bytes_cancel [of "device_pubkey c" ?ks] by auto
  have push: "op_call 0 (Cipher_update n) (ctr_op k iv ms) = ctr_op k iv (n # ms)" for n ms
    by (simp add: op_call_def ctr_op_def)
  have full: "memcpy (uninit (kern E) h PUBKEY_LEN) w = w" if "length w = PUBKEY_LEN" for h w
    using un that by (simp add: memcpy_full)
  have resp: "wp (build_resp1 E w) (\<lambda>r s'. established c' (hist s') key iv ms \<and>
      (\<forall>bs. snd r = Some bs \<longrightarrow> encodes (SessionData_codec (nanopb E)) (resp1 w) bs)) t"
    if "established c' (hist t) key iv ms" for w c' ms t
    unfolding build_resp1_def resp1_def
    by (rule wp_mono [OF pb_encode_spec])
      (use that in \<open>auto simp: established_def dest: imported_heap pb_postD(6)\<close>)
  have est: "established (c\<lparr>cipher := ctr_op k iv ms, s1_state := SEC1_DONE\<rparr>) h key iv ms"
    if "imported h k = Some key" for ms h
    using that by (simp add: established_def)
  show ?thesis
    using d len st wf
    by (simp add: sec1_dispatch_def cmd1_def handle_cmd1_def sc1_client_verify_data_def Let_def
        psa_lawsD(5) [OF laws] push eq full)
      (auto simp: add.commute intro!: resp est)
qed

section \<open>PSA keys\<close>

text \<open>Documented: a new key gets an identifier that is neither null nor in use; a failed import
  or generation returns the null identifier.\<close>

definition psa_key_ids :: "env \<Rightarrow> bool" where
  "psa_key_ids E \<longleftrightarrow>
     (\<forall>h b. let r = psa_import_key (psa E) h b in
        if fst r = 0 then snd r \<noteq> 0 \<and> snd r \<notin> set (live_keys h) else snd r = 0) \<and>
     (\<forall>h. let r = psa_generate_key (psa E) h in
        if fst r = 0 then snd r \<noteq> 0 \<and> snd r \<notin> set (live_keys h) else snd r = 0)"

lemma psa_key_idsD:
  assumes "psa_key_ids E"
  shows "fst (psa_import_key (psa E) h b) = 0 \<Longrightarrow> 0 < snd (psa_import_key (psa E) h b)"
    "fst (psa_import_key (psa E) h b) = 0 \<Longrightarrow> snd (psa_import_key (psa E) h b) \<notin> set (live_keys h)"
    "fst (psa_import_key (psa E) h b) \<noteq> 0 \<Longrightarrow> snd (psa_import_key (psa E) h b) = 0"
    "fst (psa_generate_key (psa E) h) = 0 \<Longrightarrow> 0 < snd (psa_generate_key (psa E) h)"
  using assms by (auto simp: psa_key_ids_def Let_def split: if_splits)

lemma live_keys_heap: "list_all heap_call k \<Longrightarrow> live_keys (k @ h) = live_keys h"
  by (induction k) (auto elim!: heap_call_cases)

lemma live_keys_pb: "pb_post c m h r h' \<Longrightarrow> live_keys h' = live_keys h"
  by (auto simp: pb_post_def live_keys_heap)

text \<open>The only key a handshake message makes is the session key that a Cmd0 stores; it is a new one, and the
  identifier of an earlier one is lost.\<close>

definition is_cmd0 :: "env \<Rightarrow> bytes \<Rightarrow> bool" where
  "is_cmd0 E b = (case pb_decode (SessionData_codec (nanopb E)) b of
     None \<Rightarrow> False
   | Some req \<Rightarrow> (case (sec_ver req, session_proto req) of
        (SecScheme1, Proto_sec1 p) \<Rightarrow> sec1_msg p = Session_Command0
      | _ \<Rightarrow> False))"

definition key_made :: "sec1_ctx \<Rightarrow> history \<Rightarrow> sec1_ctx \<Rightarrow> history \<Rightarrow> bool" where
  "key_made c h c' h' \<longleftrightarrow> device_key c' = device_key c \<and>
     (live_keys h' = live_keys h \<and> session_key c' \<in> {0, session_key c} \<or>
      0 < session_key c' \<and> session_key c' \<notin> set (live_keys h) \<and> live_keys h' = session_key c' # live_keys h)"

lemma derive_session_key_live:
  assumes ids: "psa_key_ids E"
  shows "wp (derive_session_key E c) (\<lambda>r s'. key_made c (hist s) (snd r) (hist s')) s"
proof -
  have new: "snd (psa_import_key (psa E) h b) \<notin> set (live_keys (hist s))"
    if "fst (psa_import_key (psa E) h b) = 0" "live_keys h = live_keys (hist s)" for h b
    using psa_key_idsD(2) [OF ids that(1)] that(2) by simp
  show ?thesis
    using psa_key_idsD [OF ids] new
    by (auto simp: key_made_def derive_session_key_def mix_pop_def import_session_key_def arm_cipher_def Let_def)
qed

lemma sec1_dispatch_live:
  assumes ids: "psa_key_ids E"
  shows "wp (sec1_dispatch E c b) (\<lambda>r s'. key_made c (hist s) (snd r) (hist s') \<and>
     (\<not> is_cmd0 E b \<longrightarrow> session_key (snd r) = session_key c \<and> live_keys (hist s') = live_keys (hist s))) s"
proof -
  have r0: "wp (build_resp0 E d) (\<lambda>_ s'. P (live_keys (hist s'))) t" if "P (live_keys (hist t))" for d P t
    unfolding build_resp0_def
    by (rule wp_mono [OF pb_encode_spec]) (use that in \<open>auto dest!: live_keys_pb\<close>)
  have r1: "wp (build_resp1 E w) (\<lambda>_ s'. P (live_keys (hist s'))) t" if "P (live_keys (hist t))" for w P t
    unfolding build_resp1_def
    by (rule wp_mono [OF pb_encode_spec]) (use that in \<open>auto dest!: live_keys_pb\<close>)
  have c0: "wp (handle_cmd0 E c p) (\<lambda>r s'. key_made c (hist s) (snd r) (hist s')) s" for p
    unfolding handle_cmd0_def Let_def
    by (auto simp: key_made_def intro!: wp_mono [OF derive_session_key_live [OF ids]] r0)
  have c1: "wp (handle_cmd1 E c p) (\<lambda>r s'. device_key (snd r) = device_key c \<and>
     session_key (snd r) = session_key c \<and> live_keys (hist s') = live_keys (hist s)) s" for p
    unfolding handle_cmd1_def Let_def by (auto intro!: r1)
  have same: "key_made c h c h" for h by (simp add: key_made_def)
  show ?thesis
    unfolding sec1_dispatch_def is_cmd0_def
    by (auto simp: same intro!: wp_mono [OF c0] wp_mono [OF c1] split: option.split SecSchemeVersion.split SessionProto.split
        Sec1MsgType.split) (simp_all add: key_made_def)
qed

lemma dispatch_cmd0_live:
  assumes laws: "psa_laws E dh sha aes" and ok: "psa_succeeds E" and ids: "psa_key_ids E"
    and d: "pb_decode (SessionData_codec (nanopb E)) b = Some (cmd0 pk)" "length pk = PUBKEY_LEN"
  shows "wp (sec1_dispatch E c b) (\<lambda>r s'. device_key (snd r) = device_key c \<and>
     session_key (snd r) \<notin> set (live_keys (hist s)) \<and>
     live_keys (hist s') = session_key (snd r) # live_keys (hist s)) s"
proof -
  have resp: "wp (build_resp0 E d) (\<lambda>_ s'. live_keys (hist s') = L) t" if "live_keys (hist t) = L" for d L t
    unfolding build_resp0_def
    by (rule wp_mono [OF pb_encode_spec]) (use that in \<open>auto dest!: live_keys_pb\<close>)
  have new: "snd (psa_import_key (psa E) h key) \<notin> set (live_keys h)" for h key
    using psa_key_idsD(2) [OF ids psa_succeedsD(6) [OF ok laws]] .
  have new': "snd (psa_import_key (psa E) h key) \<notin> set (live_keys (hist s))"
    if "live_keys h = live_keys (hist s)" for h key
    using new [of h key] that by simp
  show ?thesis
    using d
    by (simp add: sec1_dispatch_def cmd0_def handle_cmd0_def sc0_client_pubkey_def
        Let_def derive_session_key_def mix_pop_def import_session_key_def arm_cipher_def
        psa_succeedsD [OF ok laws] new')
      (simp add: resp)
qed

lemma sec1_init_live:
  assumes ids: "psa_key_ids E"
  shows "wp (sec1_init E pp) (\<lambda>r s'. (case snd r of
      None \<Rightarrow> live_keys (hist s') = live_keys (hist s)
    | Some x \<Rightarrow> \<exists>c. x = Sec1_object c \<and> session_key c = 0 \<and> 0 < device_key c \<and>
        live_keys (hist s') = device_key c # live_keys (hist s))) s"
  using psa_key_idsD(4) [OF ids]
  by (auto simp: sec1_init_def Let_def sec1_store_pop_def sec1_zero_def split: option.split)

text \<open>A whole session on its context: handshake messages and payloads (encrypted or decrypted) in any order.\<close>

datatype session_op = Handshake bytes | Payload bytes

fun sec1_session :: "env \<Rightarrow> session_ctx \<Rightarrow> session_op list \<Rightarrow> ('z kst_scheme, session_ctx) state" where
  "sec1_session E x [] = ret x"
| "sec1_session E x (Handshake b # ops) = do {
     h \<leftarrow> sec1_handshake E (Some x) b;
     (case snd h of None \<Rightarrow> ret x | Some y \<Rightarrow> sec1_session E y ops) }"
| "sec1_session E x (Payload b # ops) = do {
     h \<leftarrow> sec1_encrypt E (Some x) b;
     (case snd h of None \<Rightarrow> ret x | Some y \<Rightarrow> sec1_session E y ops) }"

fun count_cmd0 :: "env \<Rightarrow> session_op list \<Rightarrow> nat" where
  "count_cmd0 E [] = 0"
| "count_cmd0 E (Handshake b # ops) = (if is_cmd0 E b then 1 else 0) + count_cmd0 E ops"
| "count_cmd0 E (Payload b # ops) = count_cmd0 E ops"

text \<open>The keys of a session that has seen \<open>n\<close> Cmd0 messages, over the keys \<open>L\<close> that others hold: the session key, the keys
  that were lost and the device key.\<close>

definition session_keys :: "nat \<Rightarrow> sec1_ctx \<Rightarrow> nat list \<Rightarrow> history \<Rightarrow> bool" where
  "session_keys n c L h \<longleftrightarrow> 0 < device_key c \<and> device_key c \<noteq> session_key c \<and> (session_key c \<noteq> 0 \<longrightarrow> 0 < n) \<and>
     (\<exists>lost. length lost \<le> n - 1 \<and> device_key c \<notin> set lost \<and>
       live_keys h = (if session_key c = 0 then [] else [session_key c]) @ lost @ device_key c # L)"

lemma session_keys_step:
  assumes "session_keys n c L h" "key_made c h c' h'"
  shows "session_keys (Suc n) c' L h'"
proof -
  obtain lost where lost: "length lost \<le> n - 1" "device_key c \<notin> set lost"
      "live_keys h = (if session_key c = 0 then [] else [session_key c]) @ lost @ device_key c # L"
    and c: "0 < device_key c" "device_key c \<noteq> session_key c" "session_key c \<noteq> 0 \<longrightarrow> 0 < n"
    using assms(1) by (auto simp: session_keys_def)
  let ?lost = "(if session_key c = 0 then [] else [session_key c]) @ lost"
  have more: "length ?lost \<le> Suc n - 1" "device_key c \<notin> set ?lost" using lost c by auto
  from assms(2) consider (same) "session_key c' = session_key c" "live_keys h' = live_keys h"
    | (none) "session_key c' = 0" "live_keys h' = live_keys h"
    | (new) "0 < session_key c'" "session_key c' \<notin> set (live_keys h)" "live_keys h' = session_key c' # live_keys h"
    by (auto simp: key_made_def)
  then show ?thesis
  proof cases
    case same
    with assms(2) lost c show ?thesis by (auto simp: session_keys_def key_made_def intro!: exI [of _ lost])
  next
    case none
    with assms(2) lost(3) c more show ?thesis by (auto simp: session_keys_def key_made_def intro!: exI [of _ ?lost])
  next
    case new
    with assms(2) lost(3) c more show ?thesis by (auto simp: session_keys_def key_made_def intro!: exI [of _ ?lost])
  qed
qed

lemma sec1_session_keys:
  assumes "psa_key_ids E" "session_keys n c L (hist s)"
  shows "wp (sec1_session E (Sec1_object c) ops) (\<lambda>x s'. \<exists>c'. x = Sec1_object c' \<and> session_keys (n + count_cmd0 E ops) c' L (hist s')) s"
  using assms(2)
proof (induction ops arbitrary: n c s)
  case (Cons op ops)
  show ?case
  proof (cases op)
    case (Handshake b)
    have next_keys: "session_keys (n + (if is_cmd0 E b then 1 else 0)) c' L h'"
      if "key_made c (hist s) c' h' \<and> (\<not> is_cmd0 E b \<longrightarrow> session_key c' = session_key c \<and> live_keys h' = live_keys (hist s))" for c' h'
      using that session_keys_step [OF Cons.prems, of c' h'] Cons.prems by (auto simp: session_keys_def key_made_def)
    have "wp (sec1_dispatch E c b) (\<lambda>r. wp (sec1_session E (Sec1_object (snd r)) ops) (\<lambda>x s'. \<exists>c'. x = Sec1_object c' \<and>
        session_keys (n + (if is_cmd0 E b then 1 else 0) + count_cmd0 E ops) c' L (hist s'))) s"
      by (rule wp_mono [OF sec1_dispatch_live [OF assms(1)]]) (rule Cons.IH, erule next_keys)
    then show ?thesis by (cases "is_cmd0 E b") (simp_all add: Handshake sec1_handshake_def)
  next
    case (Payload b)
    have keep: "session_keys n (c\<lparr>cipher := x\<rparr>) L h" if "live_keys h = live_keys (hist s)" for x h
      using Cons.prems that by (auto simp: session_keys_def)
    show ?thesis using Cons.prems
      by (auto simp: Payload sec1_encrypt_def intro!: Cons.IH keep)
  qed
qed simp

section \<open>A concrete PSA\<close>

text \<open>A small crypto library that behaves as documented, for evaluating the scheme on a concrete
  session: constant shared secret and hash, a counter as keystream, fresh key identifiers.\<close>

definition demo_dh :: "nat \<Rightarrow> bytes \<Rightarrow> bytes" where "demo_dh k pk = replicate 32 9"
definition demo_sha :: "bytes \<Rightarrow> bytes" where "demo_sha b = replicate 32 5"
definition demo_aes :: "bytes \<Rightarrow> bytes \<Rightarrow> nat \<Rightarrow> byte" where "demo_aes key iv i = hd key + hd iv"

fun fresh_id :: "history \<Rightarrow> nat" where
  "fresh_id [] = 1"
| "fresh_id (Psa (Psa_import_key b (Some k)) # h) = k + fresh_id h"
| "fresh_id (Psa (Psa_generate_key (Some k)) # h) = k + fresh_id h"
| "fresh_id (c # h) = fresh_id h"

fun parse_op :: "psa_cipher_operation \<Rightarrow> (nat \<times> bytes \<times> nat) option" where
  "parse_op [Cipher_set_iv iv, Cipher_setup k] = Some (k, iv, 0)"
| "parse_op (Cipher_update n # x) = (case parse_op x of None \<Rightarrow> None | Some (k, iv, m) \<Rightarrow> Some (k, iv, m + n))"
| "parse_op x = None"

definition demo_update :: "history \<Rightarrow> psa_cipher_operation \<Rightarrow> bytes \<Rightarrow> int \<times> bytes" where
  "demo_update h x b = (case parse_op x of None \<Rightarrow> (- 137, [])
     | Some (k, iv, pos) \<Rightarrow> (case imported h k of None \<Rightarrow> (- 136, [])
         | Some key \<Rightarrow> (0, xor_bytes b (keystream demo_aes key iv pos (length b)))))"

text \<open>The client of this session: its key is all ones and its verify data is computed from the
  secret 9 XOR 5 and the random 3.\<close>

definition demo_session :: "SessionData codec" where
  "demo_session = \<lparr>pb_decode = (\<lambda>b. if b = [0] then Some (cmd0 (replicate 32 1))
       else if b = [1] then Some (cmd1 (replicate 32 8)) else None),
     pb_get_encoded_size = (\<lambda>_. Some 1), pb_encode = (\<lambda>_ _. Some [7])\<rparr>"

definition demo_sec1_env :: env where
  "demo_sec1_env = ok_env
     \<lparr>nanopb := ok_nanopb\<lparr>SessionData_codec := demo_session\<rparr>,
      psa := ok_psa\<lparr>psa_raw_key_agreement := (\<lambda>_ k pk. (0, demo_dh k pk)),
        psa_hash_compute := (\<lambda>_ b. (0, demo_sha b)), psa_import_key := (\<lambda>h _. (0, fresh_id h)),
        psa_generate_key := (\<lambda>h. (0, fresh_id h)), psa_cipher_update := demo_update\<rparr>\<rparr>"

lemma fresh_id_pos [simp]: "0 < fresh_id h"
  by (induction h rule: fresh_id.induct) auto

lemma fresh_id_mono: "fresh_id h \<le> fresh_id (c # h)"
  by (cases "c # h" rule: fresh_id.cases) auto

lemma imported_Cons:
  "imported (c # h) k = Some b \<Longrightarrow> imported h k = Some b \<or> c = Psa (Psa_import_key b (Some k))"
  by (cases "(c # h, k)" rule: imported.cases) (auto split: if_splits)

lemma live_keys_Cons: "k \<in> set (live_keys (c # h)) \<Longrightarrow> k \<in> set (live_keys h) \<or>
    c = Psa (Psa_generate_key (Some k)) \<or> (\<exists>b. c = Psa (Psa_import_key b (Some k)))"
  using set_remove1_subset by (cases "c # h" rule: live_keys.cases) force+

lemma imported_fresh: "imported h k = Some b \<Longrightarrow> k < fresh_id h"
proof (induction h)
  case (Cons c h)
  then show ?case using fresh_id_mono [of h c] by (auto dest!: imported_Cons)
qed simp

lemma live_fresh: "k \<in> set (live_keys h) \<Longrightarrow> k < fresh_id h"
proof (induction h)
  case (Cons c h)
  then show ?case using fresh_id_mono [of h c] by (auto dest!: live_keys_Cons)
qed simp

lemma parse_ctr_op: "parse_op (ctr_op k iv ns) = Some (k, iv, sum_list ns)"
  by (induction ns) (simp_all add: ctr_op_def)

lemma parse_op_Some: "parse_op x = Some r \<Longrightarrow> \<exists>k iv ns. x = ctr_op k iv ns"
proof (induction x arbitrary: r rule: parse_op.induct)
  case (1 iv k)
  show ?case by (intro exI [of _ k] exI [of _ iv] exI [of _ "[]"]) (simp add: ctr_op_def)
next
  case (2 n x)
  then obtain k iv ns where "x = ctr_op k iv ns" by (auto split: option.splits)
  then have "Cipher_update n # x = ctr_op k iv (n # ns)" by (simp add: ctr_op_def)
  then show ?case by blast
qed auto

lemma demo_psa_laws: "psa_laws demo_sec1_env demo_dh demo_sha demo_aes"
proof -
  have "imported h (fresh_id h) = None" for h
    using imported_fresh [of h "fresh_id h"] by (cases "imported h (fresh_id h)") auto
  moreover have "fst (demo_update h x b) \<noteq> 0" if "\<nexists>k iv ns. x = ctr_op k iv ns" for h x b
    using that parse_op_Some [of x] by (cases "parse_op x") (auto simp: demo_update_def)
  ultimately show ?thesis
    by (simp add: psa_laws_def demo_sec1_env_def demo_update_def parse_ctr_op ok_psa_def)
qed

lemma demo_psa_succeeds: "psa_succeeds demo_sec1_env"
  by (simp add: psa_succeeds_def demo_sec1_env_def ok_psa_def demo_dh_def demo_sha_def)

lemma demo_psa_key_ids: "psa_key_ids demo_sec1_env"
  using live_fresh by (fastforce simp: psa_key_ids_def demo_sec1_env_def Let_def)

definition demo_ctx :: sec1_ctx where
  "demo_ctx = sec1_zero\<lparr>s1_pop := memcpy (zeros POP_MAX) (bytes_of_string ''abcd''), s1_pop_len := 4,
     device_key := 1, device_pubkey := replicate 32 7\<rparr>"

definition demo_kst :: kst where "demo_kst = \<lparr>hist = [], fault = False\<rparr>"

lemma demo_init: "fst (run_state (sec1_init demo_sec1_env (Some ''abcd'')) demo_kst) =
    (0, Some (Sec1_object demo_ctx))"
  by (simp add: sec1_init_def demo_sec1_env_def ok_env_defs ask_def k_malloc_def ext_call_def
      demo_kst_def demo_ctx_def sec1_store_pop_def sec1_zero_def Let_def memcpy_full)

lemma xor_bytes_replicate: "xor_bytes (replicate n a) (replicate n b) = replicate n (a XOR b)"
  by (induction n) auto

lemma demo_keystream: "keystream demo_aes key iv pos n = replicate n (hd key + hd iv)"
  by (simp add: keystream_def list_eq_iff_nth_eq demo_aes_def)

lemma demo_secret: "session_secret demo_dh demo_sha demo_ctx pk = replicate 32 12"
  by (simp add: session_secret_def demo_ctx_def demo_dh_def demo_sha_def xor_bytes_replicate)

text \<open>Cmd0 and Cmd1 together.\<close>

lemma honest_handshake:
  assumes laws: "psa_laws E dh sha aes" and ok: "psa_succeeds E"
    and un: "\<And>h. length (uninit (kern E) h PUBKEY_LEN) = PUBKEY_LEN"
    and wf: "length (device_pubkey c) = PUBKEY_LEN" "length (client_pubkey c) = PUBKEY_LEN"
      "length (device_random c) = RANDOM_LEN"
    and d0: "pb_decode (SessionData_codec (nanopb E)) b0 = Some (cmd0 pk)" "length pk = PUBKEY_LEN"
    and d1: "pb_decode (SessionData_codec (nanopb E)) b1 = Some (cmd1 v)" "length v = PUBKEY_LEN"
    and iv: "iv = snd (psa_generate_random (psa E) (hist s) RANDOM_LEN)"
    and key: "key = session_secret dh sha c pk"
  shows "wp (do { r0 \<leftarrow> sec1_handshake E (Some (Sec1_object c)) b0; sec1_handshake E (snd r0) b1 })
    (\<lambda>r s'. if v = xor_bytes (device_pubkey c) (keystream aes key iv 0 PUBKEY_LEN)
       then (\<exists>c'. snd r = Some (Sec1_object c') \<and> established c' (hist s') key iv [PUBKEY_LEN, PUBKEY_LEN]) \<and>
         (\<forall>bs. snd (fst r) = Some bs \<longrightarrow> encodes (SessionData_codec (nanopb E))
           (resp1 (xor_bytes pk (keystream aes key iv PUBKEY_LEN PUBKEY_LEN))) bs)
       else fst r = (- EACCES, None) \<and>
         (\<exists>c'. snd r = Some (Sec1_object c') \<and> s1_state c' = SEC1_CMD0_DONE)) s"
proof -
  have hs: "wp (sec1_handshake E (Some (Sec1_object x)) b) Q t =
      wp (sec1_dispatch E x b) (\<lambda>r s'. Q (fst r, Some (Sec1_object (snd r))) s') t" for x b Q t
    by (simp add: sec1_handshake_def as_sec1_def)
  show ?thesis
    unfolding wp_bind hs
  proof (rule wp_mono [OF dispatch_cmd0 [OF laws ok d0 wf(2,3) iv]])
    fix r0 s1
    assume "s1_state (snd r0) = SEC1_CMD0_DONE \<and> same_identity c (snd r0) \<and>
      client_pubkey (snd r0) = pk \<and> (\<exists>k. cipher (snd r0) = ctr_op k iv [] \<and>
        imported (hist s1) k = Some (session_secret dh sha c pk))"
    then obtain k where 1: "s1_state (snd r0) = SEC1_CMD0_DONE" "cipher (snd r0) = ctr_op k iv []"
      "imported (hist s1) k = Some key" "client_pubkey (snd r0) = pk"
      "device_pubkey (snd r0) = device_pubkey c"
      by (auto simp: same_identity_def key)
    show "wp (sec1_handshake E (snd (fst r0, Some (Sec1_object (snd r0)))) b1)
      (\<lambda>r s'. if v = xor_bytes (device_pubkey c) (keystream aes key iv 0 PUBKEY_LEN)
       then (\<exists>c'. snd r = Some (Sec1_object c') \<and> established c' (hist s') key iv [PUBKEY_LEN, PUBKEY_LEN]) \<and>
         (\<forall>bs. snd (fst r) = Some bs \<longrightarrow> encodes (SessionData_codec (nanopb E))
           (resp1 (xor_bytes pk (keystream aes key iv PUBKEY_LEN PUBKEY_LEN))) bs)
       else fst r = (- EACCES, None) \<and>
         (\<exists>c'. snd r = Some (Sec1_object c') \<and> s1_state c' = SEC1_CMD0_DONE)) s1"
      unfolding snd_conv hs
      by (rule wp_mono [OF dispatch_cmd1 [OF laws d1 1(1-3) _ _ un]]) (use 1 wf d0 in auto)
  qed
qed

section \<open>Properties\<close>

text \<open>C1. Scheme 1 authenticates the client: under the documented behaviour of PSA, in every
  session context that is reachable from \<open>sec1_init\<close> by any sequence of (possibly malformed,
  repeated or reordered) handshake messages, encryptions and decryptions, the state
  \<open>SEC1_DONE\<close> implies that the device received its own public key encrypted with the AES-CTR
  keystream of a key that is the ECDH secret of some client key XORed with the hash of the
  device's proof of possession.\<close>

theorem sec1_done_only_with_proof:
  assumes "psa_laws E dh sha aes" and "sec1_reach E c s" and "s1_state c = SEC1_DONE"
  shows "proof_given dh sha aes c (hist s)"
  using sec1_reach_inv [OF assms(1,2)] assms(3) by blast

theorem sec1_done_only_with_proof_witness:
  "\<exists>c (s :: kst). sec1_reach demo_sec1_env c s \<and> s1_state c = SEC1_DONE \<and>
     proof_given demo_dh demo_sha demo_aes c (hist s)"
proof -
  let ?E = demo_sec1_env and ?pk = "replicate 32 1 :: bytes"
  obtain s1 where 1: "run_state (sec1_init ?E (Some ''abcd'')) demo_kst = ((0, Some (Sec1_object demo_ctx)), s1)"
    using demo_init by (metis prod.collapse)
  have len: "length (client_pubkey demo_ctx) = PUBKEY_LEN" "length (device_random demo_ctx) = RANDOM_LEN"
    "length (device_pubkey demo_ctx) = PUBKEY_LEN"
    by (simp_all add: demo_ctx_def sec1_zero_def)
  have dec: "pb_decode (SessionData_codec (nanopb ?E)) [0] = Some (cmd0 ?pk)"
    "pb_decode (SessionData_codec (nanopb ?E)) [1] = Some (cmd1 (replicate 32 8))"
    by (simp_all add: demo_sec1_env_def demo_session_def)
  have iv: "snd (psa_generate_random (psa ?E) h RANDOM_LEN) = replicate 16 3" for h
    by (simp add: demo_sec1_env_def ok_psa_def)
  obtain r1 c1 s2 where 2: "run_state (sec1_dispatch ?E demo_ctx [0]) s1 = ((r1, c1), s2)"
    by (metis prod.collapse)
  from wp_runD [OF dispatch_cmd0 [OF demo_psa_laws demo_psa_succeeds dec(1) _ len(1,2) refl] 2]
  obtain k where c1: "s1_state c1 = SEC1_CMD0_DONE" "same_identity demo_ctx c1" "client_pubkey c1 = ?pk"
    "cipher c1 = ctr_op k (replicate 16 3) []"
    "imported (hist s2) k = Some (session_secret demo_dh demo_sha demo_ctx ?pk)" by (auto simp: iv)
  obtain r2 c2 s3 where 3: "run_state (sec1_dispatch ?E c1 [1]) s2 = ((r2, c2), s3)"
    by (metis prod.collapse)
  have un: "\<And>h. length (uninit (kern ?E) h PUBKEY_LEN) = PUBKEY_LEN"
    by (simp add: demo_sec1_env_def ok_env_defs)
  have pub: "device_pubkey c1 = replicate 32 7" using c1(2) by (simp add: same_identity_def demo_ctx_def)
  have "replicate 32 8 = xor_bytes (device_pubkey c1) (keystream demo_aes
      (session_secret demo_dh demo_sha demo_ctx ?pk) (replicate 16 3) (sum_list []) PUBKEY_LEN)"
    by (simp add: pub demo_secret demo_keystream xor_bytes_replicate)
  then have "s1_state c2 = SEC1_DONE"
    using wp_runD [OF dispatch_cmd1 [OF demo_psa_laws dec(2) _ c1(1,4,5) _ _ un] 3]
    by (simp add: pub c1(3) established_def)
  moreover have "sec1_reach ?E c2 s3"
    using sec1_reach.init [OF 1] 2 3
    by (meson sec1_handshake_obj sec1_reach.handshake)
  ultimately show ?thesis using sec1_done_only_with_proof [OF demo_psa_laws] by blast
qed

text \<open>C15. The handshake accepts exactly the right client: a Cmd0 with a client key followed by a
  Cmd1 establishes the session if and only if the verify data is the device's public key XOR the
  first 32 keystream bytes of the session key; then the answer carries the client's key XOR
  keystream bytes 32 to 63 and the cipher stands at position 64. Any other verify data is
  refused with \<open>-EACCES\<close> and no answer, and the session is not established.\<close>

theorem sec1_handshake_accepts_exactly:
  assumes "psa_laws E dh sha aes" and "psa_succeeds E"
    and "\<And>h. length (uninit (kern E) h PUBKEY_LEN) = PUBKEY_LEN"
    and "length (device_pubkey c) = PUBKEY_LEN" "length (client_pubkey c) = PUBKEY_LEN"
      "length (device_random c) = RANDOM_LEN"
    and "pb_decode (SessionData_codec (nanopb E)) b0 = Some (cmd0 pk)" "length pk = PUBKEY_LEN"
    and "pb_decode (SessionData_codec (nanopb E)) b1 = Some (cmd1 v)" "length v = PUBKEY_LEN"
    and "iv = snd (psa_generate_random (psa E) (hist s) RANDOM_LEN)"
    and "key = session_secret dh sha c pk"
  shows "wp (do { r0 \<leftarrow> sec1_handshake E (Some (Sec1_object c)) b0; sec1_handshake E (snd r0) b1 })
    (\<lambda>r s'. if v = xor_bytes (device_pubkey c) (keystream aes key iv 0 PUBKEY_LEN)
       then (\<exists>c'. snd r = Some (Sec1_object c') \<and> established c' (hist s') key iv [PUBKEY_LEN, PUBKEY_LEN]) \<and>
         (\<forall>bs. snd (fst r) = Some bs \<longrightarrow> encodes (SessionData_codec (nanopb E))
           (resp1 (xor_bytes pk (keystream aes key iv PUBKEY_LEN PUBKEY_LEN))) bs)
       else fst r = (- EACCES, None) \<and>
         (\<exists>c'. snd r = Some (Sec1_object c') \<and> s1_state c' = SEC1_CMD0_DONE)) s"
  using assms by (rule honest_handshake)

theorem sec1_handshake_accepts_exactly_witness:
  "wp (do { r0 \<leftarrow> sec1_handshake demo_sec1_env (Some (Sec1_object demo_ctx)) [0];
            sec1_handshake demo_sec1_env (snd r0) [1] })
    (\<lambda>r s'. \<exists>c'. snd r = Some (Sec1_object c') \<and>
      established c' (hist s') (replicate 32 12) (replicate 16 3) [PUBKEY_LEN, PUBKEY_LEN]) demo_kst"
proof -
  have v: "replicate 32 8 = xor_bytes (device_pubkey demo_ctx)
      (keystream demo_aes (replicate 32 12) (replicate 16 3) 0 PUBKEY_LEN)"
    by (simp add: demo_ctx_def demo_keystream xor_bytes_replicate)
  have "wp (do { r0 \<leftarrow> sec1_handshake demo_sec1_env (Some (Sec1_object demo_ctx)) [0];
            sec1_handshake demo_sec1_env (snd r0) [1] })
    (\<lambda>r s'. if replicate 32 8 = xor_bytes (device_pubkey demo_ctx)
         (keystream demo_aes (replicate 32 12) (replicate 16 3) 0 PUBKEY_LEN)
       then (\<exists>c'. snd r = Some (Sec1_object c') \<and>
           established c' (hist s') (replicate 32 12) (replicate 16 3) [PUBKEY_LEN, PUBKEY_LEN]) \<and>
         (\<forall>bs. snd (fst r) = Some bs \<longrightarrow> encodes (SessionData_codec (nanopb demo_sec1_env))
           (resp1 (xor_bytes (replicate 32 1)
             (keystream demo_aes (replicate 32 12) (replicate 16 3) PUBKEY_LEN PUBKEY_LEN))) bs)
       else fst r = (- EACCES, None) \<and>
         (\<exists>c'. snd r = Some (Sec1_object c') \<and> s1_state c' = SEC1_CMD0_DONE)) demo_kst"
    by (rule sec1_handshake_accepts_exactly [OF demo_psa_laws demo_psa_succeeds])
      (simp_all add: demo_secret, simp_all add: demo_sec1_env_def ok_env_defs demo_ctx_def
        sec1_zero_def demo_session_def)
  then show ?thesis by (rule wp_mono) (use v in auto)
qed

text \<open>C16. An established session is one keystream in lock-step: whatever sequence of payloads is
  encrypted or decrypted, every call succeeds, keeps the length, and the outputs together are the
  inputs together XOR the contiguous part of the keystream that starts at the session's
  position.\<close>

theorem sec1_channel_lockstep:
  assumes "psa_laws E dh sha aes" and "established c (hist s) key iv ns"
  shows "wp (sec1_messages E (Some (Sec1_object c)) ms) (\<lambda>r s'.
       map fst (fst r) = replicate (length ms) 0 \<and>
       map (length \<circ> snd) (fst r) = map length ms \<and>
       concat (map snd (fst r)) =
         xor_bytes (concat ms) (keystream aes key iv (sum_list ns) (length (concat ms)))) s"
  using assms by (rule sec1_messages_stream)

theorem sec1_channel_lockstep_witness:
  "wp (sec1_messages demo_sec1_env (Some (Sec1_object
        (demo_ctx\<lparr>s1_state := SEC1_DONE, cipher := ctr_op 2 [3] [32, 32]\<rparr>))) [[1, 2], [3]])
     (\<lambda>r s'. map fst (fst r) = replicate (length [[1, 2], [3 :: byte]]) 0 \<and>
        map (length \<circ> snd) (fst r) = map length [[1, 2], [3 :: byte]] \<and>
        concat (map snd (fst r)) = xor_bytes (concat [[1, 2], [3]])
          (keystream demo_aes [12] [3] (sum_list [32, 32]) (length (concat [[1, 2], [3 :: byte]]))))
     \<lparr>hist = [Psa (Psa_import_key [12] (Some 2))], fault = False\<rparr>"
  by (rule sec1_channel_lockstep [OF demo_psa_laws]) (simp add: established_def)

text \<open>C26. What a session leaves of its PSA keys. After \<open>sec1_init\<close>, any sequence of handshake messages and payloads of any
  content, on every success and error path, and \<open>sec1_cleanup\<close>, the keys alive are those that were alive before
  and at most one key for each Cmd0 after the first: a session with at most one Cmd0, an established one
  included, releases every key that it made.\<close>

theorem sec1_session_releases_keys:
  assumes "psa_key_ids E"
  shows "wp (do { r \<leftarrow> sec1_init E pp;
       (case snd r of None \<Rightarrow> ret () | Some x \<Rightarrow> do { y \<leftarrow> sec1_session E x ops; sec1_cleanup y }) })
     (\<lambda>_ s'. \<exists>lost. live_keys (hist s') = lost @ live_keys (hist s) \<and> length lost \<le> count_cmd0 E ops - 1) s"
proof -
  let ?Q = "\<lambda>s'. \<exists>lost. live_keys (hist s') = lost @ live_keys (hist s) \<and> length lost \<le> count_cmd0 E ops - 1"
  have close: "wp (sec1_cleanup (Sec1_object c)) (\<lambda>_. ?Q) t"
    if "session_keys (0 + count_cmd0 E ops) c (live_keys (hist s)) (hist t)" for c t
    using that by (auto simp: sec1_cleanup_def session_keys_def remove1_append)
  have "wp (sec1_session E (Sec1_object c) ops) (\<lambda>y. wp (sec1_cleanup y) (\<lambda>_. ?Q)) t"
    if "session_key c = 0" "0 < device_key c" "live_keys (hist t) = device_key c # live_keys (hist s)" for c t
    by (rule wp_mono [OF sec1_session_keys [OF assms, of 0 c "live_keys (hist s)"]])
      (use that close in \<open>auto simp: session_keys_def\<close>)
  then show ?thesis
    by (auto intro!: wp_mono [OF sec1_init_live [OF assms]] split: option.split)
qed

theorem sec1_session_releases_keys_witness:
  "wp (do { r \<leftarrow> sec1_init demo_sec1_env (Some ''abcd'');
       (case snd r of None \<Rightarrow> ret () | Some x \<Rightarrow> do {
          y \<leftarrow> sec1_session demo_sec1_env x [Handshake [0], Handshake [1], Payload [5]]; sec1_cleanup y }) })
     (\<lambda>_ s'. live_keys (hist s') = live_keys (hist demo_kst)) demo_kst"
proof -
  have "count_cmd0 demo_sec1_env [Handshake [0], Handshake [1], Payload [5]] = 1"
    by (simp add: is_cmd0_def demo_sec1_env_def demo_session_def cmd0_def cmd1_def)
  with sec1_session_releases_keys [OF demo_psa_key_ids, of "Some ''abcd''" "[Handshake [0], Handshake [1], Payload [5]]" demo_kst]
  show ?thesis by (auto elim!: wp_mono)
qed

text \<open>C27. A second Cmd0 in the same session leaks a PSA key: the previous session key is
  overwritten in the context, so the clean-up no longer destroys it and it stays alive.\<close>

theorem sec1_repeated_cmd0_leaks_key:
  assumes "psa_laws E dh sha aes" and "psa_succeeds E" and "psa_key_ids E"
    and "pb_decode (SessionData_codec (nanopb E)) b = Some (cmd0 pk)" and "length pk = PUBKEY_LEN"
    and "k \<in> set (live_keys (hist s))" and "session_key c = k" and "device_key c \<noteq> k"
  shows "wp (do { h \<leftarrow> sec1_handshake E (Some (Sec1_object c)) b;
       (case snd h of None \<Rightarrow> ret () | Some y \<Rightarrow> sec1_cleanup y) })
     (\<lambda>_ s'. k \<in> set (live_keys (hist s'))) s"
proof -
  have rm: "k \<in> set (remove1 y (remove1 x (x # live_keys (hist s))))"
    if "x \<notin> set (live_keys (hist s))" "y = device_key c" for x y
    using that assms(6,8) by (simp add: in_set_remove1)
  have hs: "wp (sec1_handshake E (Some (Sec1_object c)) b) Q s =
      wp (sec1_dispatch E c b) (\<lambda>r s'. Q (fst r, Some (Sec1_object (snd r))) s') s" for Q
    by (simp add: sec1_handshake_def as_sec1_def)
  show ?thesis
    unfolding wp_bind hs
    by (rule wp_mono [OF dispatch_cmd0_live [OF assms(1-5)]])
      (use assms(6,8) in \<open>auto simp: sec1_cleanup_def in_set_remove1\<close>)
qed

theorem sec1_repeated_cmd0_leaks_key_witness:
  "wp (do { h \<leftarrow> sec1_handshake demo_sec1_env (Some (Sec1_object (demo_ctx\<lparr>session_key := 2\<rparr>))) [0];
       (case snd h of None \<Rightarrow> ret () | Some y \<Rightarrow> sec1_cleanup y) })
     (\<lambda>_ s'. 2 \<in> set (live_keys (hist s')))
     \<lparr>hist = [Psa (Psa_import_key [12] (Some 2))], fault = False\<rparr>"
  by (rule sec1_repeated_cmd0_leaks_key [OF demo_psa_laws demo_psa_succeeds demo_psa_key_ids,
        where pk = "replicate 32 1"])
    (simp_all add: demo_sec1_env_def demo_session_def demo_ctx_def)

end
