(* ===== verification/Prov_State.thy ===== *)
theory Prov_State
  imports Security1
begin

text \<open>
  The static data of the program: one record for the static variables of each C file, and the
  record \<open>world\<close> that holds them all on top of the protocomm instances. Function pointers are
  values of \<open>handler_ref\<close>, \<open>security_ref\<close> and \<open>scheme_ref\<close>; the functions behind them are linked in
  the theory that knows all of them. This theory also has \<open>network_prov_emit_event\<close>
  (network_prov_mgr.c), through which every component reports to the application.
\<close>

section \<open>The manager\<close>

datatype handler_ref =
    H_wifi_scan | H_wifi_config | H_wifi_ctrl
  | H_thread_scan | H_thread_config | H_thread_ctrl
  | H_custom_trampoline

text \<open>The three scheme objects, and a scheme of the application in which a function pointer is
  NULL.\<close>

datatype scheme_ref = network_prov_scheme_ble | network_prov_scheme_softap
  | network_prov_scheme_console | scheme_without_functions

text \<open>\<open>struct custom_ep\<close>: the application's handler and its context are opaque.\<close>

record custom_ep =
  ce_name :: string
  ce_handler :: "nat option"
  ce_ctx :: nat
  ce_created :: bool

record mgr_state =
  inited :: bool
  started :: bool
  scheme :: "scheme_ref option"
  event_cb :: bool
  wifi_conn_attempts :: u32
  mgr_pc :: "nat option"
  app_info_json :: string
  version_json :: string
  auto_stop :: bool
  cleanup_delay_ms :: u32
  custom :: "custom_ep list"

section \<open>The endpoint handlers\<close>

abbreviation (input) SSID_MAX :: nat where "SSID_MAX \<equiv> 32"
abbreviation (input) PASS_MAX :: nat where "PASS_MAX \<equiv> 63"
abbreviation (input) OT_DATASET_MAX :: nat where "OT_DATASET_MAX \<equiv> 254"

text \<open>\<open>wc\<close> of wifi_config_handler.c.\<close>

record wifi_config_state =
  wc_ssid :: bytes
  wc_ssid_len :: nat
  wc_pass :: bytes
  wc_pass_len :: nat
  wc_bssid :: bytes
  wc_has_bssid :: bool
  wc_channel :: u8
  inflight_ssid :: bytes
  inflight_ssid_len :: nat
  inflight_pass :: bytes
  inflight_pass_len :: nat
  inflight_bssid :: bytes
  inflight_has_bssid :: bool
  inflight_channel :: u8
  attempts_max :: u32
  attempts_completed :: u32
  attempt_failed :: bool
  last_conn_status :: int
  sta_state :: WifiStationState
  fail_reason :: WifiConnectFailedReason
  wc_cb_registered :: bool

text \<open>\<open>struct scan_entry\<close> of wifi_scan_handler.c; the array \<open>ssid\<close> with \<open>ssid_len\<close> is the list of
  the used bytes.\<close>

record scan_entry =
  se_ssid :: bytes
  se_bssid :: bytes
  se_channel :: u8
  se_rssi :: "8 word"
  se_auth :: WifiAuthMode

text \<open>\<open>sc\<close> of wifi_scan_handler.c; \<open>entries[]\<close> with \<open>count\<close> is the list of the used entries.\<close>

record wifi_scan_state =
  sc_entries :: "scan_entry list"
  sc_finished :: bool
  sc_cb_registered :: bool

text \<open>\<open>tc\<close> of thread_config_handler.c.\<close>

record thread_config_state =
  tc_mTlvs :: bytes
  tc_mLength :: nat
  dataset_staged :: bool
  tc_state :: ThreadNetworkState
  tc_fail_reason :: ThreadAttachFailedReason
  pending :: bool
  tc_cb_registered :: bool

text \<open>\<open>struct thread_scan_entry\<close> and \<open>ts\<close> of thread_scan_handler.c.\<close>

record thread_scan_entry =
  te_pan_id :: u16
  te_channel :: u8
  te_rssi :: "8 word"
  te_lqi :: u8
  te_ext_addr :: bytes
  te_ext_pan_id :: bytes
  te_network_name :: string

record thread_scan_state =
  ts_entries :: "thread_scan_entry list"
  ts_finished :: bool
  ts_in_progress :: bool

section \<open>The transports\<close>

text \<open>The statics of protocomm_console.c.\<close>

record console_state =
  con_pc :: "nat option"
  cur_session :: u32
  have_session :: bool

text \<open>The statics of protocomm_softap.c; \<open>req_buf\<close> with \<open>req_len\<close> is the list of the bytes received
  so far.\<close>

record softap_state =
  sap_pc :: "nat option"
  req_buf :: bytes
  session_valid :: bool
  session_id :: u32
  req_cookie_present :: bool
  req_cookie_id :: u32
  req_client :: "nat option"

text \<open>The statics of protocomm_ble.c.\<close>

record ep_io =
  io_name :: string
  io_resp :: bytes

record ble_state =
  ble_pc :: "nat option"
  service_uuid :: bytes
  mfg_data :: bytes
  mfg_data_len :: nat
  svc_registered :: bool
  ep_ios :: "ep_io list"
  adv_name :: string
  adv_ad :: "bt_data list"
  adv_sd :: "bt_data list"

section \<open>The whole program\<close>

record world = "(security_ref, session_ctx, handler_ref, nat) pcst" +
  mgr :: mgr_state
  wc :: wifi_config_state
  sc :: wifi_scan_state
  tc :: thread_config_state
  ts :: thread_scan_state
  con :: console_state
  sap :: softap_state
  ble :: ble_state

type_synonym 'a prog = "(world, 'a) state"

definition upd_mgr :: "(mgr_state \<Rightarrow> mgr_state) \<Rightarrow> unit prog" where
  "upd_mgr f = modify (\<lambda>s. s\<lparr>mgr := f (mgr s)\<rparr>)"

definition upd_wc :: "(wifi_config_state \<Rightarrow> wifi_config_state) \<Rightarrow> unit prog" where
  "upd_wc f = modify (\<lambda>s. s\<lparr>wc := f (wc s)\<rparr>)"

definition upd_sc :: "(wifi_scan_state \<Rightarrow> wifi_scan_state) \<Rightarrow> unit prog" where
  "upd_sc f = modify (\<lambda>s. s\<lparr>sc := f (sc s)\<rparr>)"

definition upd_tc :: "(thread_config_state \<Rightarrow> thread_config_state) \<Rightarrow> unit prog" where
  "upd_tc f = modify (\<lambda>s. s\<lparr>tc := f (tc s)\<rparr>)"

definition upd_ts :: "(thread_scan_state \<Rightarrow> thread_scan_state) \<Rightarrow> unit prog" where
  "upd_ts f = modify (\<lambda>s. s\<lparr>ts := f (ts s)\<rparr>)"

definition upd_con :: "(console_state \<Rightarrow> console_state) \<Rightarrow> unit prog" where
  "upd_con f = modify (\<lambda>s. s\<lparr>con := f (con s)\<rparr>)"

definition upd_sap :: "(softap_state \<Rightarrow> softap_state) \<Rightarrow> unit prog" where
  "upd_sap f = modify (\<lambda>s. s\<lparr>sap := f (sap s)\<rparr>)"

definition upd_ble :: "(ble_state \<Rightarrow> ble_state) \<Rightarrow> unit prog" where
  "upd_ble f = modify (\<lambda>s. s\<lparr>ble := f (ble s)\<rparr>)"

lemma wp_upd [wp, simp]:
  "wp (upd_mgr f1) Q s = Q () (s\<lparr>mgr := f1 (mgr s)\<rparr>)"
  "wp (upd_wc f2) Q s = Q () (s\<lparr>wc := f2 (wc s)\<rparr>)"
  "wp (upd_sc f3) Q s = Q () (s\<lparr>sc := f3 (sc s)\<rparr>)"
  "wp (upd_tc f4) Q s = Q () (s\<lparr>tc := f4 (tc s)\<rparr>)"
  "wp (upd_ts f5) Q s = Q () (s\<lparr>ts := f5 (ts s)\<rparr>)"
  "wp (upd_con f6) Q s = Q () (s\<lparr>con := f6 (con s)\<rparr>)"
  "wp (upd_sap f7) Q s = Q () (s\<lparr>sap := f7 (sap s)\<rparr>)"
  "wp (upd_ble f8) Q s = Q () (s\<lparr>ble := f8 (ble s)\<rparr>)"
  by (simp_all add: upd_mgr_def upd_wc_def upd_sc_def upd_tc_def upd_ts_def upd_con_def upd_sap_def
      upd_ble_def)

section \<open>The zero-initialised program\<close>

definition no_custom :: custom_ep where
  "no_custom = \<lparr>ce_name = [], ce_handler = None, ce_ctx = 0, ce_created = False\<rparr>"

definition wc_zero :: wifi_config_state where
  "wc_zero = \<lparr>wc_ssid = zeros (SSID_MAX + 1), wc_ssid_len = 0, wc_pass = zeros (PASS_MAX + 1),
     wc_pass_len = 0, wc_bssid = zeros WIFI_MAC_ADDR_LEN, wc_has_bssid = False, wc_channel = 0,
     inflight_ssid = zeros (SSID_MAX + 1), inflight_ssid_len = 0,
     inflight_pass = zeros (PASS_MAX + 1), inflight_pass_len = 0,
     inflight_bssid = zeros WIFI_MAC_ADDR_LEN, inflight_has_bssid = False, inflight_channel = 0,
     attempts_max = 0, attempts_completed = 0, attempt_failed = False, last_conn_status = 0,
     sta_state = WifiSta_Connected, fail_reason = AuthError, wc_cb_registered = False\<rparr>"

definition mgr_zero :: "env \<Rightarrow> mgr_state" where
  "mgr_zero E = \<lparr>inited = False, started = False, scheme = None, event_cb = False,
     wifi_conn_attempts = 0, mgr_pc = None, app_info_json = [], version_json = [],
     auto_stop = False, cleanup_delay_ms = 0,
     custom = replicate (MAX_CUSTOM_ENDPOINTS (cfg E)) no_custom\<rparr>"

definition tc_zero :: thread_config_state where
  "tc_zero = \<lparr>tc_mTlvs = zeros OT_DATASET_MAX, tc_mLength = 0, dataset_staged = False,
     tc_state = Thread_Attached, tc_fail_reason = DatasetInvalid, pending = False,
     tc_cb_registered = False\<rparr>"

definition ts_zero :: thread_scan_state where
  "ts_zero = \<lparr>ts_entries = [], ts_finished = False, ts_in_progress = False\<rparr>"

text \<open>The base service UUID of protocomm_ble.c (021a9004-0382-4aea-bff4-6b3f1c5adfb4, encoded little
  endian).\<close>

definition prov_service_uuid :: bytes where
  "prov_service_uuid = [180, 223, 90, 28, 63, 107, 244, 191, 234, 74, 130, 3, 4, 144, 26, 2]"

definition boot_world :: "env \<Rightarrow> world" where
  "boot_world E = \<lparr>hist = [], fault = False, pcs = (\<lambda>_. None), mgr = mgr_zero E, wc = wc_zero,
     sc = \<lparr>sc_entries = [], sc_finished = False, sc_cb_registered = False\<rparr>,
     tc = tc_zero, ts = ts_zero,
     con = \<lparr>con_pc = None, cur_session = 0, have_session = False\<rparr>,
     sap = \<lparr>sap_pc = None, req_buf = [], session_valid = False, session_id = 0,
       req_cookie_present = False, req_cookie_id = 0, req_client = None\<rparr>,
     ble = \<lparr>ble_pc = None, service_uuid = prov_service_uuid, mfg_data = zeros 11, mfg_data_len = 0,
       svc_registered = False, ep_ios = replicate PROTOCOMM_MAX_ENDPOINTS \<lparr>io_name = [], io_resp = []\<rparr>,
       adv_name = [], adv_ad = [], adv_sd = []\<rparr>\<rparr>"

section \<open>Events\<close>

text \<open>The application's callback is an observer: it is recorded in the history, and the calls it
  makes back into the program are further steps of the program.\<close>

definition network_prov_emit_event :: "env \<Rightarrow> network_prov_cb_event \<Rightarrow> unit prog" where
  "network_prov_emit_event E ev = do {
     cb \<leftarrow> gets (\<lambda>s. event_cb (mgr s));
     if_do cb (ext_call (App (App_event ev)));
     if ev = NETWORK_PROV_CRED_SUCCESS
     then do {
       ext_call (Kern (K_sem_give Mgr_done));
       auto \<leftarrow> gets (\<lambda>s. started (mgr s) \<and> auto_stop (mgr s));
       if_do auto (ext_call (Kern (K_work_schedule Teardown_work (AUTOSTOP_TIMEOUT_MS (cfg E))))) }
     else ret () }"

text \<open>What an event adds to the history, newest first.\<close>

definition event_calls :: "env \<Rightarrow> mgr_state \<Rightarrow> network_prov_cb_event \<Rightarrow> call list" where
  "event_calls E m ev =
    (if ev = NETWORK_PROV_CRED_SUCCESS
     then (if started m \<and> auto_stop m
           then [Kern (K_work_schedule Teardown_work (AUTOSTOP_TIMEOUT_MS (cfg E)))] else [])
          @ [Kern (K_sem_give Mgr_done)] else []) @
    (if event_cb m then [App (App_event ev)] else [])"

lemma wp_emit_event [wp, simp]:
  "wp (network_prov_emit_event E ev) Q s = Q () (s\<lparr>hist := event_calls E (mgr s) ev @ hist s\<rparr>)"
  by (simp add: network_prov_emit_event_def event_calls_def)

lemma event_calls_readings [simp]:
  "blocks (event_calls E m ev @ h) = blocks h"
  "app_events (event_calls E m ev @ h) = (if event_cb m then ev # app_events h else app_events h)"
  "armed Retry_work (event_calls E m ev @ h) = armed Retry_work h"
  "armed Attach_timeout (event_calls E m ev @ h) = armed Attach_timeout h"
  "armed Teardown_work (event_calls E m ev @ h) \<longleftrightarrow>
     ev = NETWORK_PROV_CRED_SUCCESS \<and> started m \<and> auto_stop m \<or> armed Teardown_work h"
  "sem_given Mgr_done (event_calls E m ev @ h) \<longleftrightarrow> ev = NETWORK_PROV_CRED_SUCCESS \<or> sem_given Mgr_done h"
  "live_keys (event_calls E m ev @ h) = live_keys h"
  by (auto simp: event_calls_def)

section \<open>Frames\<close>

text \<open>\<open>same_objects\<close> for the updates of the static variables.\<close>

lemma same_objects_static [simp]:
  "same_objects s (s'\<lparr>mgr := m\<rparr>) = same_objects s s'"
  "same_objects s (s'\<lparr>wc := a\<rparr>) = same_objects s s'"
  "same_objects s (s'\<lparr>sc := b\<rparr>) = same_objects s s'"
  "same_objects s (s'\<lparr>tc := c\<rparr>) = same_objects s s'"
  "same_objects s (s'\<lparr>ts := d\<rparr>) = same_objects s s'"
  "same_objects s (s'\<lparr>con := e\<rparr>) = same_objects s s'"
  "same_objects s (s'\<lparr>sap := f\<rparr>) = same_objects s s'"
  "same_objects s (s'\<lparr>ble := g\<rparr>) = same_objects s s'"
  by (simp_all add: same_objects_def)

lemma same_objects_trans: "same_objects s t \<Longrightarrow> same_objects t u \<Longrightarrow> same_objects s u"
  by (simp add: same_objects_def)

end
