(* ===== verification/Scan_Paging.thy ===== *)
theory Scan_Paging
  imports Prov_State
begin

text \<open>
  The result paging that the two prov-scan handlers (wifi_scan_handler.c, thread_scan_handler.c)
  share: the loop that copies one page of the cached entries, the contract of a page as a locale,
  and what a client obtains that asks for page after page.
\<close>

text \<open>The loop \<open>for (uint32_t i = start; i < count && n < ARRAY_SIZE(out->entries) && n < want; i++)\<close>
  with the copy of one entry as \<open>conv\<close>; \<open>cap\<close> is the size of the array in the response.\<close>

function scan_loop :: "('e \<Rightarrow> 'm) \<Rightarrow> 'e list \<Rightarrow> nat \<Rightarrow> u32 \<Rightarrow> u32 \<Rightarrow> nat \<Rightarrow> 'm list" where
  "scan_loop conv es cap want i n =
    (if unat i < length es \<and> n < cap \<and> n < unat want
     then conv (es ! unat i) # scan_loop conv es cap want (i + 1) (n + 1)
     else [])"
  by pat_completeness auto
termination by (relation "measure (\<lambda>(conv, es, cap, want, i, n). cap - n)") auto

declare scan_loop.simps [simp del]

abbreviation (input) PAGE_ENTRIES :: nat where "PAGE_ENTRIES \<equiv> 4"

lemma unat_of_nat_u32: "n < 2 ^ 32 \<Longrightarrow> unat (of_nat n :: u32) = n"
  by (simp add: unat_of_nat take_bit_nat_eq_self)

lemma scan_loop_eq:
  "length es < 2 ^ 32 \<Longrightarrow>
    scan_loop conv es cap want i n = map conv (take (min cap (unat want) - n) (drop (unat i) es))"
proof (induction conv es cap want i n rule: scan_loop.induct)
  case (1 conv es cap want i n)
  show ?case
  proof (cases "unat i < length es \<and> n < cap \<and> n < unat want")
    case True
    have "unat i + 1 < 2 ^ 32" using True 1(2) by simp
    then have inc: "unat (i + 1) = Suc (unat i)"
      by (simp add: unat_add_lem [of i 1, THEN iffD1])
    have "min cap (unat want) - n = Suc (min cap (unat want) - Suc n)" using True by auto
    moreover have "drop (unat i) es = es ! unat i # drop (Suc (unat i)) es"
      using True by (simp add: Cons_nth_drop_Suc)
    ultimately show ?thesis
      using True 1 by (subst scan_loop.simps) (simp add: inc)
  next
    case False
    then show ?thesis by (subst scan_loop.simps) auto
  qed
qed

text \<open>The contract of a paged endpoint: a request for \<open>want\<close> entries from \<open>start\<close> on returns the
  next ones, at most a page full, and none beyond the end.\<close>

locale paged_scan =
  fixes page :: "'e list \<Rightarrow> u32 \<Rightarrow> u32 \<Rightarrow> 'm list"
    and conv :: "'e \<Rightarrow> 'm"
  assumes page_law: "length es < 2 ^ 32 \<Longrightarrow>
    page es start want = map conv (take (min PAGE_ENTRIES (unat want)) (drop (unat start) es))"
begin

lemma page_bound: "length es < 2 ^ 32 \<Longrightarrow> length (page es start want) \<le> PAGE_ENTRIES"
  by (simp add: page_law)

text \<open>A client that asks for the pages 0, 4, 8, ... gets every entry exactly once, in order.\<close>

lemma pages_from:
  assumes "length es < 2 ^ 31" and "PAGE_ENTRIES * (j + n) < 2 ^ 32"
  shows "concat (map (\<lambda>k. page es (of_nat (PAGE_ENTRIES * k)) 4) [j..<j + n]) =
    map conv (take (PAGE_ENTRIES * n) (drop (PAGE_ENTRIES * j) es))"
  using assms(2)
proof (induction n)
  case 0
  then show ?case by simp
next
  case (Suc n)
  have "unat (of_nat (PAGE_ENTRIES * (j + n)) :: u32) = PAGE_ENTRIES * (j + n)"
    using Suc.prems by (intro unat_of_nat_u32) simp
  then have "page es (of_nat (PAGE_ENTRIES * (j + n))) 4 =
      map conv (take PAGE_ENTRIES (drop (PAGE_ENTRIES * (j + n)) es))"
    using assms(1) page_law [of es] by simp
  moreover have "take (PAGE_ENTRIES * Suc n) (drop (PAGE_ENTRIES * j) es) =
      take (PAGE_ENTRIES * n) (drop (PAGE_ENTRIES * j) es) @ take PAGE_ENTRIES (drop (PAGE_ENTRIES * (j + n)) es)"
    using take_add [of "PAGE_ENTRIES * n" PAGE_ENTRIES "drop (PAGE_ENTRIES * j) es"]
    by (simp add: algebra_simps)
  moreover have "[j..<j + Suc n] = [j..<j + n] @ [j + n]" by simp
  ultimately show ?case using Suc by (simp only: map_append concat_append) simp
qed

lemma all_pages:
  assumes "length es < 2 ^ 31"
  shows "concat (map (\<lambda>k. page es (of_nat (PAGE_ENTRIES * k)) 4) [0..<(length es + 3) div 4]) = map conv es"
  using pages_from [OF assms, of 0 "(length es + 3) div 4"] assms by simp

end

end
