(* ===== verification/Wifi_Scan.thy ===== *)
theory Wifi_Scan
  imports Scan_Paging
begin

text \<open>
  \<^verbatim>\<open>src/src/wifi_scan_handler.c\<close>: the prov-scan endpoint for Wi-Fi. Scan results arrive as
  network-management events, also while a blocking request waits for the end of the scan; the
  events of such a wait are delivered to the callback before the semaphore is taken.
\<close>

section \<open>Operations\<close>

definition auth_from_zephyr :: "wifi_security_type \<Rightarrow> WifiAuthMode" where
  "auth_from_zephyr ty = (case ty of
     WIFI_SECURITY_TYPE_NONE \<Rightarrow> WifiAuthMode_Open
   | WIFI_SECURITY_TYPE_WEP \<Rightarrow> WifiAuthMode_WEP
   | WIFI_SECURITY_TYPE_PSK \<Rightarrow> WifiAuthMode_WPA2_PSK
   | WIFI_SECURITY_TYPE_PSK_SHA256 \<Rightarrow> WifiAuthMode_WPA2_PSK
   | WIFI_SECURITY_TYPE_SAE \<Rightarrow> WifiAuthMode_WPA3_PSK
   | WIFI_SECURITY_TYPE_WPA_PSK \<Rightarrow> WifiAuthMode_WPA_PSK
   | WIFI_SECURITY_TYPE_other _ \<Rightarrow> WifiAuthMode_WPA2_PSK)"

definition scan_entry_of :: "wifi_scan_result \<Rightarrow> scan_entry" where
  "scan_entry_of r = \<lparr>se_ssid = take (min (unat (sr_ssid_length r)) WIFI_SSID_MAX_LEN) (sr_ssid r),
     se_bssid = take WIFI_MAC_ADDR_LEN (sr_mac r), se_channel = sr_channel r, se_rssi = sr_rssi r,
     se_auth = auth_from_zephyr (sr_security r)\<rparr>"

definition on_scan_result :: "env \<Rightarrow> wifi_scan_result \<Rightarrow> unit prog" where
  "on_scan_result E r = do {
     n \<leftarrow> gets (\<lambda>s. length (sc_entries (sc s)));
     if n \<ge> SCAN_MAX_ENTRIES (cfg E) then ret ()
     else upd_sc (\<lambda>c. c\<lparr>sc_entries := sc_entries c @ [scan_entry_of r]\<rparr>) }"

definition wifi_scan_mgmt_event :: "env \<Rightarrow> wifi_scan_event \<Rightarrow> unit prog" where
  "wifi_scan_mgmt_event E ev = (case ev of
     SCAN_RESULT r \<Rightarrow> on_scan_result E r
   | SCAN_DONE \<Rightarrow> do {
       upd_sc (\<lambda>c. c\<lparr>sc_finished := True\<rparr>);
       ext_call (Kern (K_sem_give Wifi_scan_done_sem)) })"

definition network_prov_wifi_scan_init :: "int prog" where
  "network_prov_wifi_scan_init = do {
     reg \<leftarrow> gets (\<lambda>s. sc_cb_registered (sc s));
     if_do (\<not> reg) (do {
       ext_call (Wifi (Net_add_event_callback Wifi_scan_cb));
       upd_sc (\<lambda>c. c\<lparr>sc_cb_registered := True\<rparr>) });
     ret 0 }"

definition network_prov_wifi_scan_deinit :: "unit prog" where
  "network_prov_wifi_scan_deinit = do {
     reg \<leftarrow> gets (\<lambda>s. sc_cb_registered (sc s));
     if_do reg (do {
       ext_call (Wifi (Net_del_event_callback Wifi_scan_cb));
       upd_sc (\<lambda>c. c\<lparr>sc_cb_registered := False\<rparr>) }) }"

definition wifi_do_scan_start :: "env \<Rightarrow> Status prog" where
  "wifi_do_scan_start E = do {
     i \<leftarrow> gets (\<lambda>s. case net_if_get_wifi_sta (wifi E) (hist s) of
       Some i \<Rightarrow> Some i | None \<Rightarrow> net_if_get_first_wifi (wifi E) (hist s));
     (case i of
        None \<Rightarrow> ret Status_InternalError
      | Some ifc \<Rightarrow> do {
          upd_sc (\<lambda>c. c\<lparr>sc_entries := [], sc_finished := False\<rparr>);
          r \<leftarrow> ask (\<lambda>h. wifi_scan_ret (wifi E) h ifc) (\<lambda>_. Wifi (Wifi_scan ifc));
          if r \<noteq> 0
          then do { upd_sc (\<lambda>c. c\<lparr>sc_finished := True\<rparr>); ret Status_InternalError }
          else ret Status_Success }) }"

text \<open>\<open>k_sem_take(&scan_done_sem, SCAN_BLOCKING_TIMEOUT)\<close>: the scan events that arrive during the wait
  run first.\<close>

definition wifi_scan_wait :: "env \<Rightarrow> int prog" where
  "wifi_scan_wait E = do {
     evs \<leftarrow> gets (\<lambda>s. wifi_scan_events_during_wait (wifi E) (hist s));
     for_each (wifi_scan_mgmt_event E) evs;
     k_sem_take E Wifi_scan_done_sem (K_MSEC 10000) }"

definition wifi_scan_encode :: "env \<Rightarrow> NetworkScanPayload \<Rightarrow> (int \<times> bytes option) prog" where
  "wifi_scan_encode E resp = network_prov_pb_encode E (NetworkScan_codec (nanopb E)) resp"

definition wifi_scan_start :: "env \<Rightarrow> bool \<Rightarrow> (int \<times> bytes option) prog" where
  "wifi_scan_start E blocking = do {
     ext_call (Kern (K_sem_reset Wifi_scan_done_sem));
     st \<leftarrow> wifi_do_scan_start E;
     st \<leftarrow> (if st = Status_Success \<and> blocking
       then do { r \<leftarrow> wifi_scan_wait E; ret (if r \<noteq> 0 then Status_InternalError else st) }
       else ret st);
     wifi_scan_encode E
       \<lparr>scan_msg = TypeRespScanWifiStart, scan_status = st, scan_payload = Resp_scan_wifi_start\<rparr> }"

definition wifi_result_of :: "scan_entry \<Rightarrow> WiFiScanResult" where
  "wifi_result_of e = \<lparr>wsr_ssid = se_ssid e, wsr_channel = ucast (se_channel e),
     wsr_rssi = scast (se_rssi e), wsr_bssid = se_bssid e, wsr_auth = se_auth e\<rparr>"

definition wifi_scan_page :: "scan_entry list \<Rightarrow> u32 \<Rightarrow> u32 \<Rightarrow> WiFiScanResult list" where
  "wifi_scan_page es start want = scan_loop wifi_result_of es PAGE_ENTRIES want start 0"

definition cmd_scan_wifi_result :: "env \<Rightarrow> NetworkScanPayload \<Rightarrow> u32 \<times> u32" where
  "cmd_scan_wifi_result E req = (case scan_payload req of
     Cmd_scan_wifi_result a b \<Rightarrow> (a, b) | u \<Rightarrow> pun_scan_wifi_result (nanopb E) u)"

definition network_prov_wifi_scan_handler :: "env \<Rightarrow> bytes \<Rightarrow> (int \<times> bytes option) prog" where
  "network_prov_wifi_scan_handler E inbuf =
    (case pb_decode (NetworkScan_codec (nanopb E)) inbuf of
       None \<Rightarrow> ret (- EINVAL, None)
     | Some req \<Rightarrow>
       (case scan_msg req of
          TypeCmdScanWifiStart \<Rightarrow> wifi_scan_start E
            (case scan_payload req of Cmd_scan_wifi_start b \<Rightarrow> b | _ \<Rightarrow> False)
        | TypeCmdScanWifiStatus \<Rightarrow> do {
            c \<leftarrow> gets sc;
            wifi_scan_encode E
              \<lparr>scan_msg = TypeRespScanWifiStatus, scan_status = Status_Success,
               scan_payload = Resp_scan_wifi_status (sc_finished c) (of_nat (length (sc_entries c)))\<rparr> }
        | TypeCmdScanWifiResult \<Rightarrow> do {
            c \<leftarrow> gets sc;
            wifi_scan_encode E
              \<lparr>scan_msg = TypeRespScanWifiResult, scan_status = Status_Success,
               scan_payload = Resp_scan_wifi_result (wifi_scan_page (sc_entries c)
                 (fst (cmd_scan_wifi_result E req)) (snd (cmd_scan_wifi_result E req)))\<rparr> }
        | _ \<Rightarrow> ret (- ENOTSUP, None)))"

section \<open>Paging\<close>

interpretation wifi_pages: paged_scan wifi_scan_page wifi_result_of
  by unfold_locales (simp add: wifi_scan_page_def scan_loop_eq)

section \<open>Frame, heap and capacity\<close>

text \<open>What every operation of this file leaves alone.\<close>

definition scan_frame :: "world \<Rightarrow> world \<Rightarrow> bool" where
  "scan_frame s s' \<longleftrightarrow> s' = s\<lparr>hist := hist s', sc := sc s'\<rparr>"

lemma scan_frame_simps [simp]:
  "scan_frame s s" "scan_frame s (s'\<lparr>hist := h\<rparr>) = scan_frame s s'"
  "scan_frame s (s'\<lparr>sc := c\<rparr>) = scan_frame s s'"
  "scan_frame (s\<lparr>hist := h\<rparr>) s' = scan_frame s s'"
  "scan_frame (s\<lparr>sc := c\<rparr>) s' = scan_frame s s'"
  by (cases s; cases s'; auto simp: scan_frame_def)+

lemma scan_frameD:
  assumes "scan_frame s s'"
  shows "same_objects s s'" "mgr s' = mgr s" "wc s' = wc s" "tc s' = tc s" "ts s' = ts s"
    "con s' = con s" "sap s' = sap s" "ble s' = ble s"
  using assms by (cases s; cases s'; simp add: scan_frame_def same_objects_def)+

lemma scan_frame_only_hist: "scan_frame s t \<Longrightarrow> only_hist t u \<Longrightarrow> scan_frame s u \<and> sc u = sc t"
  by (elim only_histE) simp

text \<open>The capacity of the cache, and that the scan-done semaphore is only given when the scan is
  marked as finished.\<close>

definition scan_bound :: "env \<Rightarrow> world \<Rightarrow> nat" where
  "scan_bound E s = max (SCAN_MAX_ENTRIES (cfg E)) (length (sc_entries (sc s)))"

lemma scan_bound_le [simp]: "length (sc_entries (sc s)) \<le> scan_bound E s" "SCAN_MAX_ENTRIES (cfg E) \<le> scan_bound E s"
  by (simp_all add: scan_bound_def)

lemma scan_bound_Suc: "\<not> SCAN_MAX_ENTRIES (cfg E) \<le> n \<Longrightarrow> Suc n \<le> scan_bound E s"
  by (simp add: scan_bound_def)

definition scan_ok :: "env \<Rightarrow> world \<Rightarrow> world \<Rightarrow> bool" where
  "scan_ok E s s' \<longleftrightarrow> scan_frame s s' \<and> blocks (hist s') = blocks (hist s) \<and>
     length (sc_entries (sc s')) \<le> scan_bound E s \<and>
     (sem_given Wifi_scan_done_sem (hist s') \<longrightarrow> sc_finished (sc s'))"

lemma event_scan_ok:
  "scan_ok E s t \<Longrightarrow> wp (wifi_scan_mgmt_event E ev) (\<lambda>_. scan_ok E s) t"
  by (auto simp: wifi_scan_mgmt_event_def on_scan_result_def scan_ok_def scan_bound_Suc split: wifi_scan_event.split)

lemma wait_scan_ok:
  assumes "scan_ok E s t"
  shows "wp (wifi_scan_wait E) (\<lambda>r s'. scan_ok E s s' \<and> (sem_law E \<longrightarrow> r = 0 \<longrightarrow> sc_finished (sc s'))) t"
proof -
  have each: "wp (for_each (wifi_scan_mgmt_event E) evs) (\<lambda>_. scan_ok E s) t" for evs
    using assms by (intro wp_for_each_inv) (auto intro: event_scan_ok)
  show ?thesis
    unfolding wifi_scan_wait_def
    by simp (rule wp_mono [OF each], auto simp: scan_ok_def sem_law_def)
qed

lemma scan_start_state:
  "wp (do { ext_call (Kern (K_sem_reset Wifi_scan_done_sem));
       st \<leftarrow> wifi_do_scan_start E;
       (if st = Status_Success \<and> blocking
        then do { r \<leftarrow> wifi_scan_wait E; ret (if r \<noteq> 0 then Status_InternalError else st) }
        else ret st) })
     (\<lambda>st s'. scan_ok E s s' \<and> (sem_law E \<longrightarrow> blocking \<longrightarrow> st = Status_Success \<longrightarrow> sc_finished (sc s'))) s"
proof -
  have 1: "wp (wifi_scan_wait E) (\<lambda>r. wp (ret (if r \<noteq> 0 then Status_InternalError else Status_Success))
     (\<lambda>st s'. scan_ok E s s' \<and> (sem_law E \<longrightarrow> blocking \<longrightarrow> st = Status_Success \<longrightarrow> sc_finished (sc s')))) t"
    if "scan_ok E s t" for t
    by (rule wp_mono [OF wait_scan_ok [OF that]]) auto
  show ?thesis
    using 1 by (auto simp: wifi_do_scan_start_def scan_ok_def scan_bound_def split: option.split)
qed

text \<open>Responses of the two scan endpoints.\<close>

fun is_scan_response :: "NetworkScanMsgType \<Rightarrow> bool" where
  "is_scan_response TypeRespScanWifiStart = True"
| "is_scan_response TypeRespScanWifiStatus = True"
| "is_scan_response TypeRespScanWifiResult = True"
| "is_scan_response TypeRespScanThreadStart = True"
| "is_scan_response TypeRespScanThreadStatus = True"
| "is_scan_response TypeRespScanThreadResult = True"
| "is_scan_response _ = False"

definition scan_answer :: "env \<Rightarrow> world \<Rightarrow> (NetworkScanPayload \<Rightarrow> world \<Rightarrow> bool) \<Rightarrow>
    int \<times> bytes option \<Rightarrow> world \<Rightarrow> bool" where
  "scan_answer E s P r s' \<longleftrightarrow> scan_frame s s' \<and> out_contract (hist s) r (hist s') \<and>
     length (sc_entries (sc s')) \<le> scan_bound E s \<and>
     answers (NetworkScan_codec (nanopb E)) (\<lambda>m. is_scan_response (scan_msg m) \<and> P m s') r"

lemma scan_encode_answer:
  assumes "scan_frame s t" "blocks (hist t) = blocks (hist s)"
    "length (sc_entries (sc t)) \<le> scan_bound E s" "is_scan_response (scan_msg m)"
    "\<And>s'. sc s' = sc t \<Longrightarrow> P m s'"
  shows "wp (wifi_scan_encode E m) (scan_answer E s P) t"
  unfolding wifi_scan_encode_def
proof (rule wp_mono [OF pb_encode_spec])
  fix r and s' :: world
  assume a: "only_hist t s' \<and> pb_post (NetworkScan_codec (nanopb E)) m (hist t) r (hist s')"
  from scan_frame_only_hist [OF assms(1) conjunct1 [OF a]] have f: "scan_frame s s' \<and> sc s' = sc t" .
  from a have pb: "pb_post (NetworkScan_codec (nanopb E)) m (hist t) r (hist s')" by simp
  from out_contract_pb [OF pb assms(2)] answers_pb [OF pb] f assms(3-5)
  show "scan_answer E s P r s'" by (simp add: scan_answer_def)
qed

lemma wifi_scan_start_answer:
  "wp (wifi_scan_start E blocking) (scan_answer E s (\<lambda>m s'. scan_msg m = TypeRespScanWifiStart \<and>
     (sem_law E \<longrightarrow> blocking \<longrightarrow> scan_status m = Status_Success \<longrightarrow> sc_finished (sc s')))) s"
proof -
  have assoc: "wifi_scan_start E blocking = do { st \<leftarrow> do { ext_call (Kern (K_sem_reset Wifi_scan_done_sem));
       st \<leftarrow> wifi_do_scan_start E;
       (if st = Status_Success \<and> blocking
        then do { r \<leftarrow> wifi_scan_wait E; ret (if r \<noteq> 0 then Status_InternalError else st) }
        else ret st) };
     wifi_scan_encode E
       \<lparr>scan_msg = TypeRespScanWifiStart, scan_status = st, scan_payload = Resp_scan_wifi_start\<rparr> }"
    by (simp add: wifi_scan_start_def)
  show ?thesis
    unfolding assoc wp_bind [of "do { ext_call _; st \<leftarrow> wifi_do_scan_start E; _ st }"]
    by (rule wp_mono [OF scan_start_state])
      (auto simp: scan_ok_def intro!: scan_encode_answer)
qed

lemma wifi_scan_handler_contract:
  "wp (network_prov_wifi_scan_handler E b) (scan_answer E s (\<lambda>_ _. True)) s"
proof -
  have start: "wp (wifi_scan_start E blocking) (scan_answer E s (\<lambda>_ _. True)) s" for blocking
    by (rule wp_mono [OF wifi_scan_start_answer])
      (auto simp: scan_answer_def elim!: answers_mono)
  show ?thesis
    unfolding network_prov_wifi_scan_handler_def
    by (auto split: option.split NetworkScanMsgType.split intro!: start scan_encode_answer)
      (auto simp: scan_answer_def out_contract_refl)
qed

section \<open>Properties\<close>

text \<open>C34. Paging returns the whole scan: a client that asks the Wi-Fi scan endpoint for the pages
  that start at 0, 4, 8, ... receives every cached access point exactly once and in order (each
  page holds at most 4 entries).\<close>

theorem wifi_scan_pages_complete:
  assumes "length es < 2 ^ 31"
  shows "concat (map (\<lambda>k. wifi_scan_page es (of_nat (4 * k)) 4) [0..<(length es + 3) div 4]) =
    map wifi_result_of es"
  using assms by (rule wifi_pages.all_pages)

definition demo_entry :: "byte \<Rightarrow> scan_entry" where
  "demo_entry b = \<lparr>se_ssid = [b], se_bssid = zeros 6, se_channel = 6, se_rssi = 200, se_auth = WifiAuthMode_Open\<rparr>"

theorem wifi_scan_pages_complete_witness:
  "concat (map (\<lambda>k. wifi_scan_page (map demo_entry [1, 2, 3, 4, 5]) (of_nat (4 * k)) 4) [0..<2]) =
    map wifi_result_of (map demo_entry [1, 2, 3, 4, 5])"
  using wifi_scan_pages_complete [of "map demo_entry [1, 2, 3, 4, 5]"] by simp

text \<open>A scan request never breaks the cache and a blocking start tells the truth: every request
  leaves at most the configured number of entries cached, and when a blocking ScanStart is answered
  with Success, the scan has finished, so that the next status poll says so (under the kernel's
  semaphore semantics).\<close>

theorem wifi_blocking_scan_finished:
  assumes "sem_law E" and "length (sc_entries (sc s)) \<le> SCAN_MAX_ENTRIES (cfg E)"
  shows "wp (wifi_scan_start E True) (\<lambda>r s'. length (sc_entries (sc s')) \<le> SCAN_MAX_ENTRIES (cfg E) \<and>
     (\<forall>bs. snd r = Some bs \<longrightarrow> (\<exists>m. encodes (NetworkScan_codec (nanopb E)) m bs \<and>
       scan_msg m = TypeRespScanWifiStart \<and> (scan_status m = Status_Success \<longrightarrow> sc_finished (sc s'))))) s"
  using assms(1)
  by (intro wp_mono [OF wifi_scan_start_answer]) (use assms(2) in \<open>auto simp: scan_answer_def answers_def scan_bound_def\<close>)

theorem wifi_blocking_scan_finished_witness:
  "wp (wifi_scan_start ok_env True) (\<lambda>r s'. length (sc_entries (sc s')) \<le> 16 \<and>
     (\<forall>bs. snd r = Some bs \<longrightarrow> (\<exists>m. encodes (NetworkScan_codec (nanopb ok_env)) m bs \<and>
       scan_msg m = TypeRespScanWifiStart \<and> (scan_status m = Status_Success \<longrightarrow> sc_finished (sc s')))))
     (boot_world ok_env)"
  using wifi_blocking_scan_finished [of ok_env "boot_world ok_env"]
  by (simp add: sem_law_def ok_env_def ok_kern_def ok_cfg_def boot_world_def)

end
