(* ===== verification/Thread_Scan.thy ===== *)
theory Thread_Scan
  imports Wifi_Scan
begin

text \<open>
  \<^verbatim>\<open>src/src/thread_scan_handler.c\<close>: the prov-scan endpoint for Thread. The discovery callback runs
  on the OpenThread thread under a spinlock, so that each of its invocations is one atomic step
  here; the results of a blocking wait are delivered before the semaphore is taken.
\<close>

section \<open>Operations\<close>

abbreviation (input) OT_NETWORK_NAME_MAX_SIZE :: nat where "OT_NETWORK_NAME_MAX_SIZE \<equiv> 16"
abbreviation (input) OT_EXT_ADDRESS_SIZE :: nat where "OT_EXT_ADDRESS_SIZE \<equiv> 8"
abbreviation (input) OT_EXT_PAN_ID_SIZE :: nat where "OT_EXT_PAN_ID_SIZE \<equiv> 8"

definition thread_entry_of :: "otActiveScanResult \<Rightarrow> thread_scan_entry" where
  "thread_entry_of r = \<lparr>te_pan_id = ot_mPanId r, te_channel = ot_mChannel r, te_rssi = ot_mRssi r,
     te_lqi = ot_mLqi r, te_ext_addr = take OT_EXT_ADDRESS_SIZE (ot_mExtAddress r),
     te_ext_pan_id = take OT_EXT_PAN_ID_SIZE (ot_mExtendedPanId r),
     te_network_name = strncpy_z OT_NETWORK_NAME_MAX_SIZE (ot_mNetworkName r)\<rparr>"

definition discover_cb :: "env \<Rightarrow> otActiveScanResult option \<Rightarrow> unit prog" where
  "discover_cb E result =
    (case result of
       None \<Rightarrow> do {
         upd_ts (\<lambda>t. t\<lparr>ts_finished := True, ts_in_progress := False\<rparr>);
         ext_call (Kern (K_sem_give Thread_scan_done_sem)) }
     | Some r \<Rightarrow> do {
         n \<leftarrow> gets (\<lambda>s. length (ts_entries (ts s)));
         if n < SCAN_MAX_ENTRIES (cfg E)
         then upd_ts (\<lambda>t. t\<lparr>ts_entries := ts_entries t @ [thread_entry_of r]\<rparr>)
         else ret () })"

definition network_prov_thread_scan_init :: "int prog" where
  "network_prov_thread_scan_init = do { upd_ts (\<lambda>_. ts_zero); ret 0 }"

definition network_prov_thread_scan_deinit :: "unit prog" where
  "network_prov_thread_scan_deinit = upd_ts (\<lambda>t. t\<lparr>ts_in_progress := False\<rparr>)"

definition thread_do_scan_start :: "env \<Rightarrow> u32 \<Rightarrow> Status prog" where
  "thread_do_scan_start E channel_mask = do {
     upd_ts (\<lambda>t. t\<lparr>ts_entries := [], ts_finished := False, ts_in_progress := True\<rparr>);
     ext_call (Ot Ot_mutex_lock);
     ext_call (Ot (Ot_ip6_set_enabled True));
     channels \<leftarrow> (if channel_mask \<noteq> 0 then ret channel_mask
       else ask (otLinkGetSupportedChannelMask (ot E)) (\<lambda>_. Ot Ot_query));
     err \<leftarrow> ask (\<lambda>h. otThreadDiscover (ot E) h channels) (\<lambda>_. Ot (Ot_discover channels));
     ext_call (Ot Ot_mutex_unlock);
     if err \<noteq> 0
     then do {
       upd_ts (\<lambda>t. t\<lparr>ts_in_progress := False, ts_finished := True\<rparr>);
       ret Status_InternalError }
     else ret Status_Success }"

definition thread_scan_wait :: "env \<Rightarrow> int prog" where
  "thread_scan_wait E = do {
     rs \<leftarrow> gets (\<lambda>s. ot_results_during_wait (ot E) (hist s));
     for_each (discover_cb E) rs;
     k_sem_take E Thread_scan_done_sem (K_MSEC 15000) }"

definition thread_scan_encode :: "env \<Rightarrow> NetworkScanPayload \<Rightarrow> (int \<times> bytes option) prog" where
  "thread_scan_encode E resp = network_prov_pb_encode E (NetworkScan_codec (nanopb E)) resp"

definition thread_scan_start_state :: "env \<Rightarrow> bool \<Rightarrow> u32 \<Rightarrow> Status prog" where
  "thread_scan_start_state E blocking channel_mask = do {
     ext_call (Kern (K_sem_reset Thread_scan_done_sem));
     st \<leftarrow> thread_do_scan_start E channel_mask;
     (if st = Status_Success \<and> blocking
      then do { r \<leftarrow> thread_scan_wait E; ret (if r \<noteq> 0 then Status_InternalError else st) }
      else ret st) }"

definition thread_scan_start :: "env \<Rightarrow> bool \<Rightarrow> u32 \<Rightarrow> (int \<times> bytes option) prog" where
  "thread_scan_start E blocking channel_mask = do {
     st \<leftarrow> thread_scan_start_state E blocking channel_mask;
     thread_scan_encode E
       \<lparr>scan_msg = TypeRespScanThreadStart, scan_status = st, scan_payload = Resp_scan_thread_start\<rparr> }"

definition thread_result_of :: "thread_scan_entry \<Rightarrow> ThreadScanResult" where
  "thread_result_of e = \<lparr>tsr_pan_id = ucast (te_pan_id e), tsr_channel = ucast (te_channel e),
     tsr_rssi = scast (te_rssi e), tsr_lqi = ucast (te_lqi e), tsr_ext_addr = te_ext_addr e,
     tsr_network_name = strncpy_z OT_NETWORK_NAME_MAX_SIZE (te_network_name e),
     tsr_ext_pan_id = te_ext_pan_id e\<rparr>"

definition thread_scan_page :: "thread_scan_entry list \<Rightarrow> u32 \<Rightarrow> u32 \<Rightarrow> ThreadScanResult list" where
  "thread_scan_page es start want = scan_loop thread_result_of es PAGE_ENTRIES want start 0"

definition cmd_scan_thread_result :: "env \<Rightarrow> NetworkScanPayload \<Rightarrow> u32 \<times> u32" where
  "cmd_scan_thread_result E req = (case scan_payload req of
     Cmd_scan_thread_result a b \<Rightarrow> (a, b) | u \<Rightarrow> pun_scan_thread_result (nanopb E) u)"

definition network_prov_thread_scan_handler :: "env \<Rightarrow> bytes \<Rightarrow> (int \<times> bytes option) prog" where
  "network_prov_thread_scan_handler E inbuf =
    (case pb_decode (NetworkScan_codec (nanopb E)) inbuf of
       None \<Rightarrow> ret (- EINVAL, None)
     | Some req \<Rightarrow>
       (case scan_msg req of
          TypeCmdScanThreadStart \<Rightarrow> (case scan_payload req of
              Cmd_scan_thread_start b m \<Rightarrow> thread_scan_start E b m
            | _ \<Rightarrow> thread_scan_start E False 0)
        | TypeCmdScanThreadStatus \<Rightarrow> do {
            t \<leftarrow> gets ts;
            thread_scan_encode E
              \<lparr>scan_msg = TypeRespScanThreadStatus, scan_status = Status_Success,
               scan_payload = Resp_scan_thread_status (ts_finished t) (of_nat (length (ts_entries t)))\<rparr> }
        | TypeCmdScanThreadResult \<Rightarrow> do {
            t \<leftarrow> gets ts;
            thread_scan_encode E
              \<lparr>scan_msg = TypeRespScanThreadResult, scan_status = Status_Success,
               scan_payload = Resp_scan_thread_result (thread_scan_page (ts_entries t)
                 (fst (cmd_scan_thread_result E req)) (snd (cmd_scan_thread_result E req)))\<rparr> }
        | _ \<Rightarrow> ret (- ENOTSUP, None)))"

section \<open>Paging\<close>

interpretation thread_pages: paged_scan thread_scan_page thread_result_of
  by unfold_locales (simp add: thread_scan_page_def scan_loop_eq)

section \<open>Frame, heap and capacity\<close>

definition tscan_frame :: "world \<Rightarrow> world \<Rightarrow> bool" where
  "tscan_frame s s' \<longleftrightarrow> s' = s\<lparr>hist := hist s', ts := ts s'\<rparr>"

lemma tscan_frame_simps [simp]:
  "tscan_frame s s" "tscan_frame s (s'\<lparr>hist := h\<rparr>) = tscan_frame s s'"
  "tscan_frame s (s'\<lparr>ts := c\<rparr>) = tscan_frame s s'"
  "tscan_frame (s\<lparr>hist := h\<rparr>) s' = tscan_frame s s'"
  "tscan_frame (s\<lparr>ts := c\<rparr>) s' = tscan_frame s s'"
  by (cases s; cases s'; auto simp: tscan_frame_def)+

lemma tscan_frameD:
  assumes "tscan_frame s s'"
  shows "same_objects s s'" "mgr s' = mgr s" "wc s' = wc s" "sc s' = sc s" "tc s' = tc s"
    "con s' = con s" "sap s' = sap s" "ble s' = ble s"
  using assms by (cases s; cases s'; simp add: tscan_frame_def same_objects_def)+

lemma tscan_frame_only_hist: "tscan_frame s t \<Longrightarrow> only_hist t u \<Longrightarrow> tscan_frame s u \<and> ts u = ts t"
  by (elim only_histE) simp

definition tscan_bound :: "env \<Rightarrow> world \<Rightarrow> nat" where
  "tscan_bound E s = max (SCAN_MAX_ENTRIES (cfg E)) (length (ts_entries (ts s)))"

lemma tscan_bound_le [simp]: "length (ts_entries (ts s)) \<le> tscan_bound E s" "SCAN_MAX_ENTRIES (cfg E) \<le> tscan_bound E s"
  by (simp_all add: tscan_bound_def)

lemma tscan_bound_Suc: "\<not> SCAN_MAX_ENTRIES (cfg E) \<le> n \<Longrightarrow> Suc n \<le> tscan_bound E s"
  by (simp add: tscan_bound_def)

definition tscan_ok :: "env \<Rightarrow> world \<Rightarrow> world \<Rightarrow> bool" where
  "tscan_ok E s s' \<longleftrightarrow> tscan_frame s s' \<and> blocks (hist s') = blocks (hist s) \<and>
     length (ts_entries (ts s')) \<le> tscan_bound E s \<and>
     (sem_given Thread_scan_done_sem (hist s') \<longrightarrow> ts_finished (ts s'))"

lemma discover_tscan_ok: "tscan_ok E s t \<Longrightarrow> wp (discover_cb E r) (\<lambda>_. tscan_ok E s) t"
  by (auto simp: discover_cb_def tscan_ok_def tscan_bound_Suc split: option.split)

lemma wait_tscan_ok:
  assumes "tscan_ok E s t"
  shows "wp (thread_scan_wait E) (\<lambda>r s'. tscan_ok E s s' \<and> (sem_law E \<longrightarrow> r = 0 \<longrightarrow> ts_finished (ts s'))) t"
proof -
  have each: "wp (for_each (discover_cb E) rs) (\<lambda>_. tscan_ok E s) t" for rs
    using assms by (intro wp_for_each_inv) (auto intro: discover_tscan_ok)
  show ?thesis
    unfolding thread_scan_wait_def
    by simp (rule wp_mono [OF each], auto simp: tscan_ok_def sem_law_def)
qed

lemma thread_start_state:
  "wp (thread_scan_start_state E blocking cmask) (\<lambda>st s'. tscan_ok E s s' \<and>
     (sem_law E \<longrightarrow> blocking \<longrightarrow> st = Status_Success \<longrightarrow> ts_finished (ts s'))) s"
proof -
  have 1: "wp (thread_scan_wait E) (\<lambda>r. wp (ret (if r \<noteq> 0 then Status_InternalError else Status_Success))
     (\<lambda>st s'. tscan_ok E s s' \<and> (sem_law E \<longrightarrow> blocking \<longrightarrow> st = Status_Success \<longrightarrow> ts_finished (ts s')))) t"
    if "tscan_ok E s t" for t
    by (rule wp_mono [OF wait_tscan_ok [OF that]]) auto
  show ?thesis
    using 1 by (auto simp: thread_scan_start_state_def thread_do_scan_start_def tscan_ok_def)
qed

definition tscan_answer :: "env \<Rightarrow> world \<Rightarrow> (NetworkScanPayload \<Rightarrow> world \<Rightarrow> bool) \<Rightarrow>
    int \<times> bytes option \<Rightarrow> world \<Rightarrow> bool" where
  "tscan_answer E s P r s' \<longleftrightarrow> tscan_frame s s' \<and> out_contract (hist s) r (hist s') \<and>
     length (ts_entries (ts s')) \<le> tscan_bound E s \<and>
     answers (NetworkScan_codec (nanopb E)) (\<lambda>m. is_scan_response (scan_msg m) \<and> P m s') r"

lemma tscan_encode_answer:
  assumes "tscan_frame s t" "blocks (hist t) = blocks (hist s)"
    "length (ts_entries (ts t)) \<le> tscan_bound E s" "is_scan_response (scan_msg m)"
    "\<And>s'. ts s' = ts t \<Longrightarrow> P m s'"
  shows "wp (thread_scan_encode E m) (tscan_answer E s P) t"
  unfolding thread_scan_encode_def
proof (rule wp_mono [OF pb_encode_spec])
  fix r and s' :: world
  assume a: "only_hist t s' \<and> pb_post (NetworkScan_codec (nanopb E)) m (hist t) r (hist s')"
  from tscan_frame_only_hist [OF assms(1) conjunct1 [OF a]] have f: "tscan_frame s s' \<and> ts s' = ts t" .
  from a have pb: "pb_post (NetworkScan_codec (nanopb E)) m (hist t) r (hist s')" by simp
  from out_contract_pb [OF pb assms(2)] answers_pb [OF pb] f assms(3-5)
  show "tscan_answer E s P r s'" by (simp add: tscan_answer_def)
qed

lemma thread_scan_start_answer:
  "wp (thread_scan_start E blocking cmask) (tscan_answer E s (\<lambda>m s'. scan_msg m = TypeRespScanThreadStart \<and>
     (sem_law E \<longrightarrow> blocking \<longrightarrow> scan_status m = Status_Success \<longrightarrow> ts_finished (ts s')))) s"
  unfolding thread_scan_start_def wp_bind
  by (rule wp_mono [OF thread_start_state]) (auto simp: tscan_ok_def intro!: tscan_encode_answer)

lemma thread_scan_handler_contract:
  "wp (network_prov_thread_scan_handler E b) (tscan_answer E s (\<lambda>_ _. True)) s"
proof -
  have start: "wp (thread_scan_start E blocking cmask) (tscan_answer E s (\<lambda>_ _. True)) s" for blocking cmask
    by (rule wp_mono [OF thread_scan_start_answer])
      (auto simp: tscan_answer_def elim!: answers_mono)
  show ?thesis
    unfolding network_prov_thread_scan_handler_def
    by (auto split: option.split NetworkScanMsgType.split NetworkScanUnion.split
        intro!: start tscan_encode_answer) (auto simp: tscan_answer_def out_contract_refl)
qed

section \<open>Properties\<close>

text \<open>Paging returns the whole discovery: a client that asks the Thread scan endpoint for the
  pages that start at 0, 4, 8, ... receives every cached network exactly once and in order.\<close>

theorem thread_scan_pages_complete:
  assumes "length es < 2 ^ 31"
  shows "concat (map (\<lambda>k. thread_scan_page es (of_nat (4 * k)) 4) [0..<(length es + 3) div 4]) =
    map thread_result_of es"
  using assms by (rule thread_pages.all_pages)

definition demo_thread_entry :: "u16 \<Rightarrow> thread_scan_entry" where
  "demo_thread_entry b = \<lparr>te_pan_id = b, te_channel = 15, te_rssi = 200, te_lqi = 1, te_ext_addr = zeros 8,
     te_ext_pan_id = zeros 8, te_network_name = ''net''\<rparr>"

theorem thread_scan_pages_complete_witness:
  "concat (map (\<lambda>k. thread_scan_page (map demo_thread_entry [1, 2, 3, 4, 5]) (of_nat (4 * k)) 4) [0..<2]) =
    map thread_result_of (map demo_thread_entry [1, 2, 3, 4, 5])"
  using thread_scan_pages_complete [of "map demo_thread_entry [1, 2, 3, 4, 5]"] by simp

text \<open>A blocking Thread scan tells the truth: when a blocking ScanStart is answered with
  Success the discovery has finished, and the cache never exceeds its size.\<close>

theorem thread_blocking_scan_finished:
  assumes "sem_law E" and "length (ts_entries (ts s)) \<le> SCAN_MAX_ENTRIES (cfg E)"
  shows "wp (thread_scan_start E True cmask) (\<lambda>r s'. length (ts_entries (ts s')) \<le> SCAN_MAX_ENTRIES (cfg E) \<and>
     (\<forall>bs. snd r = Some bs \<longrightarrow> (\<exists>m. encodes (NetworkScan_codec (nanopb E)) m bs \<and>
       scan_msg m = TypeRespScanThreadStart \<and> (scan_status m = Status_Success \<longrightarrow> ts_finished (ts s'))))) s"
  using assms(1)
  by (intro wp_mono [OF thread_scan_start_answer]) (use assms(2) in \<open>auto simp: tscan_answer_def answers_def tscan_bound_def\<close>)

theorem thread_blocking_scan_finished_witness:
  "wp (thread_scan_start ok_env True 0) (\<lambda>r s'. length (ts_entries (ts s')) \<le> 16 \<and>
     (\<forall>bs. snd r = Some bs \<longrightarrow> (\<exists>m. encodes (NetworkScan_codec (nanopb ok_env)) m bs \<and>
       scan_msg m = TypeRespScanThreadStart \<and> (scan_status m = Status_Success \<longrightarrow> ts_finished (ts s')))))
     (boot_world ok_env)"
  using thread_blocking_scan_finished [of ok_env "boot_world ok_env" 0]
  by (simp add: sem_law_def ok_env_def ok_kern_def ok_cfg_def boot_world_def ts_zero_def)

end
