(* ===== verification/Wifi_Config.thy ===== *)
theory Wifi_Config
  imports Prov_State
begin

text \<open>
  \<^verbatim>\<open>src/src/wifi_config_handler.c\<close>: the prov-config endpoint for Wi-Fi. Credentials are staged
  by SetWifiConfig, snapshotted and tried by ApplyWifiConfig, and the connection state machine is
  driven by the connect-result event and the retry work item. \<open>struct wifi_status\<close> is a union of
  \<open>status\<close> and \<open>conn_status\<close>, so a result is one integer.
\<close>

section \<open>Operations\<close>

definition security_from_pass :: "wifi_config_state \<Rightarrow> wifi_security_type" where
  "security_from_pass w = (if wc_pass_len w > 0 then WIFI_SECURITY_TYPE_PSK else WIFI_SECURITY_TYPE_NONE)"

definition clear_inflight :: "unit prog" where
  "clear_inflight = upd_wc (\<lambda>w. w\<lparr>inflight_ssid := zeros (SSID_MAX + 1), inflight_ssid_len := 0,
     inflight_pass := zeros (PASS_MAX + 1), inflight_pass_len := 0,
     inflight_has_bssid := False, inflight_channel := 0\<rparr>)"

text \<open>The interface lookup that the file repeats: the station interface, else the first Wi-Fi
  interface.\<close>

definition wifi_iface :: "env \<Rightarrow> iface option prog" where
  "wifi_iface E = gets (\<lambda>s. case net_if_get_wifi_sta (wifi E) (hist s) of
     Some i \<Rightarrow> Some i | None \<Rightarrow> net_if_get_first_wifi (wifi E) (hist s))"

text \<open>The request that is built from the snapshot (management frame protection and timeout are
  constants).\<close>

definition inflight_params :: "wifi_config_state \<Rightarrow> wifi_connect_req_params" where
  "inflight_params w = \<lparr>
     cp_ssid = take (inflight_ssid_len w) (inflight_ssid w),
     cp_psk = (if inflight_pass_len w > 0 then Some (take (inflight_pass_len w) (inflight_pass w)) else None),
     cp_security = (if inflight_pass_len w > 0 then WIFI_SECURITY_TYPE_PSK else WIFI_SECURITY_TYPE_NONE),
     cp_channel = (if inflight_channel w > 0 then inflight_channel w else WIFI_CHANNEL_ANY),
     cp_band = WIFI_FREQ_BAND_UNKNOWN,
     cp_bssid = (if inflight_has_bssid w then inflight_bssid w else zeros WIFI_MAC_ADDR_LEN)\<rparr>"

definition connect_from_inflight :: "env \<Rightarrow> int prog" where
  "connect_from_inflight E = do {
     i \<leftarrow> wifi_iface E;
     (case i of
        None \<Rightarrow> ret (- ENODEV)
      | Some ifc \<Rightarrow> do {
          p \<leftarrow> gets (\<lambda>s. inflight_params (wc s));
          ask (\<lambda>h. wifi_connect_ret (wifi E) h ifc p) (\<lambda>_. Wifi (Wifi_connect ifc p)) }) }"

definition cred_delete :: "env \<Rightarrow> bytes \<Rightarrow> unit prog" where
  "cred_delete E ssid = do {
     _ \<leftarrow> ask (\<lambda>h. cred_delete_by_ssid_ret (wifi E) h ssid) (\<lambda>_. Wifi (Cred_delete_by_ssid ssid));
     ret () }"

definition final_failure :: "env \<Rightarrow> unit prog" where
  "final_failure E = do {
     upd_wc (\<lambda>w. w\<lparr>sta_state := WifiSta_ConnectionFailed, attempt_failed := False\<rparr>);
     st \<leftarrow> gets (\<lambda>s. last_conn_status (wc s));
     reason \<leftarrow> (if st = WIFI_STATUS_CONN_AP_NOT_FOUND
       then do { upd_wc (\<lambda>w. w\<lparr>fail_reason := WifiNetworkNotFound\<rparr>);
                 ret NETWORK_PROV_WIFI_NETWORK_NOT_FOUND }
       else do { upd_wc (\<lambda>w. w\<lparr>fail_reason := AuthError\<rparr>);
                 ret NETWORK_PROV_WIFI_AUTH_ERROR });
     ssid \<leftarrow> gets (\<lambda>s. take (inflight_ssid_len (wc s)) (inflight_ssid (wc s)));
     cred_delete E ssid;
     clear_inflight;
     network_prov_emit_event E (NETWORK_PROV_CRED_FAIL reason) }"

definition retry_work_handler :: "env \<Rightarrow> unit prog" where
  "retry_work_handler E = do {
     n \<leftarrow> gets (\<lambda>s. inflight_ssid_len (wc s));
     if n = 0 then ret ()
     else do {
       r \<leftarrow> connect_from_inflight E;
       if_do (r \<noteq> 0) (final_failure E) } }"

definition on_connect_result :: "env \<Rightarrow> int \<Rightarrow> unit prog" where
  "on_connect_result E status = do {
     w \<leftarrow> gets wc;
     if inflight_ssid_len w = 0 then ret ()
     else if status = 0
     then do {
       upd_wc (\<lambda>w. w\<lparr>sta_state := WifiSta_Connected, attempt_failed := False\<rparr>);
       clear_inflight;
       network_prov_emit_event E NETWORK_PROV_CRED_SUCCESS }
     else do {
       upd_wc (\<lambda>w. w\<lparr>last_conn_status := status\<rparr>);
       if attempts_max w > 0
       then do {
         upd_wc (\<lambda>w. w\<lparr>attempts_completed := attempts_completed w + 1\<rparr>);
         w \<leftarrow> gets wc;
         if attempts_completed w < attempts_max w
         then do {
           upd_wc (\<lambda>w. w\<lparr>attempt_failed := True, sta_state := WifiSta_Connecting\<rparr>);
           ext_call (Kern (K_work_schedule Retry_work 1000)) }
         else final_failure E }
       else final_failure E } }"

text \<open>The event callback: events other than the connect result are ignored.\<close>

datatype wifi_event = NET_EVENT_WIFI_CONNECT_RESULT int | wifi_event_other

definition wifi_config_mgmt_event :: "env \<Rightarrow> wifi_event \<Rightarrow> unit prog" where
  "wifi_config_mgmt_event E ev = (case ev of
     NET_EVENT_WIFI_CONNECT_RESULT st \<Rightarrow> on_connect_result E st | wifi_event_other \<Rightarrow> ret ())"

definition network_prov_wifi_config_init :: "u32 \<Rightarrow> int prog" where
  "network_prov_wifi_config_init conn_attempts = do {
     upd_wc (\<lambda>w. w\<lparr>sta_state := WifiSta_Disconnected, attempts_max := conn_attempts,
       attempts_completed := 0, attempt_failed := False\<rparr>);
     ext_call (Kern (K_work_init Retry_work));
     reg \<leftarrow> gets (\<lambda>s. wc_cb_registered (wc s));
     if_do (\<not> reg) (do {
       ext_call (Wifi (Net_add_event_callback Wifi_config_cb));
       upd_wc (\<lambda>w. w\<lparr>wc_cb_registered := True\<rparr>) });
     ret 0 }"

definition network_prov_wifi_config_deinit :: "unit prog" where
  "network_prov_wifi_config_deinit = do {
     clear_inflight;
     ext_call (Kern (K_work_cancel Retry_work));
     reg \<leftarrow> gets (\<lambda>s. wc_cb_registered (wc s));
     if_do reg (do {
       ext_call (Wifi (Net_del_event_callback Wifi_config_cb));
       upd_wc (\<lambda>w. w\<lparr>wc_cb_registered := False\<rparr>) }) }"

definition network_prov_wifi_config_reset :: "unit prog" where
  "network_prov_wifi_config_reset = do {
     clear_inflight;
     ext_call (Kern (K_work_cancel Retry_work));
     upd_wc (\<lambda>w. w\<lparr>wc_ssid := zeros (SSID_MAX + 1), wc_ssid_len := 0,
       wc_pass := zeros (PASS_MAX + 1), wc_pass_len := 0, wc_has_bssid := False, wc_channel := 0,
       attempts_completed := 0, attempt_failed := False,
       sta_state := WifiSta_Disconnected, fail_reason := AuthError\<rparr>) }"

definition network_prov_wifi_config_remaining_attempts :: "wifi_config_state \<Rightarrow> u32" where
  "network_prov_wifi_config_remaining_attempts w =
    (if attempts_max w \<le> attempts_completed w then 0 else attempts_max w - attempts_completed w)"

definition wifi_do_set_config :: "CmdSetWifiConfig \<Rightarrow> Status prog" where
  "wifi_do_set_config cmd =
    (if cmd_ssid cmd = [] \<or> length (cmd_ssid cmd) > SSID_MAX then ret Status_InvalidArgument
     else if length (cmd_passphrase cmd) > PASS_MAX then ret Status_InvalidArgument
     else do {
       upd_wc (\<lambda>w. w\<lparr>
         wc_ssid_len := length (cmd_ssid cmd),
         wc_ssid := memcpy (zeros (SSID_MAX + 1)) (cmd_ssid cmd),
         wc_pass_len := length (cmd_passphrase cmd),
         wc_pass := memcpy (zeros (PASS_MAX + 1)) (cmd_passphrase cmd),
         wc_has_bssid := (length (cmd_bssid cmd) = WIFI_MAC_ADDR_LEN),
         wc_bssid := (if length (cmd_bssid cmd) = WIFI_MAC_ADDR_LEN
            then memcpy (wc_bssid w) (cmd_bssid cmd) else wc_bssid w),
         wc_channel := ucast (cmd_channel cmd)\<rparr>);
       ret Status_Success })"

text \<open>The snapshot of the staged credentials.\<close>

definition snapshot_inflight :: "wifi_config_state \<Rightarrow> wifi_config_state" where
  "snapshot_inflight w = w\<lparr>
     inflight_ssid := memcpy (inflight_ssid w) (take (SSID_MAX + 1) (wc_ssid w)),
     inflight_ssid_len := wc_ssid_len w,
     inflight_pass := memcpy (inflight_pass w) (take (PASS_MAX + 1) (wc_pass w)),
     inflight_pass_len := wc_pass_len w,
     inflight_has_bssid := wc_has_bssid w,
     inflight_bssid := (if wc_has_bssid w then memcpy (inflight_bssid w) (wc_bssid w) else inflight_bssid w),
     inflight_channel := wc_channel w,
     attempts_completed := 0,
     attempt_failed := False\<rparr>"

text \<open>The arguments of \<open>wifi_credentials_set_personal\<close>.\<close>

definition staged_credential :: "wifi_config_state \<Rightarrow> wifi_credential" where
  "staged_credential w = \<lparr>
     cr_ssid = take (wc_ssid_len w) (wc_ssid w),
     cr_security = security_from_pass w,
     cr_bssid = (if wc_has_bssid w then Some (wc_bssid w) else None),
     cr_password = take (wc_pass_len w) (wc_pass w),
     cr_flags = (if wc_has_bssid w then WIFI_CREDENTIALS_FLAG_BSSID else 0),
     cr_channel = wc_channel w,
     cr_timeout = 0\<rparr>"

definition wifi_do_apply_config :: "env \<Rightarrow> Status prog" where
  "wifi_do_apply_config E = do {
     i \<leftarrow> wifi_iface E;
     (case i of
        None \<Rightarrow> ret Status_InternalError
      | Some _ \<Rightarrow> do {
          w \<leftarrow> gets wc;
          cred_delete E (take (wc_ssid_len w) (wc_ssid w));
          r \<leftarrow> ask (\<lambda>h. cred_set_personal_ret (wifi E) h (staged_credential w))
            (\<lambda>_. Wifi (Cred_set_personal (staged_credential w)));
          if r \<noteq> 0 then ret Status_InternalError
          else do {
            network_prov_emit_event E NETWORK_PROV_CRED_RECV;
            upd_wc (\<lambda>w. w\<lparr>sta_state := WifiSta_Connecting\<rparr>);
            ext_call (Kern (K_work_cancel Retry_work));
            upd_wc snapshot_inflight;
            rc \<leftarrow> connect_from_inflight E;
            if_do (rc \<noteq> 0) (do {
              upd_wc (\<lambda>w. w\<lparr>sta_state := WifiSta_ConnectionFailed, fail_reason := AuthError\<rparr>);
              clear_inflight;
              ssid \<leftarrow> gets (\<lambda>s. take (wc_ssid_len (wc s)) (wc_ssid (wc s)));
              cred_delete E ssid;
              network_prov_emit_event E (NETWORK_PROV_CRED_FAIL NETWORK_PROV_WIFI_AUTH_ERROR) });
            ret Status_Success } }) }"

definition network_prov_wifi_config_set_and_apply :: "env \<Rightarrow> bytes option \<Rightarrow> bytes option \<Rightarrow> int prog" where
  "network_prov_wifi_config_set_and_apply E ssid psk =
    (case ssid of
       None \<Rightarrow> ret (- EINVAL)
     | Some sd \<Rightarrow>
        let pw = (case psk of None \<Rightarrow> [] | Some p \<Rightarrow> p) in
        if sd = [] \<or> length sd > SSID_MAX \<or> length pw > PASS_MAX then ret (- EINVAL)
        else do {
          upd_wc (\<lambda>w. w\<lparr>wc_ssid := memcpy (zeros (SSID_MAX + 1)) sd, wc_ssid_len := length sd,
            wc_pass := memcpy (zeros (PASS_MAX + 1)) pw, wc_pass_len := length pw,
            wc_has_bssid := False, wc_channel := 0\<rparr>);
          st \<leftarrow> wifi_do_apply_config E;
          ret (if st = Status_Success then 0 else - EIO) })"

section \<open>The endpoint\<close>

definition fill_connected_state :: "env \<Rightarrow> WifiConnectedState prog" where
  "fill_connected_state E = do {
     w \<leftarrow> gets wc;
     i \<leftarrow> gets (\<lambda>s. net_if_get_wifi_sta (wifi E) (hist s));
     (case i of
        None \<Rightarrow> ret \<lparr>wcs_ip4_addr = [], wcs_auth_mode = WifiAuthMode_Open,
          wcs_ssid = take (wc_ssid_len w) (wc_ssid w), wcs_bssid = [], wcs_channel = 0\<rparr>
      | Some ifc \<Rightarrow> do {
          r \<leftarrow> ask (\<lambda>h. wifi_iface_status_ret (wifi E) h ifc) (\<lambda>_. Wifi (Wifi_iface_status ifc));
          ip \<leftarrow> gets (\<lambda>s. ipv4_global_addr (wifi E) (hist s) ifc);
          ret (if fst r = 0
            then \<lparr>wcs_ip4_addr = (case ip of None \<Rightarrow> [] | Some a \<Rightarrow> a),
              wcs_auth_mode = WifiAuthMode_WPA2_PSK, wcs_ssid = take 33 (ist_ssid (snd r)),
              wcs_bssid = ist_bssid (snd r), wcs_channel = ist_channel (snd r)\<rparr>
            else \<lparr>wcs_ip4_addr = (case ip of None \<Rightarrow> [] | Some a \<Rightarrow> a),
              wcs_auth_mode = WifiAuthMode_Open, wcs_ssid = take (wc_ssid_len w) (wc_ssid w),
              wcs_bssid = [], wcs_channel = 0\<rparr>) }) }"

definition wifi_encode_get_status :: "env \<Rightarrow> (int \<times> bytes option) prog" where
  "wifi_encode_get_status E = do {
     w \<leftarrow> gets wc;
     u \<leftarrow> (if sta_state w = WifiSta_Connected
       then do { c \<leftarrow> fill_connected_state E; ret (WifiStatus_connected c) }
       else if sta_state w = WifiSta_ConnectionFailed
       then ret (WifiStatus_fail_reason (fail_reason w))
       else if sta_state w = WifiSta_Connecting \<and> attempt_failed w
       then ret (WifiStatus_attempt_failed (network_prov_wifi_config_remaining_attempts w))
       else ret WifiStatus_none);
     network_prov_pb_encode E (NetworkConfig_codec (nanopb E))
       \<lparr>config_msg = TypeRespGetWifiStatus,
        config_payload = Resp_get_wifi_status Status_Success (sta_state w) u\<rparr> }"

definition wifi_encode_simple ::
  "env \<Rightarrow> NetworkConfigMsgType \<Rightarrow> Status \<Rightarrow> (int \<times> bytes option) prog" where
  "wifi_encode_simple E ty st = network_prov_pb_encode E (NetworkConfig_codec (nanopb E))
     \<lparr>config_msg = ty,
      config_payload = (if ty = TypeRespSetWifiConfig then Resp_set_wifi_config st
        else Resp_apply_wifi_config st)\<rparr>"

definition cmd_set_wifi_config :: "env \<Rightarrow> NetworkConfigPayload \<Rightarrow> CmdSetWifiConfig" where
  "cmd_set_wifi_config E req = (case config_payload req of
     Cmd_set_wifi_config c \<Rightarrow> c | u \<Rightarrow> pun_set_wifi_config (nanopb E) u)"

definition network_prov_wifi_config_handler :: "env \<Rightarrow> bytes \<Rightarrow> (int \<times> bytes option) prog" where
  "network_prov_wifi_config_handler E inbuf =
    (case pb_decode (NetworkConfig_codec (nanopb E)) inbuf of
       None \<Rightarrow> ret (- EINVAL, None)
     | Some req \<Rightarrow>
       (case config_msg req of
          TypeCmdSetWifiConfig \<Rightarrow> do {
            st \<leftarrow> wifi_do_set_config (cmd_set_wifi_config E req);
            wifi_encode_simple E TypeRespSetWifiConfig st }
        | TypeCmdApplyWifiConfig \<Rightarrow> do {
            st \<leftarrow> wifi_do_apply_config E;
            wifi_encode_simple E TypeRespApplyWifiConfig st }
        | TypeCmdGetWifiStatus \<Rightarrow> wifi_encode_get_status E
        | _ \<Rightarrow> ret (- ENOTSUP, None)))"

section \<open>Weakest preconditions\<close>

definition wifi_iface_of :: "env \<Rightarrow> history \<Rightarrow> iface option" where
  "wifi_iface_of E h = (case net_if_get_wifi_sta (wifi E) h of
     Some i \<Rightarrow> Some i | None \<Rightarrow> net_if_get_first_wifi (wifi E) h)"

lemma wp_wifi_iface [wp, simp]: "wp (wifi_iface E) Q s = Q (wifi_iface_of E (hist s)) s"
  by (simp add: wifi_iface_def wifi_iface_of_def)

lemma wp_cred_delete [wp, simp]:
  "wp (cred_delete E x) Q s = Q () (s\<lparr>hist := Wifi (Cred_delete_by_ssid x) # hist s\<rparr>)"
  by (simp add: cred_delete_def)

text \<open>The outcome of a connect request, with the calls it makes.\<close>

definition connect_ret :: "env \<Rightarrow> world \<Rightarrow> int" where
  "connect_ret E s = (case wifi_iface_of E (hist s) of None \<Rightarrow> - ENODEV
     | Some i \<Rightarrow> wifi_connect_ret (wifi E) (hist s) i (inflight_params (wc s)))"

definition connect_calls :: "env \<Rightarrow> world \<Rightarrow> call list" where
  "connect_calls E s = (case wifi_iface_of E (hist s) of None \<Rightarrow> []
     | Some i \<Rightarrow> [Wifi (Wifi_connect i (inflight_params (wc s)))])"

lemma wp_connect [wp, simp]:
  "wp (connect_from_inflight E) Q s = Q (connect_ret E s) (s\<lparr>hist := connect_calls E s @ hist s\<rparr>)"
  by (simp add: connect_from_inflight_def connect_ret_def connect_calls_def split: option.split)

text \<open>The connect requests in a history, and the delays with which the retry was scheduled (latest first).\<close>

fun conn_requests :: "history \<Rightarrow> wifi_connect_req_params list" where
  "conn_requests [] = []"
| "conn_requests (Wifi (Wifi_connect i p) # h) = p # conn_requests h"
| "conn_requests (Wifi (Wifi_connect_no_iface p) # h) = p # conn_requests h"
| "conn_requests (c # h) = conn_requests h"

fun retry_delays :: "history \<Rightarrow> nat list" where
  "retry_delays [] = []"
| "retry_delays (Kern (K_work_schedule w n) # h) = (if w = Retry_work then [n] else []) @ retry_delays h"
| "retry_delays (c # h) = retry_delays h"

lemma connect_calls_readings [simp]:
  "blocks (connect_calls E s @ h) = blocks h" "app_events (connect_calls E s @ h) = app_events h"
  "armed w (connect_calls E s @ h) = armed w h" "retry_delays (connect_calls E s @ h) = retry_delays h"
  by (simp_all add: connect_calls_def split: option.split)

lemma wp_clear_inflight [wp, simp]:
  "wp clear_inflight Q s = Q () (s\<lparr>wc := (wc s)\<lparr>inflight_ssid := zeros (SSID_MAX + 1),
     inflight_ssid_len := 0, inflight_pass := zeros (PASS_MAX + 1), inflight_pass_len := 0,
     inflight_has_bssid := False, inflight_channel := 0\<rparr>\<rparr>)"
  by (simp add: clear_inflight_def)

section \<open>Frame and heap\<close>

text \<open>What every operation of this file leaves alone: the instances, the other static variables,
  the heap.\<close>

definition wifi_frame :: "world \<Rightarrow> world \<Rightarrow> bool" where
  "wifi_frame s s' \<longleftrightarrow> s' = s\<lparr>hist := hist s', wc := wc s'\<rparr>"

lemma wifi_frame_simps [simp]:
  "wifi_frame s s" "wifi_frame s (s'\<lparr>hist := h\<rparr>) = wifi_frame s s'"
  "wifi_frame s (s'\<lparr>wc := w\<rparr>) = wifi_frame s s'"
  "wifi_frame (s\<lparr>hist := h\<rparr>) s' = wifi_frame s s'"
  "wifi_frame (s\<lparr>wc := w\<rparr>) s' = wifi_frame s s'"
  by (cases s; cases s'; auto simp: wifi_frame_def)+

lemma wifi_frameD:
  assumes "wifi_frame s s'"
  shows "same_objects s s'" "mgr s' = mgr s" "sc s' = sc s" "tc s' = tc s" "ts s' = ts s"
    "con s' = con s" "sap s' = sap s" "ble s' = ble s"
  using assms by (cases s; cases s'; simp add: wifi_frame_def same_objects_def)+

lemma wifi_frame_only_hist: "only_hist s s' \<Longrightarrow> wifi_frame s s' \<and> wc s' = wc s"
  by (elim only_histE) simp

lemmas wifi_op_defs = final_failure_def retry_work_handler_def on_connect_result_def
  wifi_config_mgmt_event_def network_prov_wifi_config_init_def network_prov_wifi_config_deinit_def
  network_prov_wifi_config_reset_def wifi_do_set_config_def wifi_do_apply_config_def

lemma wifi_ops_frame:
  "wp (retry_work_handler E) (\<lambda>_ s'. wifi_frame s s' \<and> blocks (hist s') = blocks (hist s)) s"
  "wp (wifi_config_mgmt_event E ev) (\<lambda>_ s'. wifi_frame s s' \<and> blocks (hist s') = blocks (hist s)) s"
  "wp (network_prov_wifi_config_init n) (\<lambda>_ s'. wifi_frame s s' \<and> blocks (hist s') = blocks (hist s)) s"
  "wp network_prov_wifi_config_deinit (\<lambda>_ s'. wifi_frame s s' \<and> blocks (hist s') = blocks (hist s)) s"
  "wp network_prov_wifi_config_reset (\<lambda>_ s'. wifi_frame s s' \<and> blocks (hist s') = blocks (hist s)) s"
  "wp (wifi_do_set_config cmd) (\<lambda>_ s'. wifi_frame s s' \<and> blocks (hist s') = blocks (hist s)) s"
  "wp (wifi_do_apply_config E) (\<lambda>_ s'. wifi_frame s s' \<and> blocks (hist s') = blocks (hist s)) s"
  by (simp_all add: wifi_op_defs split: wifi_event.split option.split)

lemma fill_connected_frame: "wp (fill_connected_state E) (\<lambda>_ s'. only_hist s s' \<and>
    blocks (hist s') = blocks (hist s)) s"
  by (simp add: fill_connected_state_def split: option.split)

text \<open>The contract of the endpoint: the frame, the heap and that the answer is a response.\<close>

fun is_config_response :: "NetworkConfigMsgType \<Rightarrow> bool" where
  "is_config_response TypeRespGetWifiStatus = True"
| "is_config_response TypeRespSetWifiConfig = True"
| "is_config_response TypeRespApplyWifiConfig = True"
| "is_config_response TypeRespGetThreadStatus = True"
| "is_config_response TypeRespSetThreadConfig = True"
| "is_config_response TypeRespApplyThreadConfig = True"
| "is_config_response _ = False"

lemma encode_simple_spec:
  "wp (wifi_encode_simple E ty st) (\<lambda>r s'. only_hist s s' \<and> out_contract (hist s) r (hist s') \<and>
     answers (NetworkConfig_codec (nanopb E)) (\<lambda>m. config_msg m = ty) r) s"
  unfolding wifi_encode_simple_def
  by (rule wp_mono [OF pb_encode_spec]) (auto intro: pb_post_contract answers_pb)

lemma encode_get_status_spec:
  "wp (wifi_encode_get_status E) (\<lambda>r s'. only_hist s s' \<and> out_contract (hist s) r (hist s') \<and>
     answers (NetworkConfig_codec (nanopb E)) (\<lambda>m. config_msg m = TypeRespGetWifiStatus) r) s"
proof -
  have enc: "wp (network_prov_pb_encode E (NetworkConfig_codec (nanopb E))
       \<lparr>config_msg = TypeRespGetWifiStatus, config_payload = u\<rparr>)
     (\<lambda>r s'. only_hist s s' \<and> out_contract (hist s) r (hist s') \<and>
       answers (NetworkConfig_codec (nanopb E)) (\<lambda>m. config_msg m = TypeRespGetWifiStatus) r) t"
    if "only_hist s t" "blocks (hist t) = blocks (hist s)" for u t
    by (rule wp_mono [OF pb_encode_spec])
      (use that in \<open>auto intro: only_hist_trans out_contract_pb answers_pb\<close>)
  show ?thesis
    unfolding wifi_encode_get_status_def
    by (auto intro!: enc wp_mono [OF fill_connected_frame])
qed

lemma wifi_config_handler_contract:
  "wp (network_prov_wifi_config_handler E b) (\<lambda>r s'. wifi_frame s s' \<and>
     out_contract (hist s) r (hist s') \<and>
     answers (NetworkConfig_codec (nanopb E)) (\<lambda>m. is_config_response (config_msg m)) r) s"
proof -
  have simp: "wp (wifi_encode_simple E ty st) (\<lambda>r s'. wifi_frame s s' \<and>
     out_contract (hist s) r (hist s') \<and>
     answers (NetworkConfig_codec (nanopb E)) (\<lambda>m. is_config_response (config_msg m)) r) t"
    if "wifi_frame s t" "blocks (hist t) = blocks (hist s)" "is_config_response ty" for ty st t
    by (rule wp_mono [OF encode_simple_spec])
      (use that in \<open>auto elim!: only_histE answers_mono simp: out_contract_def\<close>)
  have get: "wp (wifi_encode_get_status E) (\<lambda>r s'. wifi_frame s s' \<and>
     out_contract (hist s) r (hist s') \<and>
     answers (NetworkConfig_codec (nanopb E)) (\<lambda>m. is_config_response (config_msg m)) r) s"
    by (rule wp_mono [OF encode_get_status_spec]) (auto elim!: only_histE answers_mono)
  show ?thesis
    unfolding network_prov_wifi_config_handler_def
    by (auto split: option.split NetworkConfigMsgType.split intro!: get simp: out_contract_refl
        wp_mono [OF wifi_ops_frame(6)] wp_mono [OF wifi_ops_frame(7)] simp)
qed

section \<open>The state machine\<close>

text \<open>The arrays keep their sizes and the lengths stay inside them.\<close>

definition wc_wf :: "wifi_config_state \<Rightarrow> bool" where
  "wc_wf w \<longleftrightarrow> length (wc_ssid w) = SSID_MAX + 1 \<and> wc_ssid_len w \<le> SSID_MAX \<and>
     length (wc_pass w) = PASS_MAX + 1 \<and> wc_pass_len w \<le> PASS_MAX \<and>
     length (wc_bssid w) = WIFI_MAC_ADDR_LEN \<and>
     length (inflight_ssid w) = SSID_MAX + 1 \<and> inflight_ssid_len w \<le> SSID_MAX \<and>
     length (inflight_pass w) = PASS_MAX + 1 \<and> inflight_pass_len w \<le> PASS_MAX \<and>
     length (inflight_bssid w) = WIFI_MAC_ADDR_LEN"

text \<open>Counting the credential events of the application.\<close>

fun is_outcome :: "network_prov_cb_event \<Rightarrow> bool" where
  "is_outcome (NETWORK_PROV_CRED_FAIL r) = True"
| "is_outcome NETWORK_PROV_CRED_SUCCESS = True"
| "is_outcome _ = False"

definition recvs :: "history \<Rightarrow> nat" where
  "recvs h = length (filter ((=) NETWORK_PROV_CRED_RECV) (app_events h))"

definition outcomes :: "history \<Rightarrow> nat" where
  "outcomes h = length (filter is_outcome (app_events h))"

text \<open>The invariant: well-formed buffers; while the handler is registered the reported state is
  Connecting exactly while an attempt is in flight; and every outcome event belongs to an earlier
  CRED_RECV event that no other outcome answered, with one left over while an attempt is in
  flight.\<close>

definition wifi_inv :: "world \<Rightarrow> bool" where
  "wifi_inv s \<longleftrightarrow> wc_wf (wc s) \<and>
     (if wc_cb_registered (wc s)
      then sta_state (wc s) = WifiSta_Connecting \<longleftrightarrow> 0 < inflight_ssid_len (wc s)
      else inflight_ssid_len (wc s) = 0) \<and>
     (event_cb (mgr s) \<longrightarrow>
       outcomes (hist s) + (if 0 < inflight_ssid_len (wc s) then 1 else 0) \<le> recvs (hist s))"

text \<open>Documented behaviour of the credential store: an empty SSID is refused.\<close>

definition cred_store_rejects_empty :: "env \<Rightarrow> bool" where
  "cred_store_rejects_empty E \<longleftrightarrow>
     (\<forall>h c. cr_ssid c = [] \<longrightarrow> cred_set_personal_ret (wifi E) h c \<noteq> 0)"

inductive wifi_step :: "env \<Rightarrow> world \<Rightarrow> world \<Rightarrow> bool" for E where
  request: "wc_cb_registered (wc s) \<Longrightarrow>
    run_state (network_prov_wifi_config_handler E b) s = (r, s') \<Longrightarrow> wifi_step E s s'"
| event: "wc_cb_registered (wc s) \<Longrightarrow>
    run_state (wifi_config_mgmt_event E ev) s = (u, s') \<Longrightarrow> wifi_step E s s'"
| retry: "run_state (retry_work_handler E) s = (u, s') \<Longrightarrow> wifi_step E s s'"
| configure: "wc_cb_registered (wc s) \<Longrightarrow>
    run_state (network_prov_wifi_config_set_and_apply E ssid psk) s = (n, s') \<Longrightarrow> wifi_step E s s'"
| reset: "run_state network_prov_wifi_config_reset s = (u, s') \<Longrightarrow> wifi_step E s s'"
| init: "\<not> wc_cb_registered (wc s) \<Longrightarrow>
    run_state (network_prov_wifi_config_init n) s = (k, s') \<Longrightarrow> wifi_step E s s'"
| deinit: "run_state network_prov_wifi_config_deinit s = (u, s') \<Longrightarrow> wifi_step E s s'"
| other: "wc s' = wc s \<Longrightarrow> event_cb (mgr s') = event_cb (mgr s) \<Longrightarrow>
    recvs (hist s') = recvs (hist s) \<Longrightarrow> outcomes (hist s') = outcomes (hist s) \<Longrightarrow> wifi_step E s s'"

inductive wifi_reach :: "env \<Rightarrow> world \<Rightarrow> bool" for E where
  boot: "wc s = wc_zero \<Longrightarrow> outcomes (hist s) \<le> recvs (hist s) \<Longrightarrow> wifi_reach E s"
| step: "wifi_reach E s \<Longrightarrow> wifi_step E s s' \<Longrightarrow> wifi_reach E s'"

inductive_cases wifi_stepE: "wifi_step E s s'"

lemma event_counts [simp]:
  "recvs (event_calls E m ev @ h) = (if event_cb m \<and> ev = NETWORK_PROV_CRED_RECV then 1 else 0) + recvs h"
  "outcomes (event_calls E m ev @ h) = (if event_cb m \<and> is_outcome ev then 1 else 0) + outcomes h"
  "recvs (connect_calls E s @ h) = recvs h" "outcomes (connect_calls E s @ h) = outcomes h"
  "recvs (Wifi w # h) = recvs h" "outcomes (Wifi w # h) = outcomes h"
  "recvs (Kern k # h) = recvs h" "outcomes (Kern k # h) = outcomes h"
  by (auto simp: recvs_def outcomes_def)

lemma final_failure_inv:
  assumes "wifi_inv s" "0 < inflight_ssid_len (wc s)"
  shows "wp (final_failure E) (\<lambda>_. wifi_inv) s"
  using assms by (auto simp: final_failure_def wifi_inv_def wc_wf_def split: if_splits)

lemma retry_inv: "wifi_inv s \<Longrightarrow> wp (retry_work_handler E) (\<lambda>_. wifi_inv) s"
  by (auto simp: retry_work_handler_def intro!: final_failure_inv) (auto simp: wifi_inv_def)

lemma event_inv: "wifi_inv s \<Longrightarrow> wc_cb_registered (wc s) \<Longrightarrow> wp (wifi_config_mgmt_event E ev) (\<lambda>_. wifi_inv) s"
  by (auto simp: wifi_config_mgmt_event_def on_connect_result_def wifi_inv_def wc_wf_def final_failure_def
      split: wifi_event.split if_splits)

lemma reset_inv:
  "wifi_inv s \<Longrightarrow> wp network_prov_wifi_config_reset (\<lambda>_. wifi_inv) s"
  "wifi_inv s \<Longrightarrow> wp network_prov_wifi_config_deinit (\<lambda>_. wifi_inv) s"
  "wifi_inv s \<Longrightarrow> \<not> wc_cb_registered (wc s) \<Longrightarrow> wp (network_prov_wifi_config_init n) (\<lambda>_. wifi_inv) s"
  by (auto simp: wifi_op_defs wifi_inv_def wc_wf_def split: if_splits)

lemma set_config_inv: "wifi_inv s \<Longrightarrow> wp (wifi_do_set_config cmd) (\<lambda>_. wifi_inv) s"
  by (auto simp: wifi_do_set_config_def wifi_inv_def wc_wf_def length_memcpy_at)

lemma snapshot_wf:
  "wc_wf w \<Longrightarrow> wc_wf (snapshot_inflight w)"
  "wc_cb_registered (snapshot_inflight w) = wc_cb_registered w"
  "inflight_ssid_len (snapshot_inflight w) = wc_ssid_len w" "sta_state (snapshot_inflight w) = sta_state w"
  by (auto simp: wc_wf_def snapshot_inflight_def length_memcpy_at)

lemma wc_wf_state [simp]: "wc_wf (w\<lparr>sta_state := x\<rparr>) = wc_wf w"
  by (simp add: wc_wf_def)

lemma apply_inv:
  assumes inv: "wifi_inv s" and reg: "wc_cb_registered (wc s)" and law: "cred_store_rejects_empty E"
  shows "wp (wifi_do_apply_config E) (\<lambda>_. wifi_inv) s"
proof -
  have ne: "0 < wc_ssid_len (wc s)" if "cred_set_personal_ret (wifi E) h (staged_credential (wc s)) = 0" for h
  proof (rule ccontr)
    assume "\<not> 0 < wc_ssid_len (wc s)"
    then have "cr_ssid (staged_credential (wc s)) = []" by (simp add: staged_credential_def)
    with law that show False by (auto simp: cred_store_rejects_empty_def)
  qed
  have clear: "wc_wf (w\<lparr>sta_state := a, fail_reason := b, inflight_ssid := zeros 33,
      inflight_ssid_len := 0, inflight_pass := zeros 64, inflight_pass_len := 0,
      inflight_has_bssid := False, inflight_channel := 0\<rparr>)" if "wc_wf w" for w a b
    using that by (simp add: wc_wf_def)
  show ?thesis
    using inv reg ne
    by (auto simp: wifi_do_apply_config_def wifi_inv_def snapshot_wf clear split: option.split if_splits)
qed

lemma set_and_apply_inv:
  assumes inv: "wifi_inv s" and reg: "wc_cb_registered (wc s)" and law: "cred_store_rejects_empty E"
  shows "wp (network_prov_wifi_config_set_and_apply E ssid psk) (\<lambda>_. wifi_inv) s"
proof -
  have st: "wifi_inv (s\<lparr>wc := (wc s)\<lparr>wc_ssid := memcpy (zeros 33) sd, wc_ssid_len := length sd,
            wc_pass := memcpy (zeros 64) pw, wc_pass_len := length pw,
            wc_has_bssid := False, wc_channel := 0\<rparr>\<rparr>)"
    if "length sd \<le> SSID_MAX" "length pw \<le> PASS_MAX" for sd pw
    using inv that by (auto simp: wifi_inv_def wc_wf_def length_memcpy_at)
  from reg law show ?thesis
    using inv st [of _ "[]"] by (auto simp: network_prov_wifi_config_set_and_apply_def Let_def st
        intro!: apply_inv split: option.split)
qed

lemma wifi_inv_only_hist:
  "only_hist s s' \<Longrightarrow> app_events (hist s') = app_events (hist s) \<Longrightarrow> wifi_inv s' = wifi_inv s"
  by (elim only_histE) (simp add: wifi_inv_def recvs_def outcomes_def)

lemma pb_encode_inv: "wifi_inv s \<Longrightarrow> wp (network_prov_pb_encode E c m) (\<lambda>_. wifi_inv) s"
  by (rule wp_mono [OF pb_encode_spec]) (auto simp: wifi_inv_only_hist dest: pb_postD(3))

lemma handler_inv:
  assumes inv: "wifi_inv s" and reg: "wc_cb_registered (wc s)" and law: "cred_store_rejects_empty E"
  shows "wp (network_prov_wifi_config_handler E b) (\<lambda>_. wifi_inv) s"
proof -
  have fill: "wp (fill_connected_state E) (\<lambda>_. wifi_inv) s"
    using inv by (simp add: fill_connected_state_def wifi_inv_def split: option.split)
  have "wp (wifi_encode_get_status E) (\<lambda>_. wifi_inv) s"
    unfolding wifi_encode_get_status_def using inv
    by (auto intro!: pb_encode_inv wp_mono [OF fill])
  moreover have "wp (wifi_encode_simple E ty st) (\<lambda>_. wifi_inv) t" if "wifi_inv t" for ty st t
    unfolding wifi_encode_simple_def using that by (rule pb_encode_inv)
  ultimately show ?thesis
    unfolding network_prov_wifi_config_handler_def using inv reg law
    by (auto split: option.split NetworkConfigMsgType.split
        intro!: wp_mono [OF set_config_inv] wp_mono [OF apply_inv])
qed

lemma wifi_step_inv:
  assumes "wifi_step E s s'" "wifi_inv s" "cred_store_rejects_empty E"
  shows "wifi_inv s'"
  using assms(1)
proof (cases rule: wifi_step.cases)
  case other
  with assms(2) show ?thesis by (simp add: wifi_inv_def)
qed (use assms(2,3) in \<open>blast dest: wp_runD [OF handler_inv] wp_runD [OF event_inv] wp_runD [OF retry_inv]
   wp_runD [OF set_and_apply_inv] wp_runD [OF reset_inv(1)] wp_runD [OF reset_inv(2)]
   wp_runD [OF reset_inv(3)]\<close>)+

lemma wifi_reach_inv:
  assumes "wifi_reach E s" and law: "cred_store_rejects_empty E"
  shows "wifi_inv s"
  using assms(1)
proof induction
  case (boot s)
  then show ?case by (simp add: wifi_inv_def wc_zero_def wc_wf_def)
next
  case (step s s')
  with law show ?case by (blast intro: wifi_step_inv)
qed

section \<open>The retry budget\<close>

text \<open>The kernel runs the retry work item, provided that it is armed.\<close>

definition due_retry :: "env \<Rightarrow> unit prog" where
  "due_retry E = do {
     a \<leftarrow> gets (\<lambda>s. armed Retry_work (hist s));
     if_do a (do { ext_call (Kern (K_work_run Retry_work)); retry_work_handler E }) }"

text \<open>A run of failed attempts: each result is delivered, then the retry runs if it was scheduled.\<close>

fun failed_attempts :: "env \<Rightarrow> int list \<Rightarrow> unit prog" where
  "failed_attempts E [] = ret ()"
| "failed_attempts E (st # sts) = do {
     wifi_config_mgmt_event E (NET_EVENT_WIFI_CONNECT_RESULT st);
     due_retry E;
     failed_attempts E sts }"

definition reason_of :: "int \<Rightarrow> network_prov_cred_fail_reason" where
  "reason_of st = (if st = WIFI_STATUS_CONN_AP_NOT_FOUND then NETWORK_PROV_WIFI_NETWORK_NOT_FOUND
     else NETWORK_PROV_WIFI_AUTH_ERROR)"

definition connects_accepted :: "env \<Rightarrow> bool" where
  "connects_accepted E \<longleftrightarrow> (\<forall>h. wifi_iface_of E h \<noteq> None) \<and> (\<forall>h i p. wifi_connect_ret (wifi E) h i p = 0)"

lemma connect_accepted:
  assumes "connects_accepted E"
  shows "connect_ret E s = 0" "conn_requests (connect_calls E s @ h) = inflight_params (wc s) # conn_requests h"
  using assms by (auto simp: connects_accepted_def connect_ret_def connect_calls_def split: option.split)

lemma event_calls_requests [simp]:
  "conn_requests (event_calls E m ev @ h) = conn_requests h" "retry_delays (event_calls E m ev @ h) = retry_delays h"
  by (simp_all add: event_calls_def)

text \<open>The number of attempts left before the next failure is final.\<close>

definition attempts_left :: "wifi_config_state \<Rightarrow> nat" where
  "attempts_left w = (if attempts_max w = 0 then 1 else unat (attempts_max w) - unat (attempts_completed w))"

definition failed_state :: "int \<Rightarrow> wifi_config_state \<Rightarrow> bool" where
  "failed_state st w' \<longleftrightarrow> sta_state w' = WifiSta_ConnectionFailed \<and> inflight_ssid_len w' = 0 \<and>
     fail_reason w' = (if st = WIFI_STATUS_CONN_AP_NOT_FOUND then WifiNetworkNotFound else AuthError)"

lemma failed_attempts_idle:
  "inflight_ssid_len (wc s) = 0 \<Longrightarrow> \<not> armed Retry_work (hist s) \<Longrightarrow> wp (failed_attempts E sts) Q s = Q () s"
  by (induction sts) (simp_all add: wifi_config_mgmt_event_def on_connect_result_def due_retry_def)

lemma word_incr_less:
  fixes x y :: u32
  assumes "x < y"
  shows "unat (x + 1) = unat x + 1" "x + 1 < y \<longleftrightarrow> unat x + 1 < unat y"
proof -
  have "x \<noteq> - 1" using assms word_order.extremum_strict by auto
  then have "1 + x \<noteq> 0" by (metis add.commute eq_neg_iff_add_eq_0)
  then show "unat (x + 1) = unat x + 1" using unatSuc [of x] by (simp add: add.commute)
  then show "x + 1 < y \<longleftrightarrow> unat x + 1 < unat y" by (simp add: word_less_nat_alt)
qed

text \<open>After a run of failed attempts: while the budget lasts each failure is answered by one more connect request
  with the same parameters, which was scheduled with a delay of a second, and the application hears nothing; the failure
  that uses up the budget is reported once, with its own cause, the credentials of the attempt are dropped, and later
  results change nothing.\<close>

definition retry_outcome :: "int list \<Rightarrow> world \<Rightarrow> world \<Rightarrow> bool" where
  "retry_outcome sts s s' \<longleftrightarrow> mgr s' = mgr s \<and>
    conn_requests (hist s') = replicate (min (length sts) (attempts_left (wc s) - 1)) (inflight_params (wc s)) @ conn_requests (hist s) \<and>
    retry_delays (hist s') = replicate (min (length sts) (attempts_left (wc s) - 1)) 1000 @ retry_delays (hist s) \<and>
    (armed Retry_work (hist s') \<longleftrightarrow> sts = [] \<and> armed Retry_work (hist s)) \<and>
    (if length sts < attempts_left (wc s)
     then 0 < inflight_ssid_len (wc s') \<and> inflight_params (wc s') = inflight_params (wc s) \<and>
       (if sts = [] then wc s' = wc s
        else sta_state (wc s') = WifiSta_Connecting \<and> attempt_failed (wc s')) \<and>
       attempts_left (wc s') = attempts_left (wc s) - length sts \<and>
       app_events (hist s') = app_events (hist s)
     else failed_state (sts ! (attempts_left (wc s) - 1)) (wc s') \<and>
       Wifi (Cred_delete_by_ssid (cp_ssid (inflight_params (wc s)))) \<in> set (hist s') \<and>
       app_events (hist s') = (if event_cb (mgr s)
         then [NETWORK_PROV_CRED_FAIL (reason_of (sts ! (attempts_left (wc s) - 1)))] else []) @
         app_events (hist s))"

lemma failed_round:
  assumes ok: "connects_accepted E" and fl: "0 < inflight_ssid_len (wc s)" and st: "st \<noteq> 0"
    and bud: "0 < attempts_left (wc s)"
  shows "wp (do { wifi_config_mgmt_event E (NET_EVENT_WIFI_CONNECT_RESULT st); due_retry E })
    (\<lambda>_. retry_outcome [st] s) s"
proof (cases "attempts_max (wc s) = 0")
  case True
  with fl st show ?thesis
    by (auto simp: wifi_config_mgmt_event_def on_connect_result_def final_failure_def due_retry_def retry_work_handler_def
        retry_outcome_def attempts_left_def
        failed_state_def reason_of_def inflight_params_def)
next
  case False
  then have pos: "0 < attempts_max (wc s)" by (simp add: word_neq_0_conv)
  from False bud have lt: "attempts_completed (wc s) < attempts_max (wc s)"
    by (simp add: attempts_left_def word_less_nat_alt)
  note w = word_incr_less [OF lt]
  from lt have "unat (attempts_completed (wc s)) < unat (attempts_max (wc s))"
    by (simp add: word_less_nat_alt)
  with False fl st pos lt w show ?thesis
    by (auto simp: wifi_config_mgmt_event_def on_connect_result_def final_failure_def due_retry_def retry_work_handler_def
        retry_outcome_def attempts_left_def
        failed_state_def reason_of_def inflight_params_def connect_accepted [OF ok])
qed

lemma failed_attempts_budget:
  assumes ok: "connects_accepted E"
  shows "0 < inflight_ssid_len (wc s) \<Longrightarrow> 0 < attempts_left (wc s) \<Longrightarrow> \<forall>st \<in> set sts. st \<noteq> 0 \<Longrightarrow>
    wp (failed_attempts E sts) (\<lambda>_. retry_outcome sts s) s"
proof (induction sts arbitrary: s)
  case Nil
  then show ?case by (simp add: retry_outcome_def)
next
  case (Cons st sts)
  let ?round = "do { wifi_config_mgmt_event E (NET_EVENT_WIFI_CONNECT_RESULT st); due_retry E }"
  have run: "failed_attempts E (st # sts) = do { _ \<leftarrow> ?round; failed_attempts E sts }" by simp
  have rest: "wp (failed_attempts E sts) (\<lambda>_. retry_outcome (st # sts) s) s'"
    if R: "retry_outcome [st] s s'" for s'
  proof (cases "attempts_left (wc s) = 1")
    case True
    with R show ?thesis by (simp add: failed_attempts_idle failed_state_def retry_outcome_def)
  next
    case False
    with Cons.prems(2) have L: "1 < attempts_left (wc s)" by simp
    have more: "replicate (min (Suc n) (attempts_left (wc s) - 1)) x @ h = replicate (min n (attempts_left (wc s) - 1 - 1)) x @ x # h"
      for n and x :: 'x and h
      using L by (cases "attempts_left (wc s) - 1") (simp_all add: replicate_app_Cons_same)
    from R L have s': "0 < inflight_ssid_len (wc s')" "attempts_left (wc s') = attempts_left (wc s) - 1" "mgr s' = mgr s"
      "inflight_params (wc s') = inflight_params (wc s)" "app_events (hist s') = app_events (hist s)"
      "conn_requests (hist s') = inflight_params (wc s) # conn_requests (hist s)" "retry_delays (hist s') = 1000 # retry_delays (hist s)"
      "sta_state (wc s') = WifiSta_Connecting \<and> attempt_failed (wc s')" "\<not> armed Retry_work (hist s')"
      by (simp_all add: retry_outcome_def)
    show ?thesis
    proof (rule wp_mono [OF Cons.IH])
      fix a u
      assume u: "retry_outcome sts s' u"
      show "retry_outcome (st # sts) s u"
        using u L unfolding retry_outcome_def list.size(4) add_Suc_right add_0_right more s'
        by (cases "sts = []") (auto simp: s' nth_Cons' less_diff_conv split: if_splits)
    qed (use s' L Cons.prems(3) in auto)
  qed
  show ?case
    unfolding run wp_bind [of ?round]
    by (rule wp_mono [OF failed_round [OF ok]]) (use Cons.prems rest in auto)
qed

section \<open>What Set and Apply do\<close>

text \<open>The credential and the connect request that belong to a SetWifiConfig command; its channel
  is cut to 8 bits, and 0 then means any channel.\<close>

definition credential_of :: "CmdSetWifiConfig \<Rightarrow> wifi_credential" where
  "credential_of cmd = \<lparr>
     cr_ssid = cmd_ssid cmd,
     cr_security = (if cmd_passphrase cmd = [] then WIFI_SECURITY_TYPE_NONE else WIFI_SECURITY_TYPE_PSK),
     cr_bssid = (if length (cmd_bssid cmd) = WIFI_MAC_ADDR_LEN then Some (cmd_bssid cmd) else None),
     cr_password = cmd_passphrase cmd,
     cr_flags = (if length (cmd_bssid cmd) = WIFI_MAC_ADDR_LEN then WIFI_CREDENTIALS_FLAG_BSSID else 0),
     cr_channel = ucast (cmd_channel cmd),
     cr_timeout = 0\<rparr>"

definition request_of :: "CmdSetWifiConfig \<Rightarrow> wifi_connect_req_params" where
  "request_of cmd = \<lparr>
     cp_ssid = cmd_ssid cmd,
     cp_psk = (if cmd_passphrase cmd = [] then None else Some (cmd_passphrase cmd)),
     cp_security = (if cmd_passphrase cmd = [] then WIFI_SECURITY_TYPE_NONE else WIFI_SECURITY_TYPE_PSK),
     cp_channel = (if ucast (cmd_channel cmd) = (0 :: u8) then WIFI_CHANNEL_ANY else ucast (cmd_channel cmd)),
     cp_band = WIFI_FREQ_BAND_UNKNOWN,
     cp_bssid = (if length (cmd_bssid cmd) = WIFI_MAC_ADDR_LEN then cmd_bssid cmd
       else zeros WIFI_MAC_ADDR_LEN)\<rparr>"

definition cmd_valid :: "CmdSetWifiConfig \<Rightarrow> bool" where
  "cmd_valid cmd \<longleftrightarrow> cmd_ssid cmd \<noteq> [] \<and> length (cmd_ssid cmd) \<le> SSID_MAX \<and>
     length (cmd_passphrase cmd) \<le> PASS_MAX"

text \<open>The staged fields hold the command.\<close>

definition staged :: "CmdSetWifiConfig \<Rightarrow> wifi_config_state \<Rightarrow> bool" where
  "staged cmd w \<longleftrightarrow> wc_wf w \<and> 0 < wc_ssid_len w \<and>
     take (wc_ssid_len w) (wc_ssid w) = cmd_ssid cmd \<and>
     wc_pass_len w = length (cmd_passphrase cmd) \<and>
     take (wc_pass_len w) (wc_pass w) = cmd_passphrase cmd \<and>
     wc_has_bssid w = (length (cmd_bssid cmd) = WIFI_MAC_ADDR_LEN) \<and>
     (wc_has_bssid w \<longrightarrow> wc_bssid w = cmd_bssid cmd) \<and> wc_channel w = ucast (cmd_channel cmd)"

lemma set_config_staged:
  assumes "wc_wf (wc s)"
  shows "wp (wifi_do_set_config cmd) (\<lambda>st s'. if cmd_valid cmd then st = Status_Success \<and> staged cmd (wc s')
    else st = Status_InvalidArgument \<and> s' = s) s"
  using assms
  by (auto simp: wifi_do_set_config_def cmd_valid_def staged_def wc_wf_def length_memcpy_at memcpy_full)

lemma staged_credential_eq: "staged cmd w \<Longrightarrow> staged_credential w = credential_of cmd"
  by (auto simp: staged_def staged_credential_def credential_of_def security_from_pass_def)

lemma snapshot_request: "staged cmd w \<Longrightarrow> inflight_params (snapshot_inflight w) = request_of cmd"
  by (auto simp: inflight_params_def snapshot_inflight_def request_of_def staged_def wc_wf_def
      memcpy_full word_gt_0)

lemma occurs: "(\<exists>h k. l = k @ x # h) \<longleftrightarrow> x \<in> set l"
  by (metis in_set_conv_decomp)

lemma apply_uses_staged:
  assumes st: "staged cmd (wc s)" and ifc: "\<And>h. wifi_iface_of E h = Some i"
    and store: "\<And>h. cred_set_personal_ret (wifi E) h (credential_of cmd) = 0"
  shows "wp (wifi_do_apply_config E) (\<lambda>r s'. r = Status_Success \<and>
     (\<exists>h k. hist s' = k @ Wifi (Wifi_connect i (request_of cmd)) # h @
        Wifi (Cred_set_personal (credential_of cmd)) #
        Wifi (Cred_delete_by_ssid (cmd_ssid cmd)) # hist s)) s"
proof -
  have req: "inflight_params (snapshot_inflight ((wc s)\<lparr>sta_state := x\<rparr>)) = request_of cmd" for x
    using st by (intro snapshot_request) (auto simp: staged_def)
  have cred: "staged_credential (wc s) = credential_of cmd"
    "take (wc_ssid_len (wc s)) (wc_ssid (wc s)) = cmd_ssid cmd"
    using st by (simp_all add: staged_credential_eq) (simp add: staged_def)
  show ?thesis
    by (simp add: wifi_do_apply_config_def ifc store cred connect_calls_def req occurs)
qed

section \<open>Properties\<close>

text \<open>A concrete run for the evaluations below: the handler is initialised with two attempts and
  the application configures a network.\<close>

definition demo_world :: world where
  "demo_world = (boot_world ok_env)\<lparr>mgr := (mgr_zero ok_env)\<lparr>event_cb := True\<rparr>,
     wc := wc_zero\<lparr>wc_cb_registered := True, sta_state := WifiSta_Disconnected, attempts_max := 2\<rparr>\<rparr>"

definition demo_cmd :: CmdSetWifiConfig where
  "demo_cmd = \<lparr>cmd_ssid = [104, 111], cmd_passphrase = [1, 2, 3, 4, 5, 6, 7, 8], cmd_bssid = [],
     cmd_channel = 262\<rparr>"

lemma ok_env_laws:
  "cred_store_rejects_empty ok_env" "wifi_iface_of ok_env h = Some 1" "connects_accepted ok_env"
  by (simp_all add: cred_store_rejects_empty_def wifi_iface_of_def connects_accepted_def ok_env_def ok_wifi_def)

lemma demo_reach: "\<exists>s. wifi_reach ok_env s \<and> event_cb (mgr s) \<and> wc_cb_registered (wc s) \<and>
    sta_state (wc s) = WifiSta_Connecting \<and> attempts_left (wc s) = 2 \<and> 0 < inflight_ssid_len (wc s)"
proof -
  let ?b = "(boot_world ok_env)\<lparr>mgr := (mgr_zero ok_env)\<lparr>event_cb := True\<rparr>\<rparr>"
  let ?m1 = "network_prov_wifi_config_init 2"
  let ?m2 = "network_prov_wifi_config_set_and_apply ok_env (Some [104, 111]) None"
  let ?s1 = "snd (run_state ?m1 ?b)"
  let ?s2 = "snd (run_state ?m2 ?s1)"
  have b: "wifi_reach ok_env ?b"
    by (rule wifi_reach.boot) (simp_all add: boot_world_def outcomes_def)
  have 1: "wp ?m1 (\<lambda>_ s'. event_cb (mgr s') \<and> wc_cb_registered (wc s') \<and>
      wc s' = wc_zero\<lparr>wc_cb_registered := True, sta_state := WifiSta_Disconnected, attempts_max := 2\<rparr>) ?b"
    by (simp add: network_prov_wifi_config_init_def boot_world_def wc_zero_def)
  have 2: "wp ?m2 (\<lambda>_ s'. event_cb (mgr s') \<and> wc_cb_registered (wc s') \<and>
      sta_state (wc s') = WifiSta_Connecting \<and> attempts_left (wc s') = 2 \<and> 0 < inflight_ssid_len (wc s')) ?s1"
    using 1 [unfolded wp_sel]
    by (simp add: network_prov_wifi_config_set_and_apply_def wifi_do_apply_config_def ok_env_laws
        connect_accepted snapshot_inflight_def attempts_left_def wc_zero_def)
      (simp add: ok_env_def ok_wifi_def staged_credential_def memcpy_at_def)
  have "wifi_step ok_env ?b ?s1"
    by (rule wifi_step.init [of _ 2 "fst (run_state ?m1 ?b)"]) (simp_all add: boot_world_def wc_zero_def)
  moreover have "wifi_step ok_env ?s1 ?s2"
    using 1 [unfolded wp_sel]
    by (intro wifi_step.configure [of _ _ "Some [104, 111]" None "fst (run_state ?m2 ?s1)"]) simp_all
  ultimately have "wifi_reach ok_env ?s2" using b by (meson wifi_reach.step)
  with 2 [unfolded wp_sel] show ?thesis by blast
qed

text \<open>Memory safety and state of the Wi-Fi handler: from boot on, after any sequence of requests
  of any content, connect results, retries, resets and restarts, every array keeps its size, every
  length stays inside its array, and the state reported to the client is Connecting exactly while
  an attempt is in flight.\<close>

theorem wifi_config_state_safe:
  assumes "cred_store_rejects_empty E" and "wifi_reach E s"
  shows "wc_wf (wc s) \<and> (if wc_cb_registered (wc s)
      then sta_state (wc s) = WifiSta_Connecting \<longleftrightarrow> 0 < inflight_ssid_len (wc s)
      else inflight_ssid_len (wc s) = 0)"
  using wifi_reach_inv [OF assms(2,1)] by (simp add: wifi_inv_def)

theorem wifi_config_state_safe_witness:
  "\<exists>s. wifi_reach ok_env s \<and> wc_wf (wc s) \<and> sta_state (wc s) = WifiSta_Connecting \<and>
     0 < inflight_ssid_len (wc s)"
proof -
  obtain s where s: "wifi_reach ok_env s" "wc_cb_registered (wc s)" "sta_state (wc s) = WifiSta_Connecting"
    using demo_reach by blast
  with wifi_config_state_safe [OF ok_env_laws(1) s(1)] show ?thesis by auto
qed

text \<open>The application is never told an outcome without its cause: in every reachable state the
  number of CRED_SUCCESS and CRED_FAIL events is at most the number of CRED_RECV events, and
  strictly smaller while an attempt is in flight (each Apply yields at most one outcome).\<close>

theorem wifi_outcome_after_cred_recv:
  assumes "cred_store_rejects_empty E" and "wifi_reach E s" and "event_cb (mgr s)"
  shows "outcomes (hist s) + (if 0 < inflight_ssid_len (wc s) then 1 else 0) \<le> recvs (hist s)"
  using wifi_reach_inv [OF assms(2,1)] assms(3) by (simp add: wifi_inv_def)

theorem wifi_outcome_after_cred_recv_witness:
  "\<exists>s. wifi_reach ok_env s \<and> event_cb (mgr s) \<and> 0 < inflight_ssid_len (wc s) \<and>
     outcomes (hist s) + 1 \<le> recvs (hist s)"
proof -
  obtain s where s: "wifi_reach ok_env s" "event_cb (mgr s)" "0 < inflight_ssid_len (wc s)"
    using demo_reach by blast
  with wifi_outcome_after_cred_recv [OF ok_env_laws(1) s(1,2)] show ?thesis by auto
qed

text \<open>C32. The retry budget: with \<open>n\<close> attempts left, each failed connect result before the \<open>n\<close>-th schedules the retry
  with a delay of one second, and when the kernel runs the work item, which it does only when it is armed, one connect
  request with the same parameters is made; the application hears nothing of it. The \<open>n\<close>-th failure is reported exactly once (with
  its own cause: network not found for AP_NOT_FOUND, authentication error otherwise), makes the state
  ConnectionFailed and drops the stored credentials of the attempt; results after that change nothing and no retry is
  left armed. So there are exactly \<open>n - 1\<close> retries. Zero configured attempts mean one.\<close>

theorem wifi_retry_budget:
  assumes "connects_accepted E" and "0 < inflight_ssid_len (wc s)" and "0 < attempts_left (wc s)"
    and "\<forall>st \<in> set sts. st \<noteq> 0"
  shows "wp (failed_attempts E sts) (\<lambda>_. retry_outcome sts s) s"
  using assms by (rule failed_attempts_budget)

theorem wifi_retry_budget_witness:
  "\<exists>s. wifi_reach ok_env s \<and> event_cb (mgr s) \<and> attempts_left (wc s) = 2 \<and>
     wp (failed_attempts ok_env [1, 4, 2]) (\<lambda>_. retry_outcome [1, 4, 2] s) s"
proof -
  obtain s where s: "wifi_reach ok_env s" "event_cb (mgr s)" "0 < inflight_ssid_len (wc s)"
    "attempts_left (wc s) = 2" using demo_reach by blast
  with wifi_retry_budget [OF ok_env_laws(3) s(3), of "[1, 4, 2]"] show ?thesis by auto
qed

text \<open>C33. Apply uses what Set received: after a valid SetWifiConfig (SSID of 1 to 32 bytes, passphrase
  of at most 63) the next ApplyWifiConfig replaces the store's entry for this SSID by exactly the
  received credentials and then requests a connection with exactly these (the channel cut to 8
  bits, 0 meaning any); a command with other lengths is answered InvalidArgument and changes
  nothing.\<close>

theorem wifi_set_apply_credentials:
  assumes "wc_wf (wc s)" and "\<And>h. wifi_iface_of E h = Some i"
    and "\<And>h. cred_set_personal_ret (wifi E) h (credential_of cmd) = 0"
  shows "wp (do { st \<leftarrow> wifi_do_set_config cmd;
       (if st = Status_Success then wifi_do_apply_config E else ret st) })
     (\<lambda>r s'. if cmd_valid cmd
       then r = Status_Success \<and> (\<exists>h k. hist s' = k @ Wifi (Wifi_connect i (request_of cmd)) # h @
          Wifi (Cred_set_personal (credential_of cmd)) # Wifi (Cred_delete_by_ssid (cmd_ssid cmd)) # hist s)
       else r = Status_InvalidArgument \<and> s' = s) s"
proof (cases "cmd_valid cmd")
  case True
  have "wp (wifi_do_set_config cmd) (\<lambda>st s'. hist s' = hist s) s"
    by (simp add: wifi_do_set_config_def)
  from wp_conj [OF set_config_staged [OF assms(1)] this] True show ?thesis
    by simp (erule wp_mono, auto intro!: wp_mono [OF apply_uses_staged [OF _ assms(2,3)]] simp: occurs)
next
  case False
  with set_config_staged [OF assms(1), of cmd] show ?thesis
    by simp (erule wp_mono, simp)
qed

theorem wifi_set_apply_credentials_witness:
  "wp (do { st \<leftarrow> wifi_do_set_config demo_cmd;
       (if st = Status_Success then wifi_do_apply_config ok_env else ret st) })
     (\<lambda>r s'. r = Status_Success \<and> (\<exists>h k. hist s' = k @ Wifi (Wifi_connect 1 (request_of demo_cmd)) # h @
          Wifi (Cred_set_personal (credential_of demo_cmd)) #
          Wifi (Cred_delete_by_ssid [104, 111]) # hist demo_world)) demo_world"
proof -
  have "wc_wf (wc demo_world)" "cmd_valid demo_cmd" "cmd_ssid demo_cmd = [104, 111]"
    by (simp_all add: demo_world_def wc_zero_def wc_wf_def demo_cmd_def cmd_valid_def)
  moreover have "cred_set_personal_ret (wifi ok_env) h (credential_of demo_cmd) = 0" for h
    by (simp add: ok_env_def ok_wifi_def credential_of_def demo_cmd_def)
  ultimately show ?thesis
    using wifi_set_apply_credentials [of demo_world ok_env 1 demo_cmd] ok_env_laws(2) by simp
qed

end
