(* ===== verification/Wifi_Ctrl.thy ===== *)
theory Wifi_Ctrl
  imports Wifi_Config
begin

text \<open>
  \<^verbatim>\<open>src/src/wifi_ctrl_handler.c\<close>: the prov-ctrl endpoint for Wi-Fi.
\<close>

definition network_prov_wifi_ctrl_handler :: "env \<Rightarrow> bytes \<Rightarrow> (int \<times> bytes option) prog" where
  "network_prov_wifi_ctrl_handler E inbuf =
    (case pb_decode (NetworkCtrl_codec (nanopb E)) inbuf of
       None \<Rightarrow> ret (- EINVAL, None)
     | Some req \<Rightarrow>
       (case ctrl_msg req of
          TypeCmdCtrlWifiReset \<Rightarrow> do {
            network_prov_wifi_config_reset;
            network_prov_pb_encode E (NetworkCtrl_codec (nanopb E))
              \<lparr>ctrl_msg = TypeRespCtrlWifiReset, ctrl_status = Status_Success,
               ctrl_payload = Resp_ctrl_wifi_reset\<rparr> }
        | TypeCmdCtrlWifiReprov \<Rightarrow> do {
            network_prov_wifi_config_reset;
            network_prov_pb_encode E (NetworkCtrl_codec (nanopb E))
              \<lparr>ctrl_msg = TypeRespCtrlWifiReprov, ctrl_status = Status_Success,
               ctrl_payload = Resp_ctrl_wifi_reprov\<rparr> }
        | _ \<Rightarrow> ret (- ENOTSUP, None)))"

fun is_ctrl_response :: "NetworkCtrlMsgType \<Rightarrow> bool" where
  "is_ctrl_response TypeRespCtrlWifiReset = True"
| "is_ctrl_response TypeRespCtrlWifiReprov = True"
| "is_ctrl_response TypeRespCtrlThreadReset = True"
| "is_ctrl_response TypeRespCtrlThreadReprov = True"
| "is_ctrl_response _ = False"

lemma wifi_ctrl_handler_contract:
  "wp (network_prov_wifi_ctrl_handler E b) (\<lambda>r s'. wifi_frame s s' \<and> out_contract (hist s) r (hist s') \<and>
     answers (NetworkCtrl_codec (nanopb E)) (\<lambda>m. is_ctrl_response (ctrl_msg m)) r) s"
proof -
  have enc: "wp (network_prov_pb_encode E (NetworkCtrl_codec (nanopb E)) m) (\<lambda>r s'. wifi_frame s s' \<and>
     out_contract (hist s) r (hist s') \<and>
     answers (NetworkCtrl_codec (nanopb E)) (\<lambda>m. is_ctrl_response (ctrl_msg m)) r) t"
    if "wifi_frame s t" "blocks (hist t) = blocks (hist s)" "is_ctrl_response (ctrl_msg m)" for m t
    by (rule wp_mono [OF pb_encode_spec])
      (use that in \<open>auto elim!: only_histE intro: out_contract_pb answers_pb\<close>)
  show ?thesis
    unfolding network_prov_wifi_ctrl_handler_def
    by (auto split: option.split NetworkCtrlMsgType.split simp: out_contract_refl
        intro!: wp_mono [OF wifi_ops_frame(5)] enc)
qed

text \<open>A reset makes the client's next try start afresh and silences the old attempt: after
  CmdCtrlWifiReset the reported state is Disconnected, nothing is staged or in flight, the queued
  retry is cancelled, and neither a late connect result nor a late run of the retry work item
  changes anything or reaches the application.\<close>

lemma wifi_reset_silences_attempt:
  "wp (do { network_prov_wifi_config_reset; t \<leftarrow> gets id;
            wifi_config_mgmt_event E (NET_EVENT_WIFI_CONNECT_RESULT st); retry_work_handler E; ret t })
     (\<lambda>t s'. s' = t \<and> sta_state (wc s') = WifiSta_Disconnected \<and> inflight_ssid_len (wc s') = 0 \<and>
        wc_ssid_len (wc s') = 0 \<and> wc_pass (wc s') = zeros 64 \<and> inflight_pass (wc s') = zeros 64 \<and>
        network_prov_wifi_config_remaining_attempts (wc s') = attempts_max (wc s) \<and>
        \<not> armed Retry_work (hist s') \<and> app_events (hist s') = app_events (hist s)) s"
  by (simp add: network_prov_wifi_config_reset_def wifi_config_mgmt_event_def on_connect_result_def
      retry_work_handler_def network_prov_wifi_config_remaining_attempts_def word_le_0_iff)

end
