(* ===== verification/Thread_Config.thy ===== *)
theory Thread_Config
  imports Wifi_Config
begin

text \<open>
  \<^verbatim>\<open>src/src/thread_config_handler.c\<close>: the prov-config endpoint for Thread. A dataset is staged and
  applied through OpenThread; the outcome is claimed either by the OpenThread state callback or by
  the attach timeout, whichever runs first (\<open>atomic_cas\<close> on \<open>pending\<close>, one atomic step each).
\<close>

section \<open>Operations\<close>

abbreviation (input) ATTACH_TIMEOUT_MS :: nat where "ATTACH_TIMEOUT_MS \<equiv> 30000"

definition role_is_attached :: "otDeviceRole \<Rightarrow> bool" where
  "role_is_attached role \<longleftrightarrow> role = OT_DEVICE_ROLE_CHILD \<or> role = OT_DEVICE_ROLE_ROUTER \<or>
     role = OT_DEVICE_ROLE_LEADER"

text \<open>\<open>atomic_cas(&tc.pending, 1, 0)\<close>.\<close>

definition claim_pending :: "bool prog" where
  "claim_pending = do {
     p \<leftarrow> gets (\<lambda>s. pending (tc s));
     upd_tc (\<lambda>t. t\<lparr>pending := False\<rparr>);
     ret p }"

definition on_attached :: "env \<Rightarrow> unit prog" where
  "on_attached E = do {
     won \<leftarrow> claim_pending;
     if \<not> won then ret ()
     else do {
       upd_tc (\<lambda>t. t\<lparr>tc_state := Thread_Attached\<rparr>);
       ext_call (Kern (K_work_cancel Attach_timeout));
       network_prov_emit_event E NETWORK_PROV_CRED_SUCCESS } }"

definition attach_timeout_fn :: "env \<Rightarrow> unit prog" where
  "attach_timeout_fn E = do {
     won \<leftarrow> claim_pending;
     if \<not> won then ret ()
     else do {
       upd_tc (\<lambda>t. t\<lparr>tc_state := Thread_AttachingFailed, tc_fail_reason := ThreadNetworkNotFound\<rparr>);
       network_prov_emit_event E (NETWORK_PROV_CRED_FAIL NETWORK_PROV_WIFI_NETWORK_NOT_FOUND) } }"

text \<open>The state callback; \<open>role_changed\<close> is the flag \<open>OT_CHANGED_THREAD_ROLE\<close>. It runs in OpenThread's
  context, so that its query needs no lock.\<close>

definition ot_state_changed :: "env \<Rightarrow> bool \<Rightarrow> unit prog" where
  "ot_state_changed E role_changed =
    (if \<not> role_changed then ret ()
     else do {
       role \<leftarrow> gets (\<lambda>s. otThreadGetDeviceRole (ot E) (hist s));
       if_do (role_is_attached role) (on_attached E) })"

definition network_prov_thread_config_init :: "env \<Rightarrow> int prog" where
  "network_prov_thread_config_init E = do {
     upd_tc (\<lambda>_. tc_zero\<lparr>tc_state := Thread_Dettached\<rparr>);
     ext_call (Kern (K_work_init Attach_timeout));
     r \<leftarrow> ask (ot_callback_register_ret (ot E)) (\<lambda>_. Ot Ot_callback_register);
     if r \<noteq> 0 then ret r
     else do { upd_tc (\<lambda>t. t\<lparr>tc_cb_registered := True\<rparr>); ret 0 } }"

definition network_prov_thread_config_deinit :: "unit prog" where
  "network_prov_thread_config_deinit = do {
     ext_call (Kern (K_work_cancel Attach_timeout));
     reg \<leftarrow> gets (\<lambda>s. tc_cb_registered (tc s));
     if_do reg (do {
       ext_call (Ot Ot_callback_unregister);
       upd_tc (\<lambda>t. t\<lparr>tc_cb_registered := False\<rparr>) }) }"

definition network_prov_thread_config_reset :: "env \<Rightarrow> unit prog" where
  "network_prov_thread_config_reset E = do {
     ext_call (Kern (K_work_cancel Attach_timeout));
     upd_tc (\<lambda>t. t\<lparr>dataset_staged := False, pending := False, tc_state := Thread_Dettached,
       tc_mTlvs := zeros OT_DATASET_MAX, tc_mLength := 0\<rparr>);
     ext_call (Ot Ot_mutex_lock);
     _ \<leftarrow> ask (\<lambda>h. otThreadSetEnabled (ot E) h False) (\<lambda>_. Ot (Ot_thread_set_enabled False));
     ext_call (Ot Ot_mutex_unlock) }"

definition network_prov_thread_config_erase :: "env \<Rightarrow> int prog" where
  "network_prov_thread_config_erase E = do {
     ext_call (Kern (K_work_cancel Attach_timeout));
     upd_tc (\<lambda>t. t\<lparr>dataset_staged := False, pending := False, tc_state := Thread_Dettached\<rparr>);
     ext_call (Ot Ot_mutex_lock);
     _ \<leftarrow> ask (\<lambda>h. otThreadSetEnabled (ot E) h False) (\<lambda>_. Ot (Ot_thread_set_enabled False));
     err \<leftarrow> ask (otInstanceErasePersistentInfo (ot E)) (\<lambda>_. Ot Ot_erase_persistent_info);
     ext_call (Ot Ot_mutex_unlock);
     ret (if err \<noteq> 0 then - EIO else 0) }"

definition network_prov_thread_is_commissioned :: "env \<Rightarrow> bool prog" where
  "network_prov_thread_is_commissioned E = do {
     ext_call (Ot Ot_mutex_lock);
     c \<leftarrow> ask (otDatasetIsCommissioned (ot E)) (\<lambda>_. Ot Ot_query);
     ext_call (Ot Ot_mutex_unlock);
     ret c }"

text \<open>The dataset is committed and the interface brought up, under the OpenThread mutex.\<close>

definition commit_dataset :: "env \<Rightarrow> int prog" where
  "commit_dataset E = do {
     ds \<leftarrow> gets (\<lambda>s. take (tc_mLength (tc s)) (tc_mTlvs (tc s)));
     ext_call (Ot Ot_mutex_lock);
     err \<leftarrow> ask (\<lambda>h. otDatasetSetActiveTlvs (ot E) h ds) (\<lambda>_. Ot (Ot_dataset_set_active ds));
     err \<leftarrow> (if err = 0
       then do {
         ext_call (Ot (Ot_ip6_set_enabled True));
         ask (\<lambda>h. otThreadSetEnabled (ot E) h True) (\<lambda>_. Ot (Ot_thread_set_enabled True)) }
       else ret err);
     ext_call (Ot Ot_mutex_unlock);
     ret err }"

definition thread_do_apply_config :: "env \<Rightarrow> Status prog" where
  "thread_do_apply_config E = do {
     st \<leftarrow> gets (\<lambda>s. dataset_staged (tc s));
     if \<not> st then ret Status_InvalidArgument
     else do {
       err \<leftarrow> commit_dataset E;
       if err \<noteq> 0
       then do {
         upd_tc (\<lambda>t. t\<lparr>tc_state := Thread_AttachingFailed, tc_fail_reason := DatasetInvalid\<rparr>);
         network_prov_emit_event E NETWORK_PROV_CRED_RECV;
         network_prov_emit_event E (NETWORK_PROV_CRED_FAIL NETWORK_PROV_WIFI_AUTH_ERROR);
         ret Status_Success }
       else do {
         network_prov_emit_event E NETWORK_PROV_CRED_RECV;
         upd_tc (\<lambda>t. t\<lparr>tc_state := Thread_Attaching, pending := True\<rparr>);
         ext_call (Ot Ot_mutex_lock);
         role \<leftarrow> ask (otThreadGetDeviceRole (ot E)) (\<lambda>_. Ot Ot_query);
         ext_call (Ot Ot_mutex_unlock);
         (if role_is_attached role then on_attached E
          else ext_call (Kern (K_work_reschedule Attach_timeout ATTACH_TIMEOUT_MS)));
         ret Status_Success } } }"

definition thread_do_set_config :: "bytes \<Rightarrow> Status prog" where
  "thread_do_set_config dataset =
    (if dataset = [] \<or> length dataset > OT_DATASET_MAX then ret Status_InvalidArgument
     else do {
       upd_tc (\<lambda>t. t\<lparr>tc_mTlvs := memcpy (tc_mTlvs t) dataset, tc_mLength := length dataset,
         dataset_staged := True\<rparr>);
       ret Status_Success })"

definition network_prov_thread_config_set_and_apply :: "env \<Rightarrow> bytes option \<Rightarrow> int prog" where
  "network_prov_thread_config_set_and_apply E dataset =
    (case dataset of
       None \<Rightarrow> ret (- EINVAL)
     | Some ds \<Rightarrow>
        if ds = [] \<or> length ds > OT_DATASET_MAX then ret (- EINVAL)
        else do {
          upd_tc (\<lambda>t. t\<lparr>tc_mTlvs := memcpy (tc_mTlvs t) ds, tc_mLength := length ds,
            dataset_staged := True\<rparr>);
          st \<leftarrow> thread_do_apply_config E;
          ret (if st = Status_Success then 0 else - EIO) })"

definition fill_attached_state :: "env \<Rightarrow> ThreadAttachState prog" where
  "fill_attached_state E = do {
     ext_call (Ot Ot_mutex_lock);
     pan \<leftarrow> ask (otLinkGetPanId (ot E)) (\<lambda>_. Ot Ot_query);
     ch \<leftarrow> ask (otLinkGetChannel (ot E)) (\<lambda>_. Ot Ot_query);
     xpan \<leftarrow> ask (otThreadGetExtendedPanId (ot E)) (\<lambda>_. Ot Ot_query);
     name \<leftarrow> ask (otThreadGetNetworkName (ot E)) (\<lambda>_. Ot Ot_query);
     ext_call (Ot Ot_mutex_unlock);
     ret \<lparr>tas_pan_id = ucast pan, tas_ext_pan_id = take 8 xpan, tas_channel = ucast ch,
       tas_name = strncpy_z 16 name\<rparr> }"

definition thread_encode_get_status :: "env \<Rightarrow> (int \<times> bytes option) prog" where
  "thread_encode_get_status E = do {
     t \<leftarrow> gets tc;
     u \<leftarrow> (if tc_state t = Thread_Attached
       then do { a \<leftarrow> fill_attached_state E; ret (ThreadStatus_attached a) }
       else if tc_state t = Thread_AttachingFailed
       then ret (ThreadStatus_fail_reason (tc_fail_reason t))
       else ret ThreadStatus_none);
     network_prov_pb_encode E (NetworkConfig_codec (nanopb E))
       \<lparr>config_msg = TypeRespGetThreadStatus,
        config_payload = Resp_get_thread_status Status_Success (tc_state t) u\<rparr> }"

definition thread_encode_simple ::
  "env \<Rightarrow> NetworkConfigMsgType \<Rightarrow> Status \<Rightarrow> (int \<times> bytes option) prog" where
  "thread_encode_simple E ty st = network_prov_pb_encode E (NetworkConfig_codec (nanopb E))
     \<lparr>config_msg = ty,
      config_payload = (if ty = TypeRespSetThreadConfig then Resp_set_thread_config st
        else Resp_apply_thread_config st)\<rparr>"

definition cmd_set_thread_config :: "env \<Rightarrow> NetworkConfigPayload \<Rightarrow> bytes" where
  "cmd_set_thread_config E req = (case config_payload req of
     Cmd_set_thread_config c \<Rightarrow> c | u \<Rightarrow> pun_set_thread_config (nanopb E) u)"

definition network_prov_thread_config_handler :: "env \<Rightarrow> bytes \<Rightarrow> (int \<times> bytes option) prog" where
  "network_prov_thread_config_handler E inbuf =
    (case pb_decode (NetworkConfig_codec (nanopb E)) inbuf of
       None \<Rightarrow> ret (- EINVAL, None)
     | Some req \<Rightarrow>
       (case config_msg req of
          TypeCmdSetThreadConfig \<Rightarrow> do {
            st \<leftarrow> thread_do_set_config (cmd_set_thread_config E req);
            thread_encode_simple E TypeRespSetThreadConfig st }
        | TypeCmdApplyThreadConfig \<Rightarrow> do {
            st \<leftarrow> thread_do_apply_config E;
            thread_encode_simple E TypeRespApplyThreadConfig st }
        | TypeCmdGetThreadStatus \<Rightarrow> thread_encode_get_status E
        | _ \<Rightarrow> ret (- ENOTSUP, None)))"

section \<open>Frame, heap and mutex discipline\<close>

definition thread_frame :: "world \<Rightarrow> world \<Rightarrow> bool" where
  "thread_frame s s' \<longleftrightarrow> s' = s\<lparr>hist := hist s', tc := tc s'\<rparr>"

lemma thread_frame_simps [simp]:
  "thread_frame s s" "thread_frame s (s'\<lparr>hist := h\<rparr>) = thread_frame s s'"
  "thread_frame s (s'\<lparr>tc := c\<rparr>) = thread_frame s s'"
  "thread_frame (s\<lparr>hist := h\<rparr>) s' = thread_frame s s'"
  "thread_frame (s\<lparr>tc := c\<rparr>) s' = thread_frame s s'"
  by (cases s; cases s'; auto simp: thread_frame_def)+

lemma thread_frameD:
  assumes "thread_frame s s'"
  shows "same_objects s s'" "mgr s' = mgr s" "wc s' = wc s" "sc s' = sc s" "ts s' = ts s"
    "con s' = con s" "sap s' = sap s" "ble s' = ble s"
  using assms by (cases s; cases s'; simp add: thread_frame_def same_objects_def)+

text \<open>The OpenThread mutex, read off the history: whether it is held, and whether it was taken and
  released in turn with every OpenThread call in between.\<close>

fun ot_locked :: "history \<Rightarrow> bool" where
  "ot_locked [] = False"
| "ot_locked (Ot Ot_mutex_lock # h) = True"
| "ot_locked (Ot Ot_mutex_unlock # h) = False"
| "ot_locked (c # h) = ot_locked h"

fun ot_guarded :: "history \<Rightarrow> bool" where
  "ot_guarded [] = True"
| "ot_guarded (Ot Ot_mutex_lock # h) = (\<not> ot_locked h \<and> ot_guarded h)"
| "ot_guarded (Ot Ot_callback_register # h) = ot_guarded h"
| "ot_guarded (Ot Ot_callback_unregister # h) = ot_guarded h"
| "ot_guarded (Ot Ot_run # h) = ot_guarded h"
| "ot_guarded (Ot c # h) = (ot_locked h \<and> ot_guarded h)"
| "ot_guarded (c # h) = ot_guarded h"

definition ot_disciplined :: "history \<Rightarrow> bool" where
  "ot_disciplined h \<longleftrightarrow> ot_guarded h \<and> \<not> ot_locked h"

lemma ot_heap:
  assumes "list_all heap_call k"
  shows "ot_locked (k @ h) = ot_locked h" "ot_guarded (k @ h) = ot_guarded h"
  using assms by (induction k) (auto elim!: heap_call_cases)

lemma ot_event_calls [simp]:
  "ot_locked (event_calls E m ev @ h) = ot_locked h" "ot_guarded (event_calls E m ev @ h) = ot_guarded h"
  by (auto simp: event_calls_def)

lemma ot_pb: "pb_post c m h r h' \<Longrightarrow> ot_disciplined h' = ot_disciplined h"
  by (auto simp: pb_post_def ot_disciplined_def ot_heap)

text \<open>What every operation of this file promises.\<close>

definition thread_ok :: "world \<Rightarrow> world \<Rightarrow> bool" where
  "thread_ok s s' \<longleftrightarrow> thread_frame s s' \<and> blocks (hist s') = blocks (hist s) \<and>
     (ot_disciplined (hist s) \<longrightarrow> ot_disciplined (hist s'))"

lemmas thread_op_defs = claim_pending_def on_attached_def attach_timeout_fn_def ot_state_changed_def
  network_prov_thread_config_init_def network_prov_thread_config_deinit_def
  network_prov_thread_config_reset_def network_prov_thread_config_erase_def
  network_prov_thread_is_commissioned_def commit_dataset_def thread_do_apply_config_def
  thread_do_set_config_def fill_attached_state_def

lemma thread_ops_ok:
  "wp (attach_timeout_fn E) (\<lambda>_. thread_ok s) s"
  "wp (ot_state_changed E rc) (\<lambda>_. thread_ok s) s"
  "wp (network_prov_thread_config_init E) (\<lambda>_. thread_ok s) s"
  "wp network_prov_thread_config_deinit (\<lambda>_. thread_ok s) s"
  "wp (network_prov_thread_config_reset E) (\<lambda>_. thread_ok s) s"
  "wp (network_prov_thread_config_erase E) (\<lambda>_. thread_ok s) s"
  "wp (network_prov_thread_is_commissioned E) (\<lambda>_. thread_ok s) s"
  "wp (thread_do_set_config ds) (\<lambda>_. thread_ok s) s"
  "wp (fill_attached_state E) (\<lambda>_. thread_ok s) s"
  by (simp_all add: thread_op_defs thread_ok_def ot_disciplined_def)

lemma commit_ok: "wp (commit_dataset E) (\<lambda>_ s'. thread_ok s s' \<and> tc s' = tc s) s"
  by (simp add: commit_dataset_def thread_ok_def ot_disciplined_def)

lemma thread_apply_ok: "wp (thread_do_apply_config E) (\<lambda>_. thread_ok s) s"
  unfolding thread_do_apply_config_def on_attached_def claim_pending_def
  by (auto intro!: wp_mono [OF commit_ok] simp: thread_ok_def ot_disciplined_def)

lemma thread_config_handler_contract:
  "wp (network_prov_thread_config_handler E b) (\<lambda>r s'. thread_frame s s' \<and>
     out_contract (hist s) r (hist s') \<and> (ot_disciplined (hist s) \<longrightarrow> ot_disciplined (hist s')) \<and>
     answers (NetworkConfig_codec (nanopb E)) (\<lambda>m. is_config_response (config_msg m)) r) s"
  (is "wp _ ?Q s")
proof -
  have enc: "wp (network_prov_pb_encode E (NetworkConfig_codec (nanopb E)) m) ?Q t"
    if "thread_ok s t" "is_config_response (config_msg m)" for m t
    by (rule wp_mono [OF pb_encode_spec])
      (use that in \<open>auto elim!: only_histE intro: out_contract_pb answers_pb simp: thread_ok_def
        dest: ot_pb\<close>)
  have refl: "thread_ok s s" by (simp add: thread_ok_def)
  have get: "wp (thread_encode_get_status E) ?Q s"
    unfolding thread_encode_get_status_def
    by (auto intro!: wp_mono [OF thread_ops_ok(9)] enc refl)
  show ?thesis
    unfolding network_prov_thread_config_handler_def thread_encode_simple_def
    by (auto split: option.split NetworkConfigMsgType.split simp: out_contract_refl
        intro!: get enc wp_mono [OF thread_ops_ok(8)] wp_mono [OF thread_apply_ok])
qed

section \<open>The state machine\<close>

text \<open>The invariant: the dataset fits its array; Attaching is only reported while an outcome is
  pending; while the handler is registered a pending outcome has its timeout armed; and outcomes
  never exceed the CRED_RECV events, with one left over while an outcome is pending.\<close>

definition thread_inv :: "world \<Rightarrow> bool" where
  "thread_inv s \<longleftrightarrow> length (tc_mTlvs (tc s)) = OT_DATASET_MAX \<and> tc_mLength (tc s) \<le> OT_DATASET_MAX \<and>
     (tc_state (tc s) = Thread_Attaching \<longrightarrow> pending (tc s)) \<and>
     (tc_cb_registered (tc s) \<longrightarrow> pending (tc s) \<longrightarrow> armed Attach_timeout (hist s)) \<and>
     (event_cb (mgr s) \<longrightarrow> outcomes (hist s) + (if pending (tc s) then 1 else 0) \<le> recvs (hist s))"

text \<open>The kernel runs the timeout work item.\<close>

definition run_attach_timeout :: "env \<Rightarrow> unit prog" where
  "run_attach_timeout E = do { ext_call (Kern (K_work_run Attach_timeout)); attach_timeout_fn E }"

inductive thread_step :: "env \<Rightarrow> world \<Rightarrow> world \<Rightarrow> bool" for E where
  request: "run_state (network_prov_thread_config_handler E b) s = (r, s') \<Longrightarrow> thread_step E s s'"
| state_changed: "run_state (ot_state_changed E rc) s = (u, s') \<Longrightarrow> thread_step E s s'"
| timeout: "run_state (run_attach_timeout E) s = (u, s') \<Longrightarrow> thread_step E s s'"
| configure: "run_state (network_prov_thread_config_set_and_apply E ds) s = (n, s') \<Longrightarrow> thread_step E s s'"
| reset: "run_state (network_prov_thread_config_reset E) s = (u, s') \<Longrightarrow> thread_step E s s'"
| erase: "run_state (network_prov_thread_config_erase E) s = (n, s') \<Longrightarrow> thread_step E s s'"
| init: "run_state (network_prov_thread_config_init E) s = (n, s') \<Longrightarrow> thread_step E s s'"
| deinit: "run_state network_prov_thread_config_deinit s = (u, s') \<Longrightarrow> thread_step E s s'"
| other: "tc s' = tc s \<Longrightarrow> event_cb (mgr s') = event_cb (mgr s) \<Longrightarrow>
    armed Attach_timeout (hist s') = armed Attach_timeout (hist s) \<Longrightarrow>
    recvs (hist s') = recvs (hist s) \<Longrightarrow> outcomes (hist s') = outcomes (hist s) \<Longrightarrow> thread_step E s s'"

inductive thread_reach :: "env \<Rightarrow> world \<Rightarrow> bool" for E where
  boot: "tc s = tc_zero \<Longrightarrow> outcomes (hist s) \<le> recvs (hist s) \<Longrightarrow> thread_reach E s"
| step: "thread_reach E s \<Longrightarrow> thread_step E s s' \<Longrightarrow> thread_reach E s'"

lemma ot_counts [simp]: "recvs (Ot c # h) = recvs h" "outcomes (Ot c # h) = outcomes h"
  by (simp_all add: recvs_def outcomes_def)

lemma thread_ops_inv:
  assumes "thread_inv s"
  shows "wp (run_attach_timeout E) (\<lambda>_. thread_inv) s"
    "wp (ot_state_changed E rc) (\<lambda>_. thread_inv) s"
    "wp (network_prov_thread_config_init E) (\<lambda>_. thread_inv) s"
    "wp network_prov_thread_config_deinit (\<lambda>_. thread_inv) s"
    "wp (network_prov_thread_config_reset E) (\<lambda>_. thread_inv) s"
    "wp (network_prov_thread_config_erase E) (\<lambda>_. thread_inv) s"
    "wp (thread_do_set_config ds) (\<lambda>_. thread_inv) s"
    "wp (fill_attached_state E) (\<lambda>_. thread_inv) s"
  using assms
  by (auto simp: run_attach_timeout_def thread_op_defs thread_inv_def length_memcpy_at tc_zero_def)

lemma commit_inv: "thread_inv s \<Longrightarrow> wp (commit_dataset E) (\<lambda>_ s'. thread_inv s' \<and> tc s' = tc s) s"
  by (auto simp: commit_dataset_def thread_inv_def)

lemma thread_apply_inv: "thread_inv s \<Longrightarrow> wp (thread_do_apply_config E) (\<lambda>_. thread_inv) s"
  unfolding thread_do_apply_config_def on_attached_def claim_pending_def
  by (auto intro!: wp_mono [OF commit_inv] simp: thread_inv_def)

lemma thread_set_and_apply_inv:
  assumes "thread_inv s"
  shows "wp (network_prov_thread_config_set_and_apply E ds) (\<lambda>_. thread_inv) s"
  using assms unfolding network_prov_thread_config_set_and_apply_def
  by (auto intro!: thread_apply_inv split: option.split) (auto simp: thread_inv_def length_memcpy_at)

lemma thread_pb_inv: "thread_inv s \<Longrightarrow> wp (network_prov_pb_encode E c m) (\<lambda>_. thread_inv) s"
  by (rule wp_mono [OF pb_encode_spec])
    (auto elim!: only_histE simp: thread_inv_def recvs_def outcomes_def pb_postD)

lemma thread_handler_inv: "thread_inv s \<Longrightarrow> wp (network_prov_thread_config_handler E b) (\<lambda>_. thread_inv) s"
  unfolding network_prov_thread_config_handler_def thread_encode_simple_def thread_encode_get_status_def
  by (auto split: option.split NetworkConfigMsgType.split
      intro!: thread_pb_inv wp_mono [OF thread_ops_inv(7)] wp_mono [OF thread_apply_inv]
        wp_mono [OF thread_ops_inv(8)])

lemma thread_step_inv: "thread_step E s s' \<Longrightarrow> thread_inv s \<Longrightarrow> thread_inv s'"
proof (induction rule: thread_step.induct)
  case (other s' s)
  then show ?case by (simp add: thread_inv_def)
qed (blast dest: wp_runD [OF thread_handler_inv] wp_runD [OF thread_set_and_apply_inv]
  wp_runD [OF thread_ops_inv(1)] wp_runD [OF thread_ops_inv(2)] wp_runD [OF thread_ops_inv(3)]
  wp_runD [OF thread_ops_inv(4)] wp_runD [OF thread_ops_inv(5)] wp_runD [OF thread_ops_inv(6)])+

lemma thread_reach_inv: "thread_reach E s \<Longrightarrow> thread_inv s"
proof (induction rule: thread_reach.induct)
  case (boot s)
  then show ?case by (simp add: thread_inv_def tc_zero_def)
qed (rule thread_step_inv)

section \<open>What Set and Apply do\<close>

definition dataset_valid :: "bytes \<Rightarrow> bool" where
  "dataset_valid ds \<longleftrightarrow> ds \<noteq> [] \<and> length ds \<le> OT_DATASET_MAX"

text \<open>The three ends of an Apply of the dataset \<open>ds\<close> from \<open>s\<close>: OpenThread refuses it (reported at
  once as a failure), the node is attached already (reported at once as a success), or an attach
  is under way, with its timeout armed.\<close>

definition apply_outcome :: "bytes \<Rightarrow> world \<Rightarrow> world \<Rightarrow> bool" where
  "apply_outcome ds s s' \<longleftrightarrow> Ot (Ot_dataset_set_active ds) \<in> set (hist s') \<and>
    (case tc_state (tc s') of
       Thread_AttachingFailed \<Rightarrow> tc_fail_reason (tc s') = DatasetInvalid \<and>
         (event_cb (mgr s) \<longrightarrow> app_events (hist s') =
            NETWORK_PROV_CRED_FAIL NETWORK_PROV_WIFI_AUTH_ERROR # NETWORK_PROV_CRED_RECV # app_events (hist s))
     | Thread_Attached \<Rightarrow> \<not> pending (tc s') \<and> \<not> armed Attach_timeout (hist s') \<and>
         (event_cb (mgr s) \<longrightarrow> app_events (hist s') =
            NETWORK_PROV_CRED_SUCCESS # NETWORK_PROV_CRED_RECV # app_events (hist s))
     | Thread_Attaching \<Rightarrow> pending (tc s') \<and> armed Attach_timeout (hist s') \<and>
         Ot (Ot_thread_set_enabled True) \<in> set (hist s') \<and>
         (event_cb (mgr s) \<longrightarrow> app_events (hist s') = NETWORK_PROV_CRED_RECV # app_events (hist s))
     | Thread_Dettached \<Rightarrow> False)"

lemma apply_outcome_tc [simp]: "apply_outcome ds (s\<lparr>tc := t\<rparr>) s' = apply_outcome ds s s'"
  by (simp add: apply_outcome_def split: ThreadNetworkState.split)

lemma commit_spec:
  "wp (commit_dataset E) (\<lambda>err s'. thread_frame s s' \<and> tc s' = tc s \<and> app_events (hist s') = app_events (hist s) \<and>
     Ot (Ot_dataset_set_active (take (tc_mLength (tc s)) (tc_mTlvs (tc s)))) \<in> set (hist s') \<and>
     (err = 0 \<longrightarrow> Ot (Ot_thread_set_enabled True) \<in> set (hist s'))) s"
  by (simp add: commit_dataset_def)

lemma apply_staged_outcome:
  assumes "dataset_staged (tc s)" and "take (tc_mLength (tc s)) (tc_mTlvs (tc s)) = ds"
  shows "wp (thread_do_apply_config E) (\<lambda>st s'. st = Status_Success \<and> apply_outcome ds s s') s"
  unfolding thread_do_apply_config_def on_attached_def claim_pending_def using assms
  by (auto intro!: wp_mono [OF commit_spec] simp: apply_outcome_def dest: thread_frameD(2))

section \<open>Properties\<close>

lemma demo_thread_reach: "\<exists>s. thread_reach (ok_env\<lparr>ot := ok_ot\<lparr>otThreadGetDeviceRole := \<lambda>_. OT_DEVICE_ROLE_DETACHED\<rparr>\<rparr>) s \<and>
    event_cb (mgr s) \<and> tc_cb_registered (tc s) \<and> tc_state (tc s) = Thread_Attaching"
proof -
  let ?E = "ok_env\<lparr>ot := ok_ot\<lparr>otThreadGetDeviceRole := \<lambda>_. OT_DEVICE_ROLE_DETACHED\<rparr>\<rparr>"
  let ?b = "(boot_world ?E)\<lparr>mgr := (mgr_zero ?E)\<lparr>event_cb := True\<rparr>\<rparr>"
  let ?m1 = "network_prov_thread_config_init ?E"
  let ?m2 = "network_prov_thread_config_set_and_apply ?E (Some [14, 8])"
  let ?s1 = "snd (run_state ?m1 ?b)"
  let ?s2 = "snd (run_state ?m2 ?s1)"
  have b: "thread_reach ?E ?b"
    by (rule thread_reach.boot) (simp_all add: boot_world_def outcomes_def)
  have 1: "wp ?m1 (\<lambda>_ s'. event_cb (mgr s') \<and> tc_cb_registered (tc s')) ?b"
    by (simp add: network_prov_thread_config_init_def ok_ot_def)
  have 2: "wp ?m2 (\<lambda>_ s'. event_cb (mgr s') \<and> tc_cb_registered (tc s') \<and>
      tc_state (tc s') = Thread_Attaching) ?s1"
    using 1 [unfolded wp_sel]
    by (simp add: network_prov_thread_config_set_and_apply_def thread_do_apply_config_def
        commit_dataset_def role_is_attached_def ok_ot_def)
  have "thread_step ?E ?b ?s1"
    by (rule thread_step.init [of _ _ "fst (run_state ?m1 ?b)"]) simp
  moreover have "thread_step ?E ?s1 ?s2"
    by (rule thread_step.configure [of _ "Some [14, 8]" _ "fst (run_state ?m2 ?s1)"]) simp
  ultimately have "thread_reach ?E ?s2" using b by (meson thread_reach.step)
  with 2 [unfolded wp_sel] show ?thesis by blast
qed

text \<open>C35. An attach is never reported as pending for ever: in every reachable state with the handler
  registered, Attaching implies that the timeout work is armed, and when it runs the state is
  AttachingFailed (network not found), nothing is pending and the application hears exactly one
  CRED_FAIL.\<close>

theorem thread_attach_never_stuck:
  assumes "thread_reach E s" and "tc_cb_registered (tc s)" and "tc_state (tc s) = Thread_Attaching"
  shows "armed Attach_timeout (hist s) \<and> wp (run_attach_timeout E) (\<lambda>_ s'.
     tc_state (tc s') = Thread_AttachingFailed \<and> tc_fail_reason (tc s') = ThreadNetworkNotFound \<and>
     \<not> pending (tc s') \<and> \<not> armed Attach_timeout (hist s') \<and>
     app_events (hist s') = (if event_cb (mgr s)
       then [NETWORK_PROV_CRED_FAIL NETWORK_PROV_WIFI_NETWORK_NOT_FOUND] else []) @ app_events (hist s)) s"
  using thread_reach_inv [OF assms(1)] assms(2,3)
  by (simp add: thread_inv_def run_attach_timeout_def attach_timeout_fn_def claim_pending_def)

theorem thread_attach_never_stuck_witness:
  "\<exists>E s. thread_reach E s \<and> tc_state (tc s) = Thread_Attaching \<and> armed Attach_timeout (hist s)"
proof -
  obtain E s where s: "thread_reach E s" "tc_cb_registered (tc s)" "tc_state (tc s) = Thread_Attaching"
    using demo_thread_reach by blast
  with thread_attach_never_stuck [OF s] show ?thesis by blast
qed

text \<open>The Thread application events are balanced: in every reachable state the number of
  CRED_SUCCESS and CRED_FAIL events is at most the number of CRED_RECV events, and strictly
  smaller while an outcome is pending. The callback and the timeout never both report: whichever
  runs first claims the outcome, and the other changes nothing.\<close>

theorem thread_outcome_claimed_once:
  assumes "thread_reach E s" and "event_cb (mgr s)"
  shows "outcomes (hist s) + (if pending (tc s) then 1 else 0) \<le> recvs (hist s) \<and>
     (pending (tc s) \<longrightarrow> (\<forall>h. role_is_attached (otThreadGetDeviceRole (ot E) h)) \<longrightarrow>
       wp (do { ot_state_changed E True; run_attach_timeout E }) (\<lambda>_ s'. tc_state (tc s') = Thread_Attached \<and>
         app_events (hist s') = NETWORK_PROV_CRED_SUCCESS # app_events (hist s)) s \<and>
       wp (do { run_attach_timeout E; ot_state_changed E True }) (\<lambda>_ s'. tc_state (tc s') = Thread_AttachingFailed \<and>
         app_events (hist s') = NETWORK_PROV_CRED_FAIL NETWORK_PROV_WIFI_NETWORK_NOT_FOUND # app_events (hist s)) s)"
  using thread_reach_inv [OF assms(1)] assms(2)
  by (simp add: thread_inv_def run_attach_timeout_def attach_timeout_fn_def claim_pending_def
      ot_state_changed_def on_attached_def)

theorem thread_outcome_claimed_once_witness:
  "\<exists>E s. thread_reach E s \<and> tc_state (tc s) = Thread_Attaching \<and> outcomes (hist s) < recvs (hist s)"
proof -
  obtain E s where s: "thread_reach E s" "event_cb (mgr s)" "tc_state (tc s) = Thread_Attaching"
    using demo_thread_reach by blast
  from thread_reach_inv [OF s(1)] s(3) have "pending (tc s)" by (simp add: thread_inv_def)
  with thread_outcome_claimed_once [OF s(1,2)] s show ?thesis
    by (intro exI [of _ E] exI [of _ s]) simp
qed

text \<open>C36. Apply commits what Set received: a dataset of 1 to 254 bytes that is set and then applied
  is handed to OpenThread byte for byte, whatever was staged before, and the Apply ends in one of
  three ways (refused, attached, attaching with the timeout armed), each with its state and its
  events; any other length is answered InvalidArgument and changes nothing.\<close>

theorem thread_set_apply_dataset:
  "wp (do { st \<leftarrow> thread_do_set_config ds;
       (if st = Status_Success then thread_do_apply_config E else ret st) })
     (\<lambda>r s'. if dataset_valid ds then r = Status_Success \<and> apply_outcome ds s s'
       else r = Status_InvalidArgument \<and> s' = s) s"
  by (auto simp: thread_do_set_config_def dataset_valid_def
      intro!: wp_mono [OF apply_staged_outcome [where ds = ds]])

text \<open>Every request on the Thread configuration endpoint, of any content, calls OpenThread only
  with its mutex held, never takes the mutex twice, and releases it before it returns.\<close>

theorem thread_request_mutex_discipline:
  assumes "ot_disciplined (hist s)"
  shows "wp (network_prov_thread_config_handler E b) (\<lambda>r s'. ot_disciplined (hist s')) s"
  by (rule wp_mono [OF thread_config_handler_contract]) (use assms in simp)

theorem thread_request_mutex_discipline_witness:
  "wp (network_prov_thread_config_handler ok_env [1, 2]) (\<lambda>r s'. ot_disciplined (hist s')) (boot_world ok_env)"
  by (rule thread_request_mutex_discipline) (simp add: boot_world_def ot_disciplined_def)

end
