(* ===== verification/Thread_Ctrl.thy ===== *)
theory Thread_Ctrl
  imports Thread_Config Wifi_Ctrl
begin

text \<open>
  \<^verbatim>\<open>src/src/thread_ctrl_handler.c\<close>: the prov-ctrl endpoint for Thread.
\<close>

definition network_prov_thread_ctrl_handler :: "env \<Rightarrow> bytes \<Rightarrow> (int \<times> bytes option) prog" where
  "network_prov_thread_ctrl_handler E inbuf =
    (case pb_decode (NetworkCtrl_codec (nanopb E)) inbuf of
       None \<Rightarrow> ret (- EINVAL, None)
     | Some req \<Rightarrow>
       (case ctrl_msg req of
          TypeCmdCtrlThreadReset \<Rightarrow> do {
            network_prov_thread_config_reset E;
            network_prov_pb_encode E (NetworkCtrl_codec (nanopb E))
              \<lparr>ctrl_msg = TypeRespCtrlThreadReset, ctrl_status = Status_Success,
               ctrl_payload = Resp_ctrl_thread_reset\<rparr> }
        | TypeCmdCtrlThreadReprov \<Rightarrow> do {
            network_prov_thread_config_reset E;
            network_prov_pb_encode E (NetworkCtrl_codec (nanopb E))
              \<lparr>ctrl_msg = TypeRespCtrlThreadReprov, ctrl_status = Status_Success,
               ctrl_payload = Resp_ctrl_thread_reprov\<rparr> }
        | _ \<Rightarrow> ret (- ENOTSUP, None)))"

lemma thread_ctrl_handler_contract:
  "wp (network_prov_thread_ctrl_handler E b) (\<lambda>r s'. thread_frame s s' \<and> out_contract (hist s) r (hist s') \<and>
     answers (NetworkCtrl_codec (nanopb E)) (\<lambda>m. is_ctrl_response (ctrl_msg m)) r) s"
proof -
  have enc: "wp (network_prov_pb_encode E (NetworkCtrl_codec (nanopb E)) m) (\<lambda>r s'. thread_frame s s' \<and>
     out_contract (hist s) r (hist s') \<and>
     answers (NetworkCtrl_codec (nanopb E)) (\<lambda>m. is_ctrl_response (ctrl_msg m)) r) t"
    if "thread_ok s t" "is_ctrl_response (ctrl_msg m)" for m t
    by (rule wp_mono [OF pb_encode_spec])
      (use that in \<open>auto elim!: only_histE intro: out_contract_pb answers_pb simp: thread_ok_def\<close>)
  show ?thesis
    unfolding network_prov_thread_ctrl_handler_def
    by (auto split: option.split NetworkCtrlMsgType.split simp: out_contract_refl
        intro!: wp_mono [OF thread_ops_ok(5)] enc)
qed

text \<open>A Thread reset silences the old attempt and keeps OpenThread's stored dataset: after
  CmdCtrlThreadReset nothing is staged or pending, the timeout is cancelled, the interface was
  disabled under the mutex, and neither the state callback nor a late timeout changes the
  reported state or reaches the application; an Apply without a new Set is refused.\<close>

lemma thread_reset_silences_attempt:
  "wp (do { network_prov_thread_config_reset E;
            ot_state_changed E rc; run_attach_timeout E; thread_do_apply_config E })
     (\<lambda>st s'. st = Status_InvalidArgument \<and> tc_state (tc s') = Thread_Dettached \<and> \<not> pending (tc s') \<and>
        \<not> dataset_staged (tc s') \<and> tc_mTlvs (tc s') = zeros 254 \<and> \<not> armed Attach_timeout (hist s') \<and>
        app_events (hist s') = app_events (hist s) \<and>
        (\<exists>k. hist s' = k @ Ot Ot_mutex_unlock # Ot (Ot_thread_set_enabled False) # Ot Ot_mutex_lock #
           Kern (K_work_cancel Attach_timeout) # hist s) \<and>
        count_list (hist s') (Ot Ot_erase_persistent_info) = count_list (hist s) (Ot Ot_erase_persistent_info)) s"
  by (simp add: network_prov_thread_config_reset_def ot_state_changed_def on_attached_def claim_pending_def
      run_attach_timeout_def attach_timeout_fn_def thread_do_apply_config_def)

end
