(* ===== verification/Program.thy ===== *)
theory Program
  imports Wifi_Scan Thread_Scan Wifi_Ctrl Thread_Ctrl
begin

text \<open>
  The linked program: the functions behind the function pointers. A security reference is
  one of the two vtables (security.h), a handler reference one of the six endpoint handlers or the
  manager's trampoline for application endpoints (network_prov_mgr.c). The link meets the
  interface that the protocomm core relies on, so that the core's lemmas hold for the program.
\<close>

section \<open>The trampoline of custom endpoints\<close>

text \<open>An application handler is called with the decrypted request; it answers with a buffer that
  it got from \<open>k_malloc\<close> (documented contract of \<open>network_prov_endpoint_handler_t\<close>).\<close>

definition app_handler :: "env \<Rightarrow> nat \<Rightarrow> nat \<Rightarrow> bytes \<Rightarrow> (int \<times> bytes option) prog" where
  "app_handler E f ctx inbuf = do {
     r \<leftarrow> ask (\<lambda>h. app_endpoint (kern E) h f ctx inbuf) (\<lambda>_. App (App_endpoint f ctx inbuf));
     (case snd r of None \<Rightarrow> ret () | Some b \<Rightarrow> ext_call (Kern (K_malloc (length b) True)));
     ret r }"

text \<open>The private pointer is \<open>&mgr.custom[i]\<close>, here the index \<open>i\<close>; any other pointer would be
  dereferenced wrongly.\<close>

definition custom_trampoline :: "env \<Rightarrow> nat option \<Rightarrow> bytes \<Rightarrow> (int \<times> bytes option) prog" where
  "custom_trampoline E priv inbuf =
    (case priv of
       None \<Rightarrow> do { set_fault; ret (0, None) }
     | Some i \<Rightarrow>
        if i \<ge> MAX_CUSTOM_ENDPOINTS (cfg E) then do { set_fault; ret (0, None) }
        else do {
          e \<leftarrow> gets (\<lambda>s. custom (mgr s) ! i);
          (case ce_handler e of None \<Rightarrow> ret (- ENOTSUP, None)
           | Some f \<Rightarrow> app_handler E f (ce_ctx e) inbuf) })"

section \<open>The link\<close>

fun prog_vtable :: "env \<Rightarrow> security_ref \<Rightarrow> (session_ctx, world) protocomm_security" where
  "prog_vtable E network_prov_security0 = security0_vtable E"
| "prog_vtable E network_prov_security1 = security1_vtable E"

fun prog_handler :: "env \<Rightarrow> handler_ref \<Rightarrow> nat option \<Rightarrow> bytes \<Rightarrow> (int \<times> bytes option) prog" where
  "prog_handler E H_wifi_scan priv b = network_prov_wifi_scan_handler E b"
| "prog_handler E H_wifi_config priv b = network_prov_wifi_config_handler E b"
| "prog_handler E H_wifi_ctrl priv b = network_prov_wifi_ctrl_handler E b"
| "prog_handler E H_thread_scan priv b = network_prov_thread_scan_handler E b"
| "prog_handler E H_thread_config priv b = network_prov_thread_config_handler E b"
| "prog_handler E H_thread_ctrl priv b = network_prov_thread_ctrl_handler E b"
| "prog_handler E H_custom_trampoline priv b = custom_trampoline E priv b"

definition prog_link :: "env \<Rightarrow> (security_ref, session_ctx, handler_ref, nat, world) link" where
  "prog_link E = \<lparr>vtable = prog_vtable E, call_handler = prog_handler E\<rparr>"

lemma prog_link_sel [simp]:
  "vtable (prog_link E) v = prog_vtable E v" "call_handler (prog_link E) h = prog_handler E h"
  by (simp_all add: prog_link_def)

section \<open>The handlers meet the contract\<close>

text \<open>Hypotheses: a protobuf message whose type field is not 0 is encoded to at least one byte
  (proto3 leaves out only fields with the default value), and application handlers do not answer
  with an empty buffer.\<close>

definition responses_nonempty :: "env \<Rightarrow> bool" where
  "responses_nonempty E \<longleftrightarrow>
    (\<forall>m. is_config_response (config_msg m) \<longrightarrow> \<not> encodes (NetworkConfig_codec (nanopb E)) m []) \<and>
    (\<forall>m. is_scan_response (scan_msg m) \<longrightarrow> \<not> encodes (NetworkScan_codec (nanopb E)) m []) \<and>
    (\<forall>m. is_ctrl_response (ctrl_msg m) \<longrightarrow> \<not> encodes (NetworkCtrl_codec (nanopb E)) m [])"

definition app_nonempty :: "env \<Rightarrow> bool" where
  "app_nonempty E \<longleftrightarrow> (\<forall>h f ctx b. snd (app_endpoint (kern E) h f ctx b) \<noteq> Some [])"

definition nonempty_handler :: "env \<Rightarrow> handler_ref \<Rightarrow> bool" where
  "nonempty_handler E h \<longleftrightarrow> (if h = H_custom_trampoline then app_nonempty E else responses_nonempty E)"

text \<open>Which handlers an endpoint may have: those of the network type that the program is built for, and the
  trampoline with a pointer into the array of custom endpoints.\<close>

fun handler_is_thread :: "handler_ref \<Rightarrow> bool option" where
  "handler_is_thread H_custom_trampoline = None"
| "handler_is_thread H_thread_scan = Some True"
| "handler_is_thread H_thread_config = Some True"
| "handler_is_thread H_thread_ctrl = Some True"
| "handler_is_thread _ = Some False"

definition callable :: "env \<Rightarrow> handler_ref \<Rightarrow> nat option \<Rightarrow> bool" where
  "callable E h pr \<longleftrightarrow>
    (h = H_custom_trampoline \<longrightarrow> (\<exists>i. pr = Some i \<and> i < MAX_CUSTOM_ENDPOINTS (cfg E))) \<and>
    (\<forall>t. handler_is_thread h = Some t \<longrightarrow> t = NETWORK_TYPE_THREAD (cfg E))"

lemma custom_trampoline_contract:
  assumes "callable E H_custom_trampoline pr"
  shows "wp (custom_trampoline E pr b) (\<lambda>r s'. only_hist s s' \<and>
     blocks (hist s') = blocks (hist s) + (if snd r = None then 0 else 1) \<and>
     (app_nonempty E \<longrightarrow> snd r \<noteq> Some [])) s"
  using assms
  by (auto simp: custom_trampoline_def app_handler_def callable_def app_nonempty_def split: option.split)

lemma answers_nonempty: "answers c P r \<Longrightarrow> (\<forall>m. P m \<longrightarrow> \<not> encodes c m []) \<Longrightarrow> snd r \<noteq> Some []"
  by (fastforce simp: answers_def)

lemma prog_handler_contract:
  assumes "callable E h pr"
  shows "wp (prog_handler E h pr b) (\<lambda>r s'. same_objects s s' \<and>
     blocks (hist s') = blocks (hist s) + (if snd r = None then 0 else 1) \<and>
     (nonempty_handler E h \<longrightarrow> snd r \<noteq> Some [])) s"
proof (cases h)
  case H_custom_trampoline
  with assms show ?thesis
    by simp (rule wp_mono [OF custom_trampoline_contract],
        auto simp: nonempty_handler_def dest: same_objects_only_hist)
next
  case H_wifi_scan
  then show ?thesis
    by simp (rule wp_mono [OF wifi_scan_handler_contract], auto simp: scan_answer_def out_contract_def
        nonempty_handler_def responses_nonempty_def dest: scan_frameD(1) answers_nonempty)
next
  case H_wifi_config
  then show ?thesis
    by simp (rule wp_mono [OF wifi_config_handler_contract], auto simp: out_contract_def
        nonempty_handler_def responses_nonempty_def dest: wifi_frameD(1) answers_nonempty)
next
  case H_wifi_ctrl
  then show ?thesis
    by simp (rule wp_mono [OF wifi_ctrl_handler_contract], auto simp: out_contract_def
        nonempty_handler_def responses_nonempty_def dest: wifi_frameD(1) answers_nonempty)
next
  case H_thread_scan
  then show ?thesis
    by simp (rule wp_mono [OF thread_scan_handler_contract], auto simp: tscan_answer_def out_contract_def
        nonempty_handler_def responses_nonempty_def dest: tscan_frameD(1) answers_nonempty)
next
  case H_thread_config
  then show ?thesis
    by simp (rule wp_mono [OF thread_config_handler_contract], auto simp: out_contract_def
        nonempty_handler_def responses_nonempty_def dest: thread_frameD(1) answers_nonempty)
next
  case H_thread_ctrl
  then show ?thesis
    by simp (rule wp_mono [OF thread_ctrl_handler_contract], auto simp: out_contract_def
        nonempty_handler_def responses_nonempty_def dest: thread_frameD(1) answers_nonempty)
qed

interpretation prog: protocomm_link "prog_link E" ctx_sig "callable E" "nonempty_handler E" for E
proof (rule protocomm_link.intro)
  show "security_vtable (vtable (prog_link E) v) v ctx_sig" for v
    by (cases v) (simp_all add: sec0.security_vtable_axioms sec1.security_vtable_axioms)
qed (simp add: prog_handler_contract)

section \<open>What requests leave alone\<close>

text \<open>No request and no session change touches the statics of the manager and of the transports.\<close>

definition statics :: "world \<Rightarrow> mgr_state \<times> console_state \<times> softap_state \<times> ble_state" where
  "statics s = (mgr s, con s, sap s, ble s)"

lemma statics_simps [simp]:
  "statics (s\<lparr>hist := a\<rparr>) = statics s" "statics (s\<lparr>fault := b\<rparr>) = statics s"
  "statics (s\<lparr>pcs := c\<rparr>) = statics s"
  by (simp_all add: statics_def)

lemma keeps_only_hist: "(\<And>s. wp m (\<lambda>_ s'. only_hist s s') s) \<Longrightarrow> keeps m statics"
  by (intro keepsI, rule wp_mono, assumption) (auto elim!: only_histE)

lemma keeps_calls [intro!]:
  "keeps (ext_call c) statics" "keeps set_fault statics" "keeps (k_malloc E n) statics"
  "keeps (k_free x) statics" "keeps (upd_pc p f) statics" "keeps (gets g) statics"
  by (intro keepsI; simp split: option.split)+

lemma keeps_with_pc [intro!]: "(\<And>c. keeps (f c) statics) \<Longrightarrow> keeps (with_pc p d f) statics"
  by (auto simp: keeps_def split: option.split)

lemma keeps_handler: "keeps (prog_handler E h pr b) statics"
proof -
  have frames: "wifi_frame s s' \<Longrightarrow> statics s' = statics s" "scan_frame s s' \<Longrightarrow> statics s' = statics s"
    "thread_frame s s' \<Longrightarrow> statics s' = statics s" "tscan_frame s s' \<Longrightarrow> statics s' = statics s" for s s'
    by (simp_all add: statics_def wifi_frameD scan_frameD thread_frameD tscan_frameD)
  show ?thesis
  proof (cases h)
    case H_custom_trampoline
    then show ?thesis
      by (auto intro!: keepsI simp: custom_trampoline_def app_handler_def split: option.split)
  qed (auto intro!: keepsI wp_mono [OF wifi_scan_handler_contract] wp_mono [OF wifi_config_handler_contract]
      wp_mono [OF wifi_ctrl_handler_contract] wp_mono [OF thread_scan_handler_contract]
      wp_mono [OF thread_config_handler_contract] wp_mono [OF thread_ctrl_handler_contract]
      simp: frames scan_answer_def tscan_answer_def)
qed

lemma sec1_crypt_keeps: "keeps (sec1_encrypt E x b) statics"
  by (auto intro!: keepsI simp: sec1_encrypt_def as_sec1_def split: option.split session_ctx.split)

lemma sec1_handshake_keeps: "keeps (sec1_handshake E x b) statics"
proof -
  have "wp (sec1_dispatch E c b) (\<lambda>_ s'. statics s' = statics s) s" for c s
    by (rule wp_mono [OF sec1_dispatch_spec]) (auto elim!: only_histE)
  then show ?thesis
    by (auto intro!: keepsI simp: sec1_handshake_def as_sec1_def split: option.split session_ctx.split
        elim!: wp_mono)
qed

lemma sec0_handshake_keeps: "keeps (sec0_handshake E x b) statics"
  by (auto intro!: keepsI wp_pb_encode simp: sec0_handshake_def split: option.split)

lemma vtable_keeps:
  "sec_init (prog_vtable E v) = Some f \<Longrightarrow> keeps (f pp) statics"
  "sec_cleanup (prog_vtable E v) = Some g \<Longrightarrow> keeps (g y) statics"
  "sec_handshake (prog_vtable E v) = Some hs \<Longrightarrow> keeps (hs x b) statics"
  "keeps (sec_encrypt (prog_vtable E v) x b) statics" "keeps (sec_decrypt (prog_vtable E v) x b) statics"
proof -
  have init: "keeps (sec1_init E pp) statics"
    by (rule keeps_only_hist, rule wp_mono [OF sec1_init_spec]) simp
  have cl: "keeps (sec1_cleanup y) statics"
    by (auto intro!: keepsI simp: sec1_cleanup_def as_sec1_def split: session_ctx.split)
  note k = init cl sec1_handshake_keeps sec0_handshake_keeps sec1_crypt_keeps
  show "sec_init (prog_vtable E v) = Some f \<Longrightarrow> keeps (f pp) statics"
    "sec_cleanup (prog_vtable E v) = Some g \<Longrightarrow> keeps (g y) statics"
    "sec_handshake (prog_vtable E v) = Some hs \<Longrightarrow> keeps (hs x b) statics"
    "keeps (sec_encrypt (prog_vtable E v) x b) statics" "keeps (sec_decrypt (prog_vtable E v) x b) statics"
    by (cases v; auto simp: security0_vtable_def security1_vtable_def sec0_init_def sec0_cleanup_def
        sec0_passthrough_def k)+
qed

lemma close_session_keeps: "keeps (protocomm_close_session (prog_link E) pc) statics"
  unfolding protocomm_close_session_def
  by (auto split: option.split) (erule vtable_keeps)+

lemma session_keeps:
  "keeps (protocomm_open_session (prog_link E) pc) statics"
  "keeps (protocomm_delete (prog_link E) pc) statics"
proof -
  have modif: "keeps (modify (\<lambda>s. s\<lparr>pcs := f s\<rparr>)) statics" for f by (simp add: keeps_def)
  show "keeps (protocomm_open_session (prog_link E) pc) statics"
    unfolding protocomm_open_session_def
    by (auto split: option.split intro!: close_session_keeps) (erule vtable_keeps)+
  show "keeps (protocomm_delete (prog_link E) pc) statics"
    unfolding protocomm_delete_def by (auto split: option.split intro!: close_session_keeps modif)
qed

lemma request_keeps: "keeps (protocomm_req_handle E (prog_link E) pc n b) statics"
proof -
  have crypt: "keeps (crypt p f x) statics" if "\<And>c y. keeps (f c y) statics" for p f x
    unfolding crypt_def by (auto intro!: that)
  have data: "keeps (handle_data E (prog_link E) p v ep b) statics" for p v ep
    unfolding handle_data_def decrypt_request_def run_endpoint_def encrypt_response_def
    by (auto split: option.split sum.split intro!: keeps_handler crypt vtable_keeps(4,5))
  show ?thesis
    unfolding protocomm_req_handle_def handle_version_def
    by (auto split: option.split ep_type.split intro!: data) (erule vtable_keeps)+
qed

section \<open>What the transports rely on\<close>

text \<open>A live instance: it exists, its invariant holds, a scheme is set, and its handlers may be
  called. \<open>balance p s\<close> counts the heap blocks that are not owned by the session of \<open>p\<close>.\<close>

definition pc_live :: "env \<Rightarrow> nat \<Rightarrow> world \<Rightarrow> bool" where
  "pc_live E p s \<longleftrightarrow> (\<exists>c. pcs s p = Some c \<and> pc_inv ctx_sig c \<and> sec c \<noteq> None \<and>
     (\<forall>ep \<in> set (endpoints c). \<forall>h. ep_handler ep = Some h \<longrightarrow> callable E h (ep_priv ep)))"

definition balance :: "nat \<Rightarrow> world \<Rightarrow> int" where
  "balance p s = blocks (hist s) - (case pcs s p of None \<Rightarrow> 0 | Some c \<Rightarrow> ctx_owned ctx_sig (sec_ctx c))"

definition live_step :: "env \<Rightarrow> nat \<Rightarrow> world \<Rightarrow> world \<Rightarrow> bool" where
  "live_step E p s s' \<longleftrightarrow> pc_live E p s' \<and> fault s' = fault s \<and> statics s' = statics s \<and>
     (\<forall>q. q \<noteq> p \<longrightarrow> pcs s' q = pcs s q)"

definition buffer_laws :: "env \<Rightarrow> bool" where
  "buffer_laws E \<longleftrightarrow> responses_nonempty E \<and> app_nonempty E"

lemma pc_liveE:
  assumes "pc_live E p s"
  obtains c v where "pcs s p = Some c" "pc_inv ctx_sig c" "sec c = Some v"
    "\<And>y s'. ctx_typed ctx_sig v y \<Longrightarrow> pcs s' p = Some (c\<lparr>sec_ctx := y\<rparr>) \<Longrightarrow> pc_live E p s'"
    "\<And>ep h. ep \<in> set (endpoints c) \<Longrightarrow> ep_handler ep = Some h \<Longrightarrow> callable E h (ep_priv ep)"
  using assms unfolding pc_live_def by (fastforce simp: pc_inv_ctx)

lemma pc_live_hist [simp]: "pc_live E p (s\<lparr>hist := h\<rparr>) = pc_live E p s"
  by (simp add: pc_live_def)

lemma pc_live_static [simp]:
  "pc_live E p (s\<lparr>con := c\<rparr>) = pc_live E p s" "pc_live E p (s\<lparr>sap := d\<rparr>) = pc_live E p s"
  "pc_live E p (s\<lparr>ble := e\<rparr>) = pc_live E p s" "pc_live E p (s\<lparr>mgr := f\<rparr>) = pc_live E p s"
  by (simp_all add: pc_live_def)

lemma balance_static [simp]:
  "balance p (s\<lparr>con := c\<rparr>) = balance p s" "balance p (s\<lparr>sap := d\<rparr>) = balance p s"
  "balance p (s\<lparr>ble := e\<rparr>) = balance p s" "balance p (s\<lparr>mgr := f\<rparr>) = balance p s"
  by (simp_all add: balance_def)

lemma balance_hist: "balance p (s\<lparr>hist := h\<rparr>) = balance p s + blocks h - blocks (hist s)"
  by (simp add: balance_def)

lemma wp_statics:
  "wp (protocomm_req_handle E (prog_link E) pc n b) (\<lambda>_ s'. statics s' = statics s) s"
  "wp (protocomm_open_session (prog_link E) pc) (\<lambda>_ s'. statics s' = statics s) s"
  "wp (protocomm_close_session (prog_link E) pc) (\<lambda>_ s'. statics s' = statics s) s"
  "wp (protocomm_delete (prog_link E) pc) (\<lambda>_ s'. statics s' = statics s) s"
  using request_keeps session_keeps close_session_keeps by (simp_all add: keeps_def)

lemma live_request:
  assumes live: "pc_live E p s" and laws: "buffer_laws E"
  shows "wp (protocomm_req_handle E (prog_link E) (Some p) (Some n) b) (\<lambda>r s'. live_step E p s s' \<and>
     (fst r \<noteq> 0 \<longrightarrow> snd r = None) \<and> balance p s' = balance p s + (if snd r = None then 0 else 1)) s"
proof (rule pc_liveE [OF live])
  fix c v
  assume c: "pcs s p = Some c" "pc_inv ctx_sig c" "sec c = Some v"
    and upd: "\<And>y s'. ctx_typed ctx_sig v y \<Longrightarrow> pcs s' p = Some (c\<lparr>sec_ctx := y\<rparr>) \<Longrightarrow> pc_live E p s'"
    and ep: "\<And>ep h. ep \<in> set (endpoints c) \<Longrightarrow> ep_handler ep = Some h \<Longrightarrow> callable E h (ep_priv ep)"
  have "wp (protocomm_req_handle E (prog_link E) (Some p) (Some n) b) (\<lambda>r s'.
     ctx_step ctx_sig p s s' \<and> (fst r \<noteq> 0 \<longrightarrow> snd r = None) \<and>
     blocks (hist s') = blocks (hist s) + (if snd r = None then 0 else 1)) s"
    by (rule prog.req_handle_spec [OF c(1,2)]) (use laws ep in \<open>auto simp: nonempty_handler_def buffer_laws_def\<close>)
  from wp_conj [OF this wp_statics(1)] show ?thesis
  proof (rule wp_mono, elim conjE ctx_stepE)
    fix r y and c' and s' :: world
    assume 1: "pcs s p = Some c'" "pcs s' = (pcs s)(p \<mapsto> c'\<lparr>sec_ctx := y\<rparr>)"
      "map_option ctx_sig y = map_option ctx_sig (sec_ctx c')" "fault s' = fault s"
      and 2: "fst r \<noteq> 0 \<longrightarrow> snd r = None" "statics s' = statics s"
        "blocks (hist s') = blocks (hist s) + (if snd r = None then 0 else 1)"
    from 1 c have y: "c' = c" "ctx_owned ctx_sig y = ctx_owned ctx_sig (sec_ctx c)" "ctx_typed ctx_sig v y"
      using ctx_sig_cong [of ctx_sig y "sec_ctx c"] pc_inv_typed [OF c(2,3)] by auto
    with 1 2 c upd [OF y(3), of s'] show "live_step E p s s' \<and> (fst r \<noteq> 0 \<longrightarrow> snd r = None) \<and>
        balance p s' = balance p s + (if snd r = None then 0 else 1)"
      by (simp add: live_step_def balance_def)
  qed
qed

lemma live_open:
  assumes live: "pc_live E p s"
  shows "wp (protocomm_open_session (prog_link E) (Some p)) (\<lambda>_ s'. live_step E p s s' \<and>
     balance p s' = balance p s) s"
proof (rule pc_liveE [OF live])
  fix c v
  assume c: "pcs s p = Some c" "pc_inv ctx_sig c" "sec c = Some v"
    and upd: "\<And>y s'. ctx_typed ctx_sig v y \<Longrightarrow> pcs s' p = Some (c\<lparr>sec_ctx := y\<rparr>) \<Longrightarrow> pc_live E p s'"
  show ?thesis
    by (rule wp_mono [OF wp_conj [OF prog.open_session_spec [OF c] wp_statics(2)]])
      (use c upd in \<open>auto simp: live_step_def balance_def\<close>)
qed

lemma live_close:
  assumes live: "pc_live E p s"
  shows "wp (protocomm_close_session (prog_link E) (Some p)) (\<lambda>_ s'. live_step E p s s' \<and>
     balance p s' = balance p s \<and> blocks (hist s') = balance p s) s"
proof (rule pc_liveE [OF live])
  fix c v
  assume c: "pcs s p = Some c" "pc_inv ctx_sig c" "sec c = Some v"
    and upd: "\<And>y s'. ctx_typed ctx_sig v y \<Longrightarrow> pcs s' p = Some (c\<lparr>sec_ctx := y\<rparr>) \<Longrightarrow> pc_live E p s'"
  show ?thesis
    by (rule wp_mono [OF wp_conj [OF prog.close_session_spec [OF c(1,2)] wp_statics(3)]])
      (use c upd [of None] in \<open>auto simp: live_step_def balance_def\<close>)
qed

section \<open>Requests before the handshake\<close>

text \<open>An instance with scheme 1 whose session is open but not authenticated.\<close>

definition unauthenticated :: "(security_ref, session_ctx, handler_ref, nat) protocomm \<Rightarrow> bool" where
  "unauthenticated c \<longleftrightarrow> sec c = Some network_prov_security1 \<and>
     (case sec_ctx c of Some (Sec1_object x) \<Rightarrow> s1_state x \<noteq> SEC1_DONE | _ \<Rightarrow> False)"

lemma unauthenticatedE:
  assumes "unauthenticated c"
  obtains x where "sec c = Some network_prov_security1" "sec_ctx c = Some (Sec1_object x)" "s1_state x \<noteq> SEC1_DONE"
  using assms by (auto simp: unauthenticated_def split: option.splits session_ctx.splits)

text \<open>A step that only manages the heap.\<close>

definition heap_only :: "world \<Rightarrow> world \<Rightarrow> bool" where
  "heap_only s s' \<longleftrightarrow> (\<exists>k. list_all heap_call k \<and> s' = s\<lparr>hist := k @ hist s\<rparr>)"

lemma heap_only_intros [simp]:
  "heap_only s s" "heap_call x \<Longrightarrow> heap_only s (s\<lparr>hist := x # hist s\<rparr>)"
  "heap_call x \<Longrightarrow> heap_call y \<Longrightarrow> heap_only s (s\<lparr>hist := x # y # hist s\<rparr>)"
  "heap_call x \<Longrightarrow> heap_call y \<Longrightarrow> heap_call z \<Longrightarrow> heap_only s (s\<lparr>hist := x # y # z # hist s\<rparr>)"
  unfolding heap_only_def
  by (intro exI [of _ "[]"], simp) (intro exI [of _ "[x]"], simp, intro exI [of _ "[x, y]"], simp,
      intro exI [of _ "[x, y, z]"], simp)

lemma unauthenticated_crypt:
  assumes c: "pcs s p = Some c" and u: "unauthenticated c"
  shows "wp (crypt p (sec_decrypt (security1_vtable E)) b) Q s = Q (- EACCES, []) s"
    "wp (crypt p (sec_encrypt (security1_vtable E)) b) Q s = Q (- EACCES, []) s"
proof -
  obtain x where x: "sec c = Some network_prov_security1" "sec_ctx c = Some (Sec1_object x)"
    "s1_state x \<noteq> SEC1_DONE" using u by (rule unauthenticatedE)
  have "c\<lparr>sec_ctx := Some (Sec1_object x)\<rparr> = c" using x by simp
  then have "(pcs s)(p \<mapsto> c\<lparr>sec_ctx := Some (Sec1_object x)\<rparr>) = pcs s" using c by (simp add: fun_upd_idem)
  with x c show "wp (crypt p (sec_decrypt (security1_vtable E)) b) Q s = Q (- EACCES, []) s"
    "wp (crypt p (sec_encrypt (security1_vtable E)) b) Q s = Q (- EACCES, []) s"
    by (simp_all add: crypt_def security1_vtable_def sec1_encrypt_def)
qed

lemma data_request_unauthenticated:
  assumes c: "pcs s p = Some c" and ep: "find_ep c n = Some ep" "ep_ty ep = EP_DATA" and u: "unauthenticated c"
  shows "wp (protocomm_req_handle E (prog_link E) (Some p) (Some n) b) Q s =
    wp (handle_data E (prog_link E) p network_prov_security1 ep b) Q s"
  using u by (rule unauthenticatedE) (simp add: protocomm_req_handle_def c ep)

lemma nonempty_request_refused:
  assumes "pcs s p = Some c" "find_ep c n = Some ep" "ep_ty ep = EP_DATA" "unauthenticated c" "b \<noteq> []"
  shows "wp (protocomm_req_handle E (prog_link E) (Some p) (Some n) b) (\<lambda>r s'.
     r = (if malloc_ok (kern E) (hist s) (length b) then - EACCES else - ENOMEM, None) \<and>
     heap_only s s' \<and> blocks (hist s') = blocks (hist s)) s"
  unfolding data_request_unauthenticated [OF assms(1-4)] handle_data_def decrypt_request_def
  using assms(5) by (simp add: unauthenticated_crypt [OF _ assms(4)] assms(1))

lemma callable_keeps_pcs:
  "callable E h pr \<Longrightarrow> wp (prog_handler E h pr b) (\<lambda>_ s'. pcs s' = pcs s) s"
  by (rule wp_mono [OF prog_handler_contract]) (auto dest: same_objects_pcs)

text \<open>An empty request is not decrypted: the handler runs, and only its answer is refused.\<close>

lemma empty_request_unauthenticated:
  assumes c: "pcs s p = Some c" and ep: "find_ep c n = Some ep" "ep_ty ep = EP_DATA" "ep_handler ep = Some h"
    "callable E h (ep_priv ep)" and u: "unauthenticated c"
  shows "wp (protocomm_req_handle E (prog_link E) (Some p) (Some n) []) (\<lambda>r s'. snd r = None \<and>
     heap_only (snd (run_state (prog_handler E h (ep_priv ep) []) s)) s') s"
proof -
  let ?s1 = "snd (run_state (prog_handler E h (ep_priv ep) []) s)"
  let ?Q = "\<lambda>r s'. snd r = None \<and> heap_only ?s1 s'"
  have c1: "pcs ?s1 p = Some c"
    using callable_keeps_pcs [OF ep(4), of "[]" s] c by (simp add: wp_sel)
  have enc: "wp (encrypt_response E (prog_vtable E network_prov_security1) p raw) ?Q ?s1" for raw
    unfolding encrypt_response_def
    by (auto simp: unauthenticated_crypt [OF _ u] c1 split: option.split)
  have "wp (prog_handler E h (ep_priv ep) []) (\<lambda>rr. wp (if fst rr \<noteq> 0
      then do { k_free (snd rr); ret (fst rr, None) }
      else encrypt_response E (prog_vtable E network_prov_security1) p (snd rr)) ?Q) s"
    unfolding wp_sel [of "prog_handler E h (ep_priv ep) []"]
    using enc by (auto split: option.split)
  then show ?thesis
    unfolding data_request_unauthenticated [OF c ep(1,2) u] handle_data_def decrypt_request_def run_endpoint_def ep(3)
    by simp (erule wp_mono, auto split: if_splits)
qed

text \<open>A new session of scheme 1 is not authenticated, whatever the previous one was.\<close>

lemma sec1_init_fresh:
  "wp (sec1_init E pp) (\<lambda>r s'. case snd r of None \<Rightarrow> True
     | Some (Sec1_object x) \<Rightarrow> s1_state x = SEC1_INIT \<and> session_key x = 0 \<and> cipher x = []
     | Some Sec0_sentinel \<Rightarrow> False) s"
  by (auto simp: sec1_init_def Let_def sec1_store_pop_def sec1_zero_def split: option.split)

lemma open_session_unauthenticated:
  assumes c: "pcs s p = Some c" and inv: "pc_inv ctx_sig c" and v: "sec c = Some network_prov_security1"
  shows "wp (protocomm_open_session (prog_link E) (Some p)) (\<lambda>_ s'. \<exists>y.
     pcs s' = (pcs s)(p \<mapsto> c\<lparr>sec_ctx := y\<rparr>) \<and> (y = None \<or> unauthenticated (c\<lparr>sec_ctx := y\<rparr>))) s"
  unfolding protocomm_open_session_def using c v
  by (simp add: security1_vtable_def)
    (rule wp_mono [OF prog.close_session_spec [OF c inv]], simp,
      rule wp_mono [OF wp_conj [OF sec1_init_fresh sec1_init_spec]],
      auto simp: unauthenticated_def elim!: only_histE split: option.splits session_ctx.splits)

lemma fresh_session_refuses:
  assumes y: "pcs s p = Some (c\<lparr>sec_ctx := y\<rparr>)" "y = None \<or> unauthenticated (c\<lparr>sec_ctx := y\<rparr>)"
    and c: "sec c = Some network_prov_security1" "find_ep c n = Some ep" "ep_ty ep = EP_DATA" "b \<noteq> []"
  shows "wp (protocomm_req_handle E (prog_link E) (Some p) (Some n) b)
     (\<lambda>r s'. r = (- EACCES, None) \<or> r = (- ENOMEM, None)) s"
proof -
  have ep: "find_ep (c\<lparr>sec_ctx := y\<rparr>) n = Some ep" using c(2) by (simp add: find_ep_def)
  from y(2) show ?thesis
  proof
    assume "y = None"
    with y(1) ep c show ?thesis by (simp add: protocomm_req_handle_def)
  next
    assume "unauthenticated (c\<lparr>sec_ctx := y\<rparr>)"
    then show ?thesis
      by (intro wp_mono [OF nonempty_request_refused [OF y(1) ep c(3) _ c(4)]]) auto
  qed
qed

section \<open>Properties\<close>

text \<open>A concrete instance: scheme 1 with an open session that has seen no handshake message, and two
  endpoints, the Wi-Fi scan and an application endpoint with the handler 7.\<close>

definition demo_instance :: "(security_ref, session_ctx, handler_ref, nat) protocomm" where
  "demo_instance = empty_protocomm\<lparr>
     endpoints := [\<lparr>ep_name = ''prov-scan'', ep_ty = EP_DATA, ep_handler = Some H_wifi_scan, ep_priv = None\<rparr>,
       \<lparr>ep_name = ''custom'', ep_ty = EP_DATA, ep_handler = Some H_custom_trampoline, ep_priv = Some 0\<rparr>],
     sec := Some network_prov_security1, sec_ctx := Some (Sec1_object sec1_zero)\<rparr>"

definition demo_running :: world where
  "demo_running = (boot_world ok_env)\<lparr>pcs := [0 \<mapsto> demo_instance],
     mgr := (mgr_zero ok_env)\<lparr>custom := [no_custom\<lparr>ce_name := ''custom'', ce_handler := Some 7, ce_created := True\<rparr>,
       no_custom, no_custom]\<rparr>\<rparr>"

lemma demo_running_pc [simp]: "pcs demo_running 0 = Some demo_instance"
  by (simp add: demo_running_def)

lemma demo_instance_facts:
  "pc_inv ctx_sig demo_instance" "unauthenticated demo_instance"
  "find_ep demo_instance ''custom'' = Some \<lparr>ep_name = ''custom'', ep_ty = EP_DATA,
     ep_handler = Some H_custom_trampoline, ep_priv = Some 0\<rparr>"
  by (simp_all add: demo_instance_def pc_inv_def empty_protocomm_def registry_ok_def unauthenticated_def
      sec1_zero_def find_ep_def)

text \<open>A codec that encodes every message to one byte.\<close>

definition byte_codec :: "'m codec" where
  "byte_codec = \<lparr>pb_decode = (\<lambda>_. None), pb_get_encoded_size = (\<lambda>_. Some 1), pb_encode = (\<lambda>_ _. Some [1])\<rparr>"

definition demo_env :: env where
  "demo_env = ok_env\<lparr>nanopb := ok_nanopb\<lparr>NetworkConfig_codec := byte_codec, NetworkScan_codec := byte_codec,
     NetworkCtrl_codec := byte_codec\<rparr>, kern := ok_kern\<lparr>app_endpoint := \<lambda>_ _ _ b. (0, Some (1 # b))\<rparr>\<rparr>"

lemma demo_env_laws: "responses_nonempty demo_env" "app_nonempty demo_env" "MAX_CUSTOM_ENDPOINTS (cfg demo_env) = 3"
  "\<not> NETWORK_TYPE_THREAD (cfg demo_env)"
  by (simp_all add: responses_nonempty_def app_nonempty_def demo_env_def byte_codec_def encodes_def
      ok_env_def ok_cfg_def)

lemma demo_instance_sec: "sec demo_instance = Some network_prov_security1"
  by (simp add: demo_instance_def)

lemma demo_running_live: "pcs s 0 = Some demo_instance \<Longrightarrow> pc_live demo_env 0 s" "buffer_laws demo_env"
  using demo_instance_facts(1)
  by (simp_all add: pc_live_def buffer_laws_def demo_env_laws callable_def demo_instance_def)

text \<open>Every request of the linked program is balanced: on any endpoint name and any input bytes,
  with either security scheme, no wrong object is dereferenced, an error returns no buffer, exactly
  the returned buffer stays allocated (nothing leaks), the instance keeps its invariant and only its
  session context changes, and the statics of the manager and the transports are untouched. The
  hypotheses are that typed protobuf responses are not empty and that application handlers do not
  answer with an empty buffer.\<close>

theorem program_request_balanced:
  assumes "pcs s p = Some c" and "pc_inv ctx_sig c" and "responses_nonempty E" and "app_nonempty E"
    and "\<forall>ep \<in> set (endpoints c). \<forall>h. ep_handler ep = Some h \<longrightarrow> callable E h (ep_priv ep)"
  shows "wp (protocomm_req_handle E (prog_link E) (Some p) (Some n) b) (\<lambda>r s'.
     fault s' = fault s \<and> (fst r \<noteq> 0 \<longrightarrow> snd r = None) \<and>
     blocks (hist s') = blocks (hist s) + (if snd r = None then 0 else 1) \<and>
     (\<exists>y. pcs s' = (pcs s)(p \<mapsto> c\<lparr>sec_ctx := y\<rparr>) \<and> pc_inv ctx_sig (c\<lparr>sec_ctx := y\<rparr>)) \<and>
     statics s' = statics s) s"
proof -
  have inv: "pc_inv ctx_sig (c\<lparr>sec_ctx := y\<rparr>)" if "map_option ctx_sig y = map_option ctx_sig (sec_ctx c)" for y
    using assms(2) ctx_sig_cong [OF that] by (auto simp: pc_inv_def)
  note wp_statics(1) [of E "Some p" "Some n" b s]
  moreover have "wp (protocomm_req_handle E (prog_link E) (Some p) (Some n) b) (\<lambda>r s'.
     ctx_step ctx_sig p s s' \<and> (fst r \<noteq> 0 \<longrightarrow> snd r = None) \<and>
     blocks (hist s') = blocks (hist s) + (if snd r = None then 0 else 1)) s"
    by (rule prog.req_handle_spec [OF assms(1,2)]) (use assms(3-5) in \<open>auto simp: nonempty_handler_def\<close>)
  ultimately show ?thesis
    by (rule wp_mono [OF wp_conj]) (auto elim!: ctx_stepE simp: assms(1), (blast intro: inv)+)
qed

theorem program_request_balanced_witness:
  "wp (protocomm_req_handle demo_env (prog_link demo_env) (Some 0) (Some ''custom'') [1, 2])
     (\<lambda>r s'. fault s' = False \<and> blocks (hist s') = (if snd r = None then 0 else 1)) demo_running"
proof -
  have ep: "\<forall>ep \<in> set (endpoints demo_instance). \<forall>h. ep_handler ep = Some h \<longrightarrow> callable demo_env h (ep_priv ep)"
    by (simp add: demo_instance_def callable_def demo_env_laws)
  show ?thesis
    by (rule wp_mono [OF program_request_balanced [OF demo_running_pc demo_instance_facts(1) demo_env_laws(1,2) ep]])
      (simp add: demo_running_def boot_world_def)
qed

text \<open>C5. Without a finished handshake no payload reaches a handler: with scheme 1 and a session that
  is not authenticated, every non-empty request on a data endpoint is refused with -EACCES (or
  -ENOMEM), and nothing changes but a heap block that is allocated and freed again.\<close>

theorem unauthenticated_payload_refused:
  assumes "pcs s p = Some c" and "find_ep c n = Some ep" and "ep_ty ep = EP_DATA" and "unauthenticated c"
    and "b \<noteq> []"
  shows "wp (protocomm_req_handle E (prog_link E) (Some p) (Some n) b) (\<lambda>r s'.
     r = (if malloc_ok (kern E) (hist s) (length b) then - EACCES else - ENOMEM, None) \<and>
     heap_only s s' \<and> blocks (hist s') = blocks (hist s)) s"
  using assms by (rule nonempty_request_refused)

theorem unauthenticated_payload_refused_witness:
  "wp (protocomm_req_handle ok_env (prog_link ok_env) (Some 0) (Some ''custom'') [1, 2])
     (\<lambda>r s'. r = (- EACCES, None) \<and> heap_only demo_running s' \<and> blocks (hist s') = 0) demo_running"
  using unauthenticated_payload_refused [OF demo_running_pc demo_instance_facts(3) _ demo_instance_facts(2), of "[1, 2]" ok_env]
  by (simp add: ok_env_def ok_kern_def) (simp add: demo_running_def boot_world_def)

text \<open>C28. The limit of the previous property: an empty request is not decrypted, so that before any
  handshake it has the whole effect of the endpoint's handler on an empty input; only the answer is
  withheld. (For prov-scan the empty message is CmdScanWifiStart; an application handler is called.)\<close>

theorem empty_request_runs_handler_unauthenticated:
  assumes "pcs s p = Some c" and "find_ep c n = Some ep" and "ep_ty ep = EP_DATA" and "ep_handler ep = Some h"
    and "callable E h (ep_priv ep)" and "unauthenticated c"
  shows "wp (protocomm_req_handle E (prog_link E) (Some p) (Some n) []) (\<lambda>r s'. snd r = None \<and>
     heap_only (snd (run_state (prog_handler E h (ep_priv ep) []) s)) s') s"
  using assms by (rule empty_request_unauthenticated)

theorem empty_request_runs_handler_unauthenticated_witness:
  "wp (protocomm_req_handle ok_env (prog_link ok_env) (Some 0) (Some ''custom'') [])
     (\<lambda>r s'. snd r = None \<and> App (App_endpoint 7 0 []) \<in> set (hist s')) demo_running"
proof -
  have "callable ok_env H_custom_trampoline (Some 0)" by (simp add: callable_def ok_env_def ok_cfg_def)
  moreover have "wp (prog_handler ok_env H_custom_trampoline (Some 0) []) (\<lambda>_ s'. App (App_endpoint 7 0 []) \<in> set (hist s')) demo_running"
    by (simp add: custom_trampoline_def app_handler_def ok_env_def ok_cfg_def demo_running_def no_custom_def
        split: option.split)
  ultimately show ?thesis
    by (intro wp_mono [OF empty_request_runs_handler_unauthenticated [OF demo_running_pc demo_instance_facts(3)]])
      (auto simp: demo_instance_facts(2) wp_sel heap_only_def)
qed

text \<open>A new session forgets the authentication of the old one: after \<open>protocomm_open_session\<close> on an
  instance with scheme 1 the old context has been released and every non-empty data request is
  refused until a new handshake has succeeded, also when the old session was established.\<close>

theorem new_session_needs_handshake:
  assumes "pcs s p = Some c" and "pc_inv ctx_sig c" and "sec c = Some network_prov_security1"
    and "find_ep c n = Some ep" and "ep_ty ep = EP_DATA" and "b \<noteq> []"
  shows "wp (do { protocomm_open_session (prog_link E) (Some p);
       protocomm_req_handle E (prog_link E) (Some p) (Some n) b })
     (\<lambda>r s'. r = (- EACCES, None) \<or> r = (- ENOMEM, None)) s"
  unfolding wp_bind
  by (rule wp_mono [OF open_session_unauthenticated [OF assms(1-3)]])
    (auto intro!: fresh_session_refuses [OF _ _ assms(3-6)])

theorem new_session_needs_handshake_witness:
  "wp (do { protocomm_open_session (prog_link ok_env) (Some 0);
       protocomm_req_handle ok_env (prog_link ok_env) (Some 0) (Some ''custom'') [9] })
     (\<lambda>r s'. r = (- EACCES, None) \<or> r = (- ENOMEM, None)) demo_running"
  by (rule new_session_needs_handshake [OF demo_running_pc demo_instance_facts(1) _ demo_instance_facts(3)])
    (simp_all add: demo_instance_def)

end
