(* ===== verification/C_Text.thy ===== *)
theory C_Text
  imports Prov_Prelude
begin

text \<open>
  The C library functions on text that the transports and the manager use: \<open>strtoul\<close> in base 10,
  \<open>strstr\<close>, and \<open>snprintf\<close> with its truncation and the conversion \<open>%u\<close>. The characters of a string
  stand without the terminating NUL.
\<close>

section \<open>Definitions\<close>

definition is_digit :: "char \<Rightarrow> bool" where
  "is_digit c \<longleftrightarrow> 48 \<le> (of_char c :: nat) \<and> (of_char c :: nat) \<le> 57"

definition digit_value :: "char \<Rightarrow> nat" where
  "digit_value c = of_char c - 48"

text \<open>\<open>isspace\<close> of the C locale.\<close>

definition is_space :: "char \<Rightarrow> bool" where
  "is_space c \<longleftrightarrow> (of_char c :: nat) = 32 \<or> (9 \<le> (of_char c :: nat) \<and> (of_char c :: nat) \<le> 13)"

fun scan_digits :: "nat \<Rightarrow> string \<Rightarrow> nat \<times> string" where
  "scan_digits acc [] = (acc, [])"
| "scan_digits acc (c # cs) = (if is_digit c then scan_digits (10 * acc + digit_value c) cs else (acc, c # cs))"

definition scan_sign :: "string \<Rightarrow> bool \<times> string" where
  "scan_sign s = (case s of [] \<Rightarrow> (False, [])
     | c # cs \<Rightarrow> if c = CHR ''-'' then (True, cs) else if c = CHR ''+'' then (False, cs) else (False, s))"

text \<open>\<open>strtoul(s, &end, 10)\<close> with \<open>ULONG_MAX = umax\<close>: the value, the text from \<open>end\<close> on, and whether errno
  was set to ERANGE. Leading white space and a sign are accepted; a minus sign negates modulo
  \<open>umax + 1\<close>; without digits \<open>end\<close> is the start of the text.\<close>

definition strtoul :: "nat \<Rightarrow> string \<Rightarrow> nat \<times> string \<times> bool" where
  "strtoul umax s =
    (let (neg, u) = scan_sign (dropWhile is_space s) in
     if u = [] \<or> \<not> is_digit (hd u) then (0, s, False)
     else let (v, rest) = scan_digits 0 u in
       if v > umax then (umax, rest, True)
       else ((if neg then (umax + 1 - v) mod (umax + 1) else v), rest, False))"

text \<open>\<open>strstr\<close>: the text from the first occurrence on.\<close>

fun strstr :: "string \<Rightarrow> string \<Rightarrow> string option" where
  "strstr hay needle =
    (if take (length needle) hay = needle then Some hay
     else case hay of [] \<Rightarrow> None | c # cs \<Rightarrow> strstr cs needle)"

text \<open>The conversion \<open>%u\<close>.\<close>

fun decimal :: "nat \<Rightarrow> string" where
  "decimal n = (if n < 10 then [char_of (48 + n)] else decimal (n div 10) @ [char_of (48 + n mod 10)])"

text \<open>\<open>snprintf\<close> into an array of \<open>cap\<close> bytes: what the array then holds, for a formatted text \<open>s\<close>; its
  return value is \<open>length s\<close>.\<close>

definition snprintf :: "nat \<Rightarrow> string \<Rightarrow> string" where
  "snprintf cap s = take (cap - 1) s"

declare strstr.simps [simp del] decimal.simps [simp del]

section \<open>Printing and parsing\<close>

lemma digit_char:
  assumes "n < 10"
  shows "is_digit (char_of (48 + n))" "digit_value (char_of (48 + n)) = n"
  using assms by (simp_all add: is_digit_def digit_value_def)

lemma digit_not_space: "is_digit c \<Longrightarrow> \<not> is_space c"
  by (simp add: is_digit_def is_space_def)

lemma digit_not_sign: "is_digit c \<Longrightarrow> c \<noteq> CHR ''-'' \<and> c \<noteq> CHR ''+''"
  by (auto simp: is_digit_def)

lemma scan_digits_append:
  "\<forall>c \<in> set xs. is_digit c \<Longrightarrow> scan_digits acc (xs @ ys) =
    scan_digits (foldl (\<lambda>a c. 10 * a + digit_value c) acc xs) ys"
  by (induction xs arbitrary: acc) auto

lemma decimal_digits: "\<forall>c \<in> set (decimal n). is_digit c"
proof (induction n rule: decimal.induct)
  case (1 n)
  then show ?case by (subst decimal.simps) (auto simp: digit_char)
qed

lemma decimal_value: "foldl (\<lambda>a c. 10 * a + digit_value c) 0 (decimal n) = n"
proof (induction n rule: decimal.induct)
  case (1 n)
  then show ?case by (subst decimal.simps) (auto simp: digit_char)
qed

lemma decimal_Cons: "\<exists>c cs. decimal n = c # cs \<and> is_digit c"
  using decimal_digits [of n] by (subst (asm) decimal.simps, subst decimal.simps)
    (cases "decimal (n div 10)"; auto simp: digit_char)

lemma length_decimal: "n < 10 ^ Suc k \<Longrightarrow> length (decimal n) \<le> Suc k"
proof (induction k arbitrary: n)
  case 0
  then show ?case by (subst decimal.simps) simp
next
  case (Suc k)
  then have "n div 10 < 10 ^ Suc k" by (simp add: less_mult_imp_div_less)
  from Suc.IH [OF this] show ?case by (subst decimal.simps) simp
qed

lemma scan_digits_decimal:
  "ys = [] \<or> \<not> is_digit (hd ys) \<Longrightarrow> scan_digits 0 (decimal n @ ys) = (n, ys)"
  using scan_digits_append [OF decimal_digits, of 0 n ys]
  by (cases ys) (simp_all add: decimal_value)

lemma strtoul_decimal:
  assumes "n \<le> umax" and "ys = [] \<or> \<not> is_digit (hd ys)"
  shows "strtoul umax (decimal n @ ys) = (n, ys, False)"
proof -
  obtain c cs where c: "decimal n = c # cs" "is_digit c" using decimal_Cons by blast
  have "dropWhile is_space (decimal n @ ys) = decimal n @ ys"
    using c digit_not_space by simp
  moreover have "scan_sign (decimal n @ ys) = (False, decimal n @ ys)"
    using c digit_not_sign by (simp add: scan_sign_def)
  ultimately show ?thesis
    using assms c scan_digits_decimal [OF assms(2), of n]
    by (simp add: strtoul_def)
qed

lemma strstr_prefix: "strstr (needle @ ys) needle = Some (needle @ ys)"
  by (subst strstr.simps) simp

lemma strtoul_le: "fst (strtoul umax s) \<le> umax"
proof -
  have "x mod (umax + 1) \<le> umax" for x
    by (metis Suc_eq_plus1 less_Suc_eq_le mod_less_divisor zero_less_Suc)
  then show ?thesis by (simp add: strtoul_def Let_def split: prod.split)
qed

lemma snprintf_fits: "length s < cap \<Longrightarrow> snprintf cap s = s"
  by (simp add: snprintf_def)

lemma unat_u32: "unat (n :: u32) \<le> 4294967295"
proof -
  have "unat n < 2 ^ LENGTH(32)" by (rule unsigned_less)
  then show ?thesis by simp
qed

end
