(* ===== verification/Transport.thy ===== *)
theory Transport
  imports Program C_Text
begin

text \<open>
  The interface between the manager and a transport, \<open>struct network_prov_scheme\<close>
  (\<^verbatim>\<open>include/network_provisioning/network_prov_mgr.h\<close>): \<open>start\<close> binds a protocomm instance to the transport,
  \<open>stop\<close> gives it up; \<open>bound\<close> reads the instance that the transport holds, \<open>others\<close> the statics of the
  other transports, which a transport leaves alone, and \<open>sound\<close> is the invariant of the transport's own statics. The three transports are interpretations of the locale; the manager is its client.
\<close>

section \<open>The contract of a scheme\<close>

text \<open>What a start leaves alone: the instances, the heap and the statics of every component but the
  transport.\<close>

definition start_frame :: "world \<Rightarrow> world \<Rightarrow> bool" where
  "start_frame s s' \<longleftrightarrow> same_objects s s' \<and> blocks (hist s') = blocks (hist s) \<and> mgr s' = mgr s \<and>
     wc s' = wc s \<and> sc s' = sc s \<and> tc s' = tc s \<and> ts s' = ts s"

text \<open>What a stop does to the instance \<open>p\<close>: it may close the session, which releases the blocks of the
  session and nothing else.\<close>

definition stop_frame :: "env \<Rightarrow> nat \<Rightarrow> world \<Rightarrow> world \<Rightarrow> bool" where
  "stop_frame E p s s' \<longleftrightarrow> pc_live E p s' \<and> fault s' = fault s \<and> balance p s' = balance p s \<and> mgr s' = mgr s \<and>
     (\<forall>q. q \<noteq> p \<longrightarrow> pcs s' q = pcs s q)"

lemma start_frame_simps [simp]:
  "start_frame s s" "start_frame s (s'\<lparr>con := a\<rparr>) = start_frame s s'"
  "start_frame s (s'\<lparr>sap := b\<rparr>) = start_frame s s'" "start_frame s (s'\<lparr>ble := c\<rparr>) = start_frame s s'"
  by (simp_all add: start_frame_def)

lemma start_frame_live: "start_frame s s' \<Longrightarrow> pc_live E p s' = pc_live E p s"
  by (simp add: start_frame_def pc_live_def same_objects_def)

lemma start_frame_balance: "start_frame s s' \<Longrightarrow> balance p s' = balance p s"
  by (simp add: start_frame_def balance_def same_objects_def)

locale prov_scheme =
  fixes E :: env
    and start :: "nat option \<Rightarrow> cstr \<Rightarrow> cstr \<Rightarrow> int prog"
    and stop :: "unit prog"
    and bound :: "world \<Rightarrow> nat option"
    and others :: "world \<Rightarrow> 'r"
    and sound :: "world \<Rightarrow> bool"
  assumes start_law: "pc_live E p s \<Longrightarrow> wp (start (Some p) name key) (\<lambda>r s'. start_frame s s' \<and>
      (r = 0 \<longrightarrow> bound s' = Some p) \<and> others s' = others s \<and> (sound s \<longrightarrow> sound s')) s"
    and stop_law: "pc_live E p s \<Longrightarrow> bound s = Some p \<Longrightarrow> wp stop (\<lambda>_ s'. stop_frame E p s s' \<and> bound s' = None \<and>
      others s' = others s \<and> (sound s \<longrightarrow> sound s')) s"
begin

text \<open>A service that was started and stopped leaves the instance alive, the heap balanced and no
  pointer behind.\<close>

lemma start_stop:
  assumes "pc_live E p s"
  shows "wp (do { r \<leftarrow> start (Some p) name key; if_do (r = 0) stop; ret r })
    (\<lambda>r s'. others s' = others s \<and> (r = 0 \<longrightarrow> stop_frame E p s s' \<and> bound s' = None)) s"
proof -
  have "wp stop (\<lambda>_ s'. others s' = others s \<and> stop_frame E p s s' \<and> bound s' = None) t"
    if t: "start_frame s t" "bound t = Some p" "others t = others s" for t
    by (rule wp_mono [OF stop_law [OF _ t(2)]])
      (use t(1,3) start_frame_balance [OF t(1)] start_frame_live [OF t(1)] assms in
        \<open>auto simp: stop_frame_def start_frame_def same_objects_def\<close>)
  then show ?thesis
    by simp (rule wp_mono [OF start_law [OF assms]], auto)
qed

end

end
