(* ===== verification/Console.thy ===== *)
theory Console
  imports Transport
begin

text \<open>
  \<^verbatim>\<open>src/src/protocomm_console.c\<close>: the shell transport. One command line is one request; a new session
  number opens a fresh protocomm session.
\<close>

section \<open>Operations\<close>

abbreviation (input) UINT32_MAX :: nat where "UINT32_MAX \<equiv> 4294967295"

definition network_prov_console_start :: "nat option \<Rightarrow> int prog" where
  "network_prov_console_start pc = do {
     upd_con (\<lambda>c. c\<lparr>con_pc := pc, have_session := False, cur_session := 0\<rparr>);
     ret 0 }"

definition network_prov_console_stop :: "env \<Rightarrow> unit prog" where
  "network_prov_console_stop E = do {
     p \<leftarrow> gets (\<lambda>s. con_pc (con s));
     if_do (p \<noteq> None) (protocomm_close_session (prog_link E) p);
     upd_con (\<lambda>c. c\<lparr>con_pc := None, have_session := False\<rparr>) }"

definition console_scheme_start :: "nat option \<Rightarrow> cstr \<Rightarrow> cstr \<Rightarrow> int prog" where
  "console_scheme_start pc service_name service_key = network_prov_console_start pc"

text \<open>The session number on the command line; None for an argument that is refused.\<close>

definition console_session_arg :: "env \<Rightarrow> string \<Rightarrow> u32 option" where
  "console_session_arg E arg =
    (case strtoul (ULONG_MAX (cfg E)) arg of (parsed, endp, erange) \<Rightarrow>
       if arg = [] \<or> endp \<noteq> [] \<or> erange \<or> parsed > UINT32_MAX then None
       else Some (of_nat parsed))"

text \<open>The request is decoded into a heap block.\<close>

definition console_read_request :: "env \<Rightarrow> string \<Rightarrow> (int + bytes) prog" where
  "console_read_request E hex =
    (if length hex AND 1 \<noteq> 0 then do { ext_call (Trans Shell_error); ret (Inl (- EINVAL)) }
     else do {
       let inlen = length hex div 2;
       ok \<leftarrow> k_malloc E (if inlen > 0 then inlen else 1);
       if \<not> ok then do { ext_call (Trans Shell_error); ret (Inl (- ENOMEM)) }
       else do {
         let inbuf = (if inlen > 0 then hex2bin (transp E) hex inlen else []);
         if inlen > 0 \<and> length inbuf \<noteq> inlen
         then do { ext_call (Trans Shell_error); k_free (Some inbuf); ret (Inl (- EINVAL)) }
         else ret (Inr inbuf) } })"

definition console_ensure_session :: "env \<Rightarrow> u32 \<Rightarrow> unit prog" where
  "console_ensure_session E session = do {
     c \<leftarrow> gets con;
     if_do (\<not> have_session c \<or> session \<noteq> cur_session c) (do {
       protocomm_open_session (prog_link E) (con_pc c);
       upd_con (\<lambda>c. c\<lparr>cur_session := session, have_session := True\<rparr>) }) }"

text \<open>The answer is printed as hexadecimal text.\<close>

definition console_answer :: "env \<Rightarrow> int \<times> bytes option \<Rightarrow> int prog" where
  "console_answer E r =
    (if fst r \<noteq> 0 then do { ext_call (Trans Shell_error); ret (- ENOEXEC) }
     else do {
       let out = (case snd r of None \<Rightarrow> [] | Some b \<Rightarrow> b);
       ok \<leftarrow> k_malloc E (length out * 2 + 1);
       if \<not> ok then do { k_free (snd r); ext_call (Trans Shell_error); ret (- ENOMEM) }
       else do {
         ext_call (Trans (Shell_print (bin2hex (transp E) out)));
         k_free (Some ());
         k_free (snd r);
         ret 0 } })"

definition cmd_net_prov :: "env \<Rightarrow> string \<Rightarrow> string \<Rightarrow> string \<Rightarrow> int prog" where
  "cmd_net_prov E ep session_arg hex = do {
     pc \<leftarrow> gets (\<lambda>s. con_pc (con s));
     if pc = None then do { ext_call (Trans Shell_error); ret (- ENOEXEC) }
     else (case console_session_arg E session_arg of
         None \<Rightarrow> do { ext_call (Trans Shell_error); ret (- EINVAL) }
       | Some session \<Rightarrow> do {
           rd \<leftarrow> console_read_request E hex;
           (case rd of
              Inl e \<Rightarrow> ret e
            | Inr inbuf \<Rightarrow> do {
                console_ensure_session E session;
                r \<leftarrow> protocomm_req_handle E (prog_link E) pc (Some ep) inbuf;
                k_free (Some inbuf);
                console_answer E r }) }) }"

section \<open>The console is a scheme\<close>

lemma console_stop_spec:
  assumes "pc_live E p s" "con_pc (con s) = Some p"
  shows "wp (network_prov_console_stop E) (\<lambda>_ s'. stop_frame E p s s' \<and> con_pc (con s') = None \<and>
     sap s' = sap s \<and> ble s' = ble s) s"
  unfolding network_prov_console_stop_def using assms
  by (auto intro!: wp_mono [OF live_close] simp: stop_frame_def live_step_def statics_def)

interpretation console: prov_scheme E console_scheme_start "network_prov_console_stop E" "\<lambda>s. con_pc (con s)" "\<lambda>s. (sap s, ble s)"
  "\<lambda>_. True" for E
  by unfold_locales
    (simp_all add: console_stop_spec console_scheme_start_def network_prov_console_start_def)

section \<open>Sessions\<close>

text \<open>Every 32-bit number that is printed in decimal is accepted as itself.\<close>

lemma console_session_decimal:
  assumes "UINT32_MAX \<le> ULONG_MAX (cfg E)"
  shows "console_session_arg E (decimal (unat (n :: u32))) = Some n"
proof -
  have n: "unat n \<le> UINT32_MAX" by (rule unat_u32)
  have "strtoul (ULONG_MAX (cfg E)) (decimal (unat n)) = (unat n, [], False)"
    using strtoul_decimal [of "unat n" "ULONG_MAX (cfg E)" "[]"] n assms by simp
  moreover have "decimal (unat n) \<noteq> []" using decimal_Cons by (metis list.distinct(1))
  ultimately show ?thesis using n by (simp add: console_session_arg_def)
qed

lemma ensure_session_statics:
  "wp (console_ensure_session E n) (\<lambda>_ s'. con_pc (con s') = con_pc (con s) \<and> have_session (con s') \<and>
     cur_session (con s') = n \<and> mgr s' = mgr s \<and> sap s' = sap s \<and> ble s' = ble s) s"
  unfolding console_ensure_session_def
  by (auto intro!: wp_mono [OF wp_statics(2)] simp: statics_def)

section \<open>Heap and sessions of a command\<close>

text \<open>What a step of the console leaves alone.\<close>

definition console_step :: "env \<Rightarrow> nat \<Rightarrow> world \<Rightarrow> world \<Rightarrow> bool" where
  "console_step E p s s' \<longleftrightarrow> pc_live E p s' \<and> fault s' = fault s \<and> con_pc (con s') = con_pc (con s) \<and>
     mgr s' = mgr s \<and> sap s' = sap s \<and> ble s' = ble s \<and> (\<forall>q. q \<noteq> p \<longrightarrow> pcs s' q = pcs s q)"

lemma console_step_hist [simp]:
  "console_step E p s (s'\<lparr>hist := h\<rparr>) = console_step E p s s'"
  "console_step E p (s\<lparr>hist := h\<rparr>) s' = console_step E p s s'"
  by (simp_all add: console_step_def)

lemma console_step_live: "console_step E p s t \<Longrightarrow> live_step E p t u \<Longrightarrow> console_step E p s u"
  by (auto simp: console_step_def live_step_def statics_def)

lemma console_read_spec:
  "pc_live E p s \<Longrightarrow> wp (console_read_request E hex) (\<lambda>rd s'. console_step E p s s' \<and> con s' = con s \<and> pcs s' = pcs s \<and>
     balance p s' = balance p s + (case rd of Inl _ \<Rightarrow> 0 | Inr _ \<Rightarrow> 1) \<and>
     (case rd of Inl e \<Rightarrow> e = - EINVAL \<or> e = - ENOMEM | Inr b \<Rightarrow> b = (if length hex div 2 > 0
        then hex2bin (transp E) hex (length hex div 2) else []))) s"
  by (simp add: console_read_request_def Let_def console_step_def balance_hist)

lemma console_ensure_spec:
  assumes "pc_live E p s" "con_pc (con s) = Some p"
  shows "wp (console_ensure_session E n) (\<lambda>_ s'. console_step E p s s' \<and> balance p s' = balance p s \<and>
     have_session (con s') \<and> cur_session (con s') = n) s"
  unfolding console_ensure_session_def using assms
  by (auto intro!: wp_mono [OF live_open] simp: console_step_def live_step_def statics_def)

lemma console_answer_spec:
  assumes "pc_live E p s" "fst r \<noteq> 0 \<longrightarrow> snd r = None"
  shows "wp (console_answer E r) (\<lambda>e s'. console_step E p s s' \<and> con s' = con s \<and>
     balance p s' = balance p s - (if snd r = None then 0 else 1) \<and>
     (e = 0 \<or> e = - ENOEXEC \<or> e = - ENOMEM) \<and> (fst r \<noteq> 0 \<longrightarrow> e = - ENOEXEC)) s"
  using assms by (auto simp: console_answer_def Let_def console_step_def balance_hist split: option.split)

lemma console_run:
  assumes live: "pc_live E p s" and pc: "con_pc (con s) = Some p" and laws: "buffer_laws E"
  shows "wp (do { console_ensure_session E n;
       r \<leftarrow> protocomm_req_handle E (prog_link E) (Some p) (Some ep) b;
       k_free (Some b);
       console_answer E r }) (\<lambda>e s'. console_step E p s s' \<and> balance p s' = balance p s - 1 \<and>
     have_session (con s') \<and> cur_session (con s') = n) s"
proof -
  have ans: "wp (do { k_free (Some b); console_answer E r }) (\<lambda>e s'. console_step E p s s' \<and>
     balance p s' = balance p s - 1 \<and> have_session (con s') \<and> cur_session (con s') = n) t"
    if "console_step E p s t" "fst r \<noteq> 0 \<longrightarrow> snd r = None"
      "balance p t = balance p s + (if snd r = None then 0 else 1)" "have_session (con t)" "cur_session (con t) = n"
    for r t
    using that
    by simp (rule wp_mono [OF console_answer_spec], auto simp: console_step_def balance_hist)
  have req: "wp (protocomm_req_handle E (prog_link E) (Some p) (Some ep) b) (\<lambda>r. wp (do { k_free (Some b); console_answer E r })
     (\<lambda>e s'. console_step E p s s' \<and> balance p s' = balance p s - 1 \<and> have_session (con s') \<and> cur_session (con s') = n)) t"
    if t: "console_step E p s t" "balance p t = balance p s" "have_session (con t)" "cur_session (con t) = n" for t
  proof (rule wp_mono [OF live_request [OF _ laws]])
    show "pc_live E p t" using t by (simp add: console_step_def)
    fix r :: "int \<times> bytes option" and u :: world
    assume u: "live_step E p t u \<and> (fst r \<noteq> 0 \<longrightarrow> snd r = None) \<and>
      balance p u = balance p t + (if snd r = None then 0 else 1)"
    have "con u = con t" using u by (simp add: live_step_def statics_def)
    with u t console_step_live [OF t(1)] show "wp (do { k_free (Some b); console_answer E r })
      (\<lambda>e s'. console_step E p s s' \<and> balance p s' = balance p s - 1 \<and> have_session (con s') \<and> cur_session (con s') = n) u"
      by (intro ans) auto
  qed
  show ?thesis
    unfolding wp_bind [of "console_ensure_session E n"] wp_bind [of "protocomm_req_handle _ _ _ _ _"]
    by (rule wp_mono [OF console_ensure_spec [OF live pc]], rule req) auto
qed

lemma console_answer_error: "fst r \<noteq> 0 \<Longrightarrow> wp (console_answer E r) (\<lambda>e s'. e = - ENOEXEC \<and> con s' = con s) s"
  by (simp add: console_answer_def)

lemma console_fresh_refused:
  assumes "con_pc (con s) = Some p" "pcs s p = Some c" "pc_inv ctx_sig c" "sec c = Some network_prov_security1"
    "find_ep c ep = Some e" "ep_ty e = EP_DATA" "b \<noteq> []" "\<not> have_session (con s) \<or> n \<noteq> cur_session (con s)"
  shows "wp (do { console_ensure_session E n;
       r \<leftarrow> protocomm_req_handle E (prog_link E) (Some p) (Some ep) b;
       k_free (Some b);
       console_answer E r }) (\<lambda>e s'. e = - ENOEXEC \<and> cur_session (con s') = n) s"
proof -
  have upd: "wp (upd_con f) (\<lambda>_ s'. pcs s' = pcs t \<and> cur_session (con s') = cur_session (f (con t))) t" for f t
    by simp
  have req: "wp (do { r \<leftarrow> protocomm_req_handle E (prog_link E) (Some p) (Some ep) b; k_free (Some b); console_answer E r })
      (\<lambda>e s'. e = - ENOEXEC \<and> cur_session (con s') = n) t"
    if t: "pcs t p = Some (c\<lparr>sec_ctx := y\<rparr>)" "y = None \<or> unauthenticated (c\<lparr>sec_ctx := y\<rparr>)"
      "cur_session (con t) = n" for t y
    unfolding wp_bind
    by (rule wp_mono [OF wp_conj [OF fresh_session_refuses [OF t(1,2) assms(4-7)] wp_statics(1)]])
      (auto simp: statics_def t(3) intro!: wp_mono [OF console_answer_error])
  show ?thesis
    unfolding console_ensure_session_def wp_bind [of "do { c \<leftarrow> gets con; _ c }"] wp_bind [of "gets con"] wp_gets
      wp_if_do using assms(8) by (simp add: assms(1) del: wp_bind)
        (simp only: wp_bind [of "protocomm_open_session _ _"],
          rule wp_mono [OF open_session_unauthenticated [OF assms(2-4)]],
          auto simp del: wp_bind intro!: req)
qed

text \<open>A console command is balanced: whatever its arguments are, no wrong object is dereferenced and every
  block it allocates is freed, also on each error path.\<close>

lemma console_command_spec:
  assumes "con_pc (con s) = Some p" and "pc_live E p s" and "buffer_laws E"
  shows "wp (cmd_net_prov E ep arg hex) (\<lambda>e s'. pc_live E p s' \<and> fault s' = fault s \<and>
     balance p s' = balance p s \<and> con_pc (con s') = Some p \<and> mgr s' = mgr s \<and> sap s' = sap s \<and> ble s' = ble s \<and>
     (\<forall>q. q \<noteq> p \<longrightarrow> pcs s' q = pcs s q) \<and>
     (console_session_arg E arg = None \<longrightarrow> e = - EINVAL \<and> con s' = con s) \<and>
     (con s' = con s \<or> have_session (con s') \<and> Some (cur_session (con s')) = console_session_arg E arg)) s"
proof (cases "console_session_arg E arg")
  case None
  with assms show ?thesis by (simp add: cmd_net_prov_def balance_hist)
next
  case (Some n)
  let ?Q = "\<lambda>e s'. pc_live E p s' \<and> fault s' = fault s \<and> balance p s' = balance p s \<and>
    con_pc (con s') = Some p \<and> mgr s' = mgr s \<and> sap s' = sap s \<and> ble s' = ble s \<and>
     (\<forall>q. q \<noteq> p \<longrightarrow> pcs s' q = pcs s q) \<and>
    (con s' = con s \<or> have_session (con s') \<and> cur_session (con s') = n)"
  have run: "wp (do { console_ensure_session E n;
       r \<leftarrow> protocomm_req_handle E (prog_link E) (Some p) (Some ep) b;
       k_free (Some b); console_answer E r }) ?Q t"
    if t: "console_step E p s t" "con t = con s" "balance p t = balance p s + 1" for b t
    by (rule wp_mono [OF console_run [OF _ _ assms(3)]]) (use t assms in \<open>auto simp: console_step_def\<close>)
  have body: "wp (case rd of Inl e \<Rightarrow> ret e
       | Inr b \<Rightarrow> do { console_ensure_session E n;
           r \<leftarrow> protocomm_req_handle E (prog_link E) (Some p) (Some ep) b;
           k_free (Some b); console_answer E r }) ?Q t"
    if t: "console_step E p s t" "con t = con s"
      "balance p t = balance p s + (case rd of Inl _ \<Rightarrow> 0 | Inr _ \<Rightarrow> 1)" for rd t
  proof (cases rd)
    case (Inl e)
    with t assms(1) show ?thesis by (simp add: console_step_def)
  next
    case (Inr b)
    with t show ?thesis unfolding Inr sum.case by (intro run) auto
  qed
  have "wp (cmd_net_prov E ep arg hex) ?Q s"
    unfolding cmd_net_prov_def Some option.case wp_bind [of "gets _"] wp_bind [of "console_read_request _ _"]
      wp_gets wp_if assms(1)
    by (simp del: wp_bind) (rule wp_mono [OF console_read_spec [OF assms(2)]], rule body, auto)
  with Some show ?thesis by simp
qed

section \<open>Properties\<close>

text \<open>A running console on the concrete instance, in the session 5.\<close>

definition demo_console :: world where
  "demo_console = demo_running\<lparr>con := \<lparr>con_pc = Some 0, cur_session = 5, have_session = True\<rparr>\<rparr>"

definition demo_console_env :: env where
  "demo_console_env = demo_env\<lparr>transp := ok_transp\<lparr>hex2bin := \<lambda>s n. replicate n 7\<rparr>\<rparr>"

lemma demo_console_simps [simp]:
  "pcs demo_console 0 = Some demo_instance" "con demo_console = \<lparr>con_pc = Some 0, cur_session = 5, have_session = True\<rparr>"
  by (simp_all add: demo_console_def)

text \<open>Changing the session number ends the authenticated session: a command with another number
  (any 32-bit number in decimal) and a non-empty payload for a data endpoint fails with -ENOEXEC under
  scheme 1, however the old session was authenticated (only a lack of memory gives -ENOMEM).\<close>

theorem console_session_change_needs_handshake:
  assumes "con_pc (con s) = Some p" and "pcs s p = Some c" and "pc_inv ctx_sig c"
    and "sec c = Some network_prov_security1" and "find_ep c ep = Some e" and "ep_ty e = EP_DATA"
    and "cur_session (con s) \<noteq> n" and "UINT32_MAX \<le> ULONG_MAX (cfg E)"
    and "even (length hex)" and "hex \<noteq> []" and "length (hex2bin (transp E) hex (length hex div 2)) = length hex div 2"
  shows "wp (cmd_net_prov E ep (decimal (unat n)) hex) (\<lambda>r s'. r = - ENOMEM \<or>
     r = - ENOEXEC \<and> cur_session (con s') = n) s"
proof -
  let ?b = "hex2bin (transp E) hex (length hex div 2)"
  from assms(9,10) have len: "0 < length hex div 2" by (cases hex; cases "tl hex") auto
  with assms(11) have b: "?b \<noteq> []" by auto
  have rd: "wp (console_read_request E hex) (\<lambda>rd s'. con s' = con s \<and> pcs s' = pcs s \<and>
      (rd = Inl (- ENOMEM) \<or> rd = Inr ?b)) s"
    using assms(9,11) len by (simp add: console_read_request_def Let_def and_one_eq even_iff_mod_2_eq_zero)
  have run: "wp (case rd of Inl e \<Rightarrow> ret e
       | Inr b \<Rightarrow> do { console_ensure_session E n;
           r \<leftarrow> protocomm_req_handle E (prog_link E) (Some p) (Some ep) b;
           k_free (Some b); console_answer E r }) (\<lambda>r s'. r = - ENOMEM \<or> r = - ENOEXEC \<and> cur_session (con s') = n) t"
    if t: "con t = con s" "pcs t = pcs s" "rd = Inl (- ENOMEM) \<or> rd = Inr ?b" for rd t
    using t(3)
  proof
    assume rd: "rd = Inr ?b"
    have "wp (do { console_ensure_session E n;
           r \<leftarrow> protocomm_req_handle E (prog_link E) (Some p) (Some ep) ?b;
           k_free (Some ?b); console_answer E r }) (\<lambda>r s'. r = - ENOEXEC \<and> cur_session (con s') = n) t"
      using assms(1-7) t b by (intro console_fresh_refused) auto
    then show ?thesis unfolding rd sum.case by (rule wp_mono) simp
  qed simp
  show ?thesis
    unfolding cmd_net_prov_def console_session_decimal [OF assms(8)] option.case wp_bind [of "gets _"]
      wp_bind [of "console_read_request _ _"] wp_gets wp_if assms(1)
    by (simp del: wp_bind) (rule wp_mono [OF rd], rule run, auto)
qed

theorem console_session_change_needs_handshake_witness:
  "wp (cmd_net_prov demo_console_env ''custom'' (decimal (unat (6 :: u32))) ''aabb'') (\<lambda>r s'. r = - ENOMEM \<or>
     r = - ENOEXEC \<and> cur_session (con s') = 6) demo_console"
  by (rule console_session_change_needs_handshake [OF _ demo_console_simps(1) demo_instance_facts(1) demo_instance_sec
        demo_instance_facts(3)])
    (simp_all add: demo_console_env_def demo_env_def ok_env_def ok_cfg_def)

end
