(* ===== verification/Softap.thy ===== *)
theory Softap
  imports Transport
begin

text \<open>
  \<^verbatim>\<open>src/src/protocomm_softap.c\<close>: the HTTP transport on a device-hosted access point. Every endpoint is a
  URI; the HTTP server calls back once per piece of a request body; a cookie names the session.
  The build has \<open>CONFIG_WIFI\<close> and \<open>CONFIG_NET_DHCPV4_SERVER\<close>.
\<close>

section \<open>The types of the HTTP server\<close>

datatype http_transaction_status =
    HTTP_SERVER_TRANSACTION_ABORTED | HTTP_SERVER_REQUEST_DATA_MORE
  | HTTP_SERVER_REQUEST_DATA_FINAL | HTTP_SERVER_TRANSACTION_COMPLETE

text \<open>\<open>headers_ok\<close> is \<open>headers_status == HTTP_HEADER_STATUS_OK\<close>.\<close>

record http_request_ctx =
  headers_ok :: bool
  headers :: "(cstr \<times> cstr) list"
  rq_data :: bytes

record http_response_ctx =
  rsp_status :: "nat option"
  rsp_cookie :: "string option"
  rsp_body :: bytes
  rsp_final_chunk :: bool

definition no_response :: http_response_ctx where
  "no_response = \<lparr>rsp_status = None, rsp_cookie = None, rsp_body = [], rsp_final_chunk = False\<rparr>"

definition error_500 :: http_response_ctx where
  "error_500 = \<lparr>rsp_status = Some 500, rsp_cookie = None, rsp_body = [], rsp_final_chunk = True\<rparr>"

section \<open>Operations\<close>

abbreviation (input) REQ_BUF_LEN :: nat where "REQ_BUF_LEN \<equiv> 4096"
abbreviation (input) RESP_BUF_LEN :: nat where "RESP_BUF_LEN \<equiv> 4096"
abbreviation (input) SOFTAP_KEY_MIN_LEN :: nat where "SOFTAP_KEY_MIN_LEN \<equiv> 8"
abbreviation (input) SOFTAP_KEY_MAX_LEN :: nat where "SOFTAP_KEY_MAX_LEN \<equiv> 64"

definition start_new_session :: "env \<Rightarrow> unit prog" where
  "start_new_session E = do {
     pc \<leftarrow> gets (\<lambda>s. sap_pc (sap s));
     protocomm_open_session (prog_link E) pc;
     r \<leftarrow> ask (sys_rand32_get (transp E)) (\<lambda>_. Trans Sys_rand32_get);
     upd_sap (\<lambda>a. a\<lparr>session_id := r, session_valid := True\<rparr>) }"

definition lower :: "char \<Rightarrow> char" where
  "lower c = (if 65 \<le> (of_char c :: nat) \<and> (of_char c :: nat) \<le> 90 then char_of ((of_char c :: nat) + 32) else c)"

fun str_ieq :: "string \<Rightarrow> string \<Rightarrow> bool" where
  "str_ieq (a # as) (b # bs) = (if lower a \<noteq> lower b then False else str_ieq as bs)"
| "str_ieq [] [] = True"
| "str_ieq _ _ = False"

text \<open>The value after \<open>session=\<close> in a cookie header.\<close>

definition cookie_value_id :: "nat \<Rightarrow> string \<Rightarrow> u32 option" where
  "cookie_value_id umax val =
    (case strstr val ''session='' of
       None \<Rightarrow> None
     | Some p \<Rightarrow>
        let digits = drop 8 p in
        (case strtoul umax digits of (n, rest, erange) \<Rightarrow>
           if rest = digits \<or> n > 4294967295 then None else Some (of_nat n)))"

fun cookie_in_headers :: "nat \<Rightarrow> (cstr \<times> cstr) list \<Rightarrow> u32 option" where
  "cookie_in_headers umax [] = None"
| "cookie_in_headers umax ((Some name, Some val) # hs) =
    (if \<not> str_ieq name ''Cookie'' then cookie_in_headers umax hs else cookie_value_id umax val)"
| "cookie_in_headers umax (h # hs) = cookie_in_headers umax hs"

definition get_cookie_session :: "env \<Rightarrow> http_request_ctx \<Rightarrow> u32 option" where
  "get_cookie_session E req =
    (if \<not> headers_ok req then None else cookie_in_headers (ULONG_MAX (cfg E)) (headers req))"

definition ensure_session :: "env \<Rightarrow> unit prog" where
  "ensure_session E = do {
     a \<leftarrow> gets sap;
     if req_cookie_present a \<and> session_valid a \<and> req_cookie_id a = session_id a then ret ()
     else start_new_session E }"

text \<open>The loop of \<open>ep_name_from_url\<close>: \<open>out\<close> holds the characters copied so far.\<close>

fun url_loop :: "nat \<Rightarrow> string \<Rightarrow> string \<Rightarrow> string" where
  "url_loop cap out [] = out"
| "url_loop cap out (c # cs) =
    (if c = CHR ''?'' then out
     else if length out \<ge> cap - 1 then []
     else url_loop cap (out @ [c]) cs)"

definition ep_name_from_url :: "string \<Rightarrow> nat \<Rightarrow> string" where
  "ep_name_from_url url cap =
    url_loop cap [] (case url of c # cs \<Rightarrow> if c = CHR ''/'' then cs else url | [] \<Rightarrow> [])"

definition request_reset :: "unit prog" where
  "request_reset = upd_sap (\<lambda>a. a\<lparr>req_buf := [], req_cookie_present := False, req_client := None\<rparr>)"

definition latch_cookie :: "env \<Rightarrow> http_request_ctx \<Rightarrow> unit prog" where
  "latch_cookie E req =
    if_do (headers_ok req)
      (case get_cookie_session E req of
         None \<Rightarrow> upd_sap (\<lambda>a. a\<lparr>req_cookie_present := False\<rparr>)
       | Some n \<Rightarrow> upd_sap (\<lambda>a. a\<lparr>req_cookie_present := True, req_cookie_id := n\<rparr>))"

text \<open>The last part of the handler: the complete body is run and its response sent.\<close>

definition cookie_text :: "u32 \<Rightarrow> string" where
  "cookie_text n = snprintf 24 (''session='' @ decimal (unat n))"

definition http_respond :: "int \<times> bytes option \<Rightarrow> (int \<times> http_response_ctx) prog" where
  "http_respond r = do {
     let out = (case snd r of None \<Rightarrow> [] | Some b \<Rightarrow> b);
     k_free (snd r);
     if fst r \<noteq> 0 \<or> length out > RESP_BUF_LEN then ret (0, error_500)
     else do {
       sid \<leftarrow> gets (\<lambda>s. session_id (sap s));
       ret (0, \<lparr>rsp_status = None, rsp_cookie = Some (cookie_text sid), rsp_body = out, rsp_final_chunk = True\<rparr>) } }"

definition http_run :: "env \<Rightarrow> string \<Rightarrow> (int \<times> http_response_ctx) prog" where
  "http_run E ep = do {
     ensure_session E;
     upd_sap (\<lambda>a. a\<lparr>req_cookie_present := False, req_client := None\<rparr>);
     a \<leftarrow> gets sap;
     r \<leftarrow> protocomm_req_handle E (prog_link E) (sap_pc a) (Some ep) (req_buf a);
     upd_sap (\<lambda>a. a\<lparr>req_buf := []\<rparr>);
     http_respond r }"

definition prov_http_handler ::
  "env \<Rightarrow> nat \<Rightarrow> string \<Rightarrow> http_transaction_status \<Rightarrow> http_request_ctx \<Rightarrow> cstr \<Rightarrow>
    (int \<times> http_response_ctx) prog" where
  "prov_http_handler E client url status req user_data = do {
     let ep = (case user_data of Some n \<Rightarrow> n | None \<Rightarrow> ep_name_from_url url PROTOCOMM_EP_NAME_MAX);
     owner \<leftarrow> gets (\<lambda>s. req_client (sap s));
     if status = HTTP_SERVER_TRANSACTION_ABORTED \<or> status = HTTP_SERVER_TRANSACTION_COMPLETE
     then do { if_do (owner = Some client) request_reset; ret (0, no_response) }
     else if owner \<noteq> None \<and> owner \<noteq> Some client then ret (- EBUSY, no_response)
     else do {
       upd_sap (\<lambda>a. a\<lparr>req_client := Some client\<rparr>);
       latch_cookie E req;
       n \<leftarrow> gets (\<lambda>s. length (req_buf (sap s)));
       if length (rq_data req) + n > REQ_BUF_LEN
       then do { request_reset; ret (- ENOMEM, no_response) }
       else do {
         upd_sap (\<lambda>a. a\<lparr>req_buf := req_buf a @ rq_data req\<rparr>);
         if status \<noteq> HTTP_SERVER_REQUEST_DATA_FINAL then ret (0, no_response)
         else http_run E ep } } }"

text \<open>The resources of the HTTP service, each with the pointer that the server passes to the callback: the name of the built-in endpoint
  behind the slash of its URI, NULL for the fallback.\<close>

definition prov_resources :: "(string \<times> cstr) list" where
  "prov_resources = map (\<lambda>uri. (uri, Some (tl uri)))
     [''/proto-ver'', ''/prov-session'', ''/prov-scan'', ''/prov-config'', ''/prov-ctrl'']"

definition prov_fallback_detail :: cstr where
  "prov_fallback_detail = None"

definition network_prov_softap_http_start :: "env \<Rightarrow> nat option \<Rightarrow> int prog" where
  "network_prov_softap_http_start E pc = do {
     upd_sap (\<lambda>a. a\<lparr>sap_pc := pc, req_buf := [], req_cookie_present := False, req_client := None,
       session_valid := False\<rparr>);
     r \<leftarrow> ask (http_server_start_ret (transp E)) (\<lambda>_. Trans Http_server_start);
     ret (if r < 0 \<and> r \<noteq> - EALREADY then r else 0) }"

definition network_prov_softap_http_stop :: "unit prog" where
  "network_prov_softap_http_stop = do {
     ext_call (Trans Http_server_stop);
     upd_sap (\<lambda>a. a\<lparr>session_valid := False, sap_pc := None\<rparr>) }"

definition ap_params :: "string \<Rightarrow> cstr \<Rightarrow> wifi_connect_req_params" where
  "ap_params name key = \<lparr>cp_ssid = bytes_of_string name,
     cp_psk = (if cstr_empty key then None else map_option bytes_of_string key),
     cp_security = (if cstr_empty key then WIFI_SECURITY_TYPE_NONE else WIFI_SECURITY_TYPE_PSK),
     cp_channel = WIFI_CHANNEL_ANY, cp_band = WIFI_FREQ_BAND_2_4_GHZ, cp_bssid = zeros WIFI_MAC_ADDR_LEN\<rparr>"

text \<open>The addresses are constants of the source, so that their conversion never fails.\<close>

definition softap_ap_start :: "env \<Rightarrow> string \<Rightarrow> cstr \<Rightarrow> int prog" where
  "softap_ap_start E name key = do {
     iface \<leftarrow> gets (\<lambda>s. net_if_get_wifi_sap (wifi E) (hist s));
     (case iface of
        None \<Rightarrow> ret (- ENODEV)
      | Some i \<Rightarrow>
         let key_len = (case key of None \<Rightarrow> 0 | Some k \<Rightarrow> length k) in
         if key_len > 0 \<and> (key_len < SOFTAP_KEY_MIN_LEN \<or> key_len > SOFTAP_KEY_MAX_LEN) then ret (- EINVAL)
         else do {
           ext_call (Wifi (Net_set_ap_address i));
           d \<leftarrow> ask (\<lambda>h. dhcpv4_server_start_ret (wifi E) h i) (\<lambda>_. Wifi (Dhcp_server_start i));
           if d \<noteq> 0 \<and> d \<noteq> - EALREADY then ret d
           else ask (\<lambda>h. wifi_ap_enable_ret (wifi E) h i (ap_params name key))
             (\<lambda>_. Wifi (Wifi_ap_enable i (ap_params name key))) }) }"

definition softap_ap_stop :: "env \<Rightarrow> unit prog" where
  "softap_ap_stop E = do {
     iface \<leftarrow> gets (\<lambda>s. net_if_get_wifi_sap (wifi E) (hist s));
     (case iface of
        None \<Rightarrow> ret ()
      | Some i \<Rightarrow> do {
          ext_call (Wifi (Dhcp_server_stop i));
          ext_call (Wifi (Wifi_ap_disable i)) }) }"

definition network_prov_softap_start :: "env \<Rightarrow> nat option \<Rightarrow> cstr \<Rightarrow> cstr \<Rightarrow> int prog" where
  "network_prov_softap_start E pc service_name service_key =
    (case service_name of
       None \<Rightarrow> ret (- EINVAL)
     | Some name \<Rightarrow>
        if name = [] then ret (- EINVAL)
        else do {
          r \<leftarrow> softap_ap_start E name service_key;
          if r \<noteq> 0 then ret r else network_prov_softap_http_start E pc })"

definition network_prov_softap_stop :: "env \<Rightarrow> unit prog" where
  "network_prov_softap_stop E = do { network_prov_softap_http_stop; softap_ap_stop E }"

section \<open>SoftAP is a scheme\<close>

lemma start_frame_hist: "start_frame s s' \<Longrightarrow> blocks h = blocks (hist s') \<Longrightarrow> start_frame s (s'\<lparr>hist := h\<rparr>)"
  by (simp add: start_frame_def)

text \<open>The invariant of the shared request state: the body fits its buffer, and nothing is held while
  no client owns the buffer.\<close>

definition softap_inv :: "softap_state \<Rightarrow> bool" where
  "softap_inv a \<longleftrightarrow> length (req_buf a) \<le> REQ_BUF_LEN \<and>
     (req_client a = None \<longrightarrow> req_buf a = [] \<and> \<not> req_cookie_present a)"

interpretation softap: prov_scheme E "network_prov_softap_start E" "network_prov_softap_stop E" "\<lambda>s. sap_pc (sap s)"
  "\<lambda>s. (con s, ble s)" "\<lambda>s. softap_inv (sap s)" for E
  by unfold_locales
    (auto simp: network_prov_softap_start_def softap_ap_start_def network_prov_softap_http_start_def Let_def
      network_prov_softap_stop_def network_prov_softap_http_stop_def softap_ap_stop_def stop_frame_def
      balance_hist softap_inv_def split: option.split intro!: start_frame_hist)

section \<open>URLs and cookies\<close>

lemma url_loop_eq:
  "length out \<le> cap - 1 \<Longrightarrow> url_loop cap out cs = (let n = takeWhile (\<lambda>c. c \<noteq> CHR ''?'') cs in
    if length out + length n \<le> cap - 1 then out @ n else [])"
  by (induction cs arbitrary: out) (auto simp: Let_def)

lemma ep_name_from_url_short: "cap \<noteq> 0 \<Longrightarrow> length (ep_name_from_url url cap) < cap"
  by (auto simp: ep_name_from_url_def url_loop_eq Let_def split: list.split)

text \<open>The endpoint that a URL addresses: its path without the leading slash, and none when that is longer than any name.\<close>

definition url_endpoint :: "string \<Rightarrow> string" where
  "url_endpoint url = (let path = takeWhile (\<lambda>c. c \<noteq> CHR ''?'') url; n = (if take 1 path = ''/'' then tl path else path) in
     if length n < PROTOCOMM_EP_NAME_MAX then n else [])"

lemma ep_name_from_url_endpoint: "ep_name_from_url url PROTOCOMM_EP_NAME_MAX = url_endpoint url"
  by (cases url) (auto simp: ep_name_from_url_def url_endpoint_def url_loop_eq Let_def)

text \<open>The built-in resources and the fallback agree: whether the server calls the resource whose URI is the path of the request or the
  fallback, the request is for the endpoint whose name is the path of its URL, also when the URL has a query, and a
  path that is longer than any endpoint name is never cut to one.\<close>

theorem softap_url_names_endpoint:
  assumes "d = prov_fallback_detail \<or> (takeWhile (\<lambda>c. c \<noteq> CHR ''?'') url, d) \<in> set prov_resources"
  shows "prov_http_handler E client url status req d = prov_http_handler E client url status req (Some (url_endpoint url))"
proof -
  have "d = Some (url_endpoint url)" if "(takeWhile (\<lambda>c. c \<noteq> CHR ''?'') url, d) \<in> set prov_resources"
    using that by (auto simp: prov_resources_def url_endpoint_def Let_def)
  moreover have "prov_http_handler E client url status req None = prov_http_handler E client url status req (Some (url_endpoint url))"
    by (simp only: prov_http_handler_def option.case ep_name_from_url_endpoint)
  ultimately show ?thesis using assms by (auto simp: prov_fallback_detail_def)
qed

theorem softap_url_names_endpoint_witness:
  "prov_http_handler ok_env 0 ''/prov-scan?x'' HTTP_SERVER_REQUEST_DATA_FINAL req (Some ''prov-scan'') =
   prov_http_handler ok_env 0 ''/prov-scan?x'' HTTP_SERVER_REQUEST_DATA_FINAL req prov_fallback_detail"
  using softap_url_names_endpoint [of prov_fallback_detail "''/prov-scan?x''" ok_env 0 HTTP_SERVER_REQUEST_DATA_FINAL req]
  by (simp add: url_endpoint_def Let_def)

lemma str_ieq_eq: "str_ieq a b \<longleftrightarrow> map lower a = map lower b"
  by (induction a b rule: str_ieq.induct) auto

lemma cookie_text_eq: "cookie_text n = ''session='' @ decimal (unat n)"
proof -
  have "unat n < 10 ^ Suc 9" using unat_u32 [of n] by simp
  from length_decimal [OF this] show ?thesis by (simp add: cookie_text_def snprintf_fits)
qed

lemma cookie_value_roundtrip:
  assumes "4294967295 \<le> umax" and "ys = [] \<or> \<not> is_digit (hd ys)"
  shows "cookie_value_id umax (cookie_text n @ ys) = Some n"
proof -
  have "strtoul umax (decimal (unat n) @ ys) = (unat n, ys, False)"
    using unat_u32 [of n] assms by (intro strtoul_decimal) auto
  moreover have "ys \<noteq> decimal (unat n) @ ys" using decimal_Cons [of "unat n"] by auto
  moreover have "strstr (cookie_text n @ ys) ''session='' = Some (cookie_text n @ ys)"
    unfolding cookie_text_eq append_assoc by (rule strstr_prefix)
  ultimately show ?thesis
    using unat_u32 [of n] by (simp add: cookie_value_id_def cookie_text_eq Let_def)
qed

section \<open>Pieces of a request\<close>

lemma wp_latch [wp, simp]:
  "wp (latch_cookie E req) Q s = Q () (if headers_ok req then (case get_cookie_session E req of
       None \<Rightarrow> s\<lparr>sap := (sap s)\<lparr>req_cookie_present := False\<rparr>\<rparr>
     | Some n \<Rightarrow> s\<lparr>sap := (sap s)\<lparr>req_cookie_present := True, req_cookie_id := n\<rparr>\<rparr>) else s)"
  by (simp add: latch_cookie_def split: option.split)

lemma wp_request_reset [wp, simp]:
  "wp request_reset Q s = Q () (s\<lparr>sap := (sap s)\<lparr>req_buf := [], req_cookie_present := False, req_client := None\<rparr>\<rparr>)"
  by (simp add: request_reset_def)

lemma http_run_frame:
  "wp (http_run E ep) (\<lambda>r s'. fst r = 0 \<and> req_buf (sap s') = [] \<and> req_client (sap s') = None \<and>
     \<not> req_cookie_present (sap s') \<and> session_valid (sap s') \<and> sap_pc (sap s') = sap_pc (sap s) \<and>
     mgr s' = mgr s \<and> con s' = con s \<and> ble s' = ble s) s"
proof -
  have resp: "wp (http_respond r) (\<lambda>r s'. fst r = 0 \<and> sap s' = sap t \<and> mgr s' = mgr t \<and> con s' = con t \<and> ble s' = ble t) t" for r t
    by (simp add: http_respond_def Let_def split: option.split)
  have req: "wp (protocomm_req_handle E (prog_link E) pc (Some ep) b)
     (\<lambda>r s'. sap s' = sap t \<and> mgr s' = mgr t \<and> con s' = con t \<and> ble s' = ble t) t" for pc b t
    by (rule wp_mono [OF wp_statics(1)]) (simp add: statics_def)
  have sess: "wp (ensure_session E) (\<lambda>_ s'. session_valid (sap s') \<and> sap_pc (sap s') = sap_pc (sap s) \<and>
     mgr s' = mgr s \<and> con s' = con s \<and> ble s' = ble s) s"
    unfolding ensure_session_def start_new_session_def
    by (auto intro!: wp_mono [OF wp_statics(2)] simp: statics_def)
  show ?thesis
    unfolding http_run_def wp_bind [of "ensure_session E"]
    by (rule wp_mono [OF sess], simp, rule wp_mono [OF req], simp, rule wp_mono [OF resp], auto)
qed

lemma softap_handler_inv:
  assumes "softap_inv (sap s)"
  shows "wp (prov_http_handler E cl url st req u) (\<lambda>r s'. softap_inv (sap s') \<and>
     sap_pc (sap s') = sap_pc (sap s) \<and> mgr s' = mgr s \<and> con s' = con s \<and> ble s' = ble s) s"
  unfolding prov_http_handler_def using assms
  by (auto simp: softap_inv_def Let_def split: option.split intro!: wp_mono [OF http_run_frame])

text \<open>Two pieces of a body are one piece: the second callback has no headers.\<close>

lemma softap_handler_pieces:
  assumes "st = HTTP_SERVER_REQUEST_DATA_MORE \<or> st = HTTP_SERVER_REQUEST_DATA_FINAL"
    and "req_client (sap s) = None \<or> req_client (sap s) = Some cl"
    and "length (req_buf (sap s)) + length a + length b \<le> REQ_BUF_LEN"
  shows "wp (do { prov_http_handler E cl url HTTP_SERVER_REQUEST_DATA_MORE (req\<lparr>rq_data := a\<rparr>) u;
       prov_http_handler E cl url st \<lparr>headers_ok = False, headers = hs, rq_data = b\<rparr> u }) Q s =
     wp (prov_http_handler E cl url st (req\<lparr>rq_data := a @ b\<rparr>) u) Q s"
proof -
  have hdr: "get_cookie_session E (req\<lparr>rq_data := d\<rparr>) = get_cookie_session E req" for d
    by (simp add: get_cookie_session_def)
  show ?thesis
    using assms by (cases "sap s") (auto simp: prov_http_handler_def Let_def hdr split: option.split)
qed

text \<open>A body in pieces: the first callback has the headers, the last one the status FINAL.\<close>

fun deliver_pieces ::
  "env \<Rightarrow> nat \<Rightarrow> string \<Rightarrow> cstr \<Rightarrow> http_request_ctx \<Rightarrow> bytes list \<Rightarrow> bytes \<Rightarrow> (int \<times> http_response_ctx) prog" where
  "deliver_pieces E cl url u req [] b =
    prov_http_handler E cl url HTTP_SERVER_REQUEST_DATA_FINAL (req\<lparr>rq_data := b\<rparr>) u"
| "deliver_pieces E cl url u req (a # as) b = do {
     prov_http_handler E cl url HTTP_SERVER_REQUEST_DATA_MORE (req\<lparr>rq_data := a\<rparr>) u;
     deliver_pieces E cl url u \<lparr>headers_ok = False, headers = [], rq_data = []\<rparr> as b }"

lemma more_piece:
  assumes "req_client (sap s) = None \<or> req_client (sap s) = Some cl"
    and "length (req_buf (sap s)) + length a \<le> REQ_BUF_LEN"
  shows "wp (prov_http_handler E cl url HTTP_SERVER_REQUEST_DATA_MORE (req\<lparr>rq_data := a\<rparr>) u)
    (\<lambda>_ s'. req_client (sap s') = Some cl \<and> req_buf (sap s') = req_buf (sap s) @ a) s"
  using assms by (auto simp: prov_http_handler_def Let_def split: option.split)

lemma deliver_pieces_eq:
  assumes "req_client (sap s) = None \<or> req_client (sap s) = Some cl"
    and "length (req_buf (sap s)) + length (concat as @ b) \<le> REQ_BUF_LEN"
  shows "wp (deliver_pieces E cl url u req as b) Q s =
    wp (prov_http_handler E cl url HTTP_SERVER_REQUEST_DATA_FINAL (req\<lparr>rq_data := concat as @ b\<rparr>) u) Q s"
  using assms
proof (induction as arbitrary: s req)
  case (Cons a as)
  let ?more = "prov_http_handler E cl url HTTP_SERVER_REQUEST_DATA_MORE (req\<lparr>rq_data := a\<rparr>) u"
  let ?t = "snd (run_state ?more s)"
  have t: "req_client (sap ?t) = Some cl" "req_buf (sap ?t) = req_buf (sap s) @ a"
    using more_piece [of s cl a E url req u] Cons.prems by (simp_all add: wp_sel)
  have "wp (deliver_pieces E cl url u req (a # as) b) Q s =
      wp ?more (\<lambda>_. wp (prov_http_handler E cl url HTTP_SERVER_REQUEST_DATA_FINAL
        \<lparr>headers_ok = False, headers = [], rq_data = concat as @ b\<rparr> u) Q) s"
    using Cons.IH [of ?t "\<lparr>headers_ok = False, headers = [], rq_data = []\<rparr>"] t Cons.prems(2)
    by (simp add: wp_sel [of ?more] add.assoc)
  also have "\<dots> = wp (prov_http_handler E cl url HTTP_SERVER_REQUEST_DATA_FINAL
      (req\<lparr>rq_data := a @ concat as @ b\<rparr>) u) Q s"
    using softap_handler_pieces [of HTTP_SERVER_REQUEST_DATA_FINAL s cl a "concat as @ b" E url req u "[]" Q] Cons.prems
    by (simp add: add.assoc)
  finally show ?case by simp
qed simp

section \<open>Sessions and heap of a callback\<close>

definition softap_step :: "env \<Rightarrow> nat \<Rightarrow> world \<Rightarrow> world \<Rightarrow> bool" where
  "softap_step E p s s' \<longleftrightarrow> pc_live E p s' \<and> fault s' = fault s \<and> balance p s' = balance p s \<and>
     sap_pc (sap s') = Some p \<and> mgr s' = mgr s \<and> (\<forall>q. q \<noteq> p \<longrightarrow> pcs s' q = pcs s q)"

lemma ensure_session_spec:
  assumes "pc_live E p s" "sap_pc (sap s) = Some p"
  shows "wp (ensure_session E) (\<lambda>_ s'. softap_step E p s s') s"
  unfolding ensure_session_def start_new_session_def using assms
  by (auto intro!: wp_mono [OF live_open] simp: softap_step_def live_step_def statics_def balance_hist)

lemma http_respond_spec:
  "wp (http_respond r) (\<lambda>_ s'. pcs s' = pcs s \<and> fault s' = fault s \<and> sap s' = sap s \<and> mgr s' = mgr s \<and>
     blocks (hist s') = blocks (hist s) - (if snd r = None then 0 else 1)) s"
  by (simp add: http_respond_def Let_def split: option.split)

lemma http_run_spec:
  assumes "pc_live E p s" "sap_pc (sap s) = Some p" and laws: "buffer_laws E"
  shows "wp (http_run E ep) (\<lambda>_ s'. softap_step E p s s') s"
proof -
  have resp: "wp (http_respond r) (\<lambda>_ s'. softap_step E p s s') (t\<lparr>sap := (sap t)\<lparr>req_buf := []\<rparr>\<rparr>)"
    if "softap_step E p s u" "live_step E p u t" "balance p t = balance p u + (if snd r = None then 0 else 1)" for r t u
    by (rule wp_mono [OF http_respond_spec])
      (use that in \<open>auto simp: softap_step_def live_step_def statics_def balance_def pc_live_def\<close>)
  have req: "wp (do { upd_sap f; a \<leftarrow> gets sap;
       r \<leftarrow> protocomm_req_handle E (prog_link E) (sap_pc a) (Some ep) (req_buf a);
       upd_sap (\<lambda>a. a\<lparr>req_buf := []\<rparr>); http_respond r }) (\<lambda>_ s'. softap_step E p s s') t"
    if t: "softap_step E p s t" and f: "\<And>a. sap_pc (f a) = sap_pc a" for f t
  proof -
    let ?t = "t\<lparr>sap := f (sap t)\<rparr>"
    have t': "softap_step E p s ?t" "sap_pc (f (sap t)) = Some p" using t f by (simp_all add: softap_step_def)
    show ?thesis
      using t' by simp
        (rule wp_mono [OF live_request [OF _ laws]], simp add: softap_step_def, simp, rule resp [OF t'(1)], auto)
  qed
  show ?thesis
    unfolding http_run_def wp_bind [of "ensure_session E"]
    by (rule wp_mono [OF ensure_session_spec [OF assms(1,2)]], rule req, auto)
qed

lemma softap_handler_step:
  assumes "pc_live E p s" "sap_pc (sap s) = Some p" "buffer_laws E"
  shows "wp (prov_http_handler E cl url st req u) (\<lambda>_ s'. softap_step E p s s') s"
proof -
  have run: "wp (http_run E ep) (\<lambda>_ s'. softap_step E p s s') (s\<lparr>sap := a\<rparr>)" if "sap_pc a = Some p" for ep a
    by (rule wp_mono [OF http_run_spec [OF _ _ assms(3)]]) (use assms that in \<open>auto simp: softap_step_def\<close>)
  show ?thesis
    unfolding prov_http_handler_def using assms
    by (auto simp: Let_def softap_step_def split: option.split intro!: run [unfolded softap_step_def])
qed

text \<open>One callback of the server.\<close>

record http_callback =
  cb_client :: nat
  cb_url :: string
  cb_status :: http_transaction_status
  cb_request :: http_request_ctx
  cb_user_data :: cstr

definition http_callback_run :: "env \<Rightarrow> http_callback \<Rightarrow> unit prog" where
  "http_callback_run E c = do {
     _ \<leftarrow> prov_http_handler E (cb_client c) (cb_url c) (cb_status c) (cb_request c) (cb_user_data c);
     ret () }"

lemma callback_run_inv:
  assumes "pc_live E p s \<and> sap_pc (sap s) = Some p \<and> softap_inv (sap s)" "buffer_laws E"
  shows "wp (http_callback_run E c) (\<lambda>_ s'. softap_step E p s s' \<and> softap_inv (sap s') \<and>
     con s' = con s \<and> ble s' = ble s) s"
  unfolding http_callback_run_def
  by (simp, rule wp_mono [OF wp_conj [OF softap_handler_step softap_handler_inv]]) (use assms in auto)

text \<open>The session of the request that is complete: continued exactly when its cookie names it.\<close>

lemma ensure_session_gate:
  assumes "sap_pc (sap s) = Some p" "pcs s p = Some c" "pc_inv ctx_sig c" "sec c = Some network_prov_security1"
  shows "wp (ensure_session E) (\<lambda>_ s'. if req_cookie_present (sap s) \<and> session_valid (sap s) \<and>
       req_cookie_id (sap s) = session_id (sap s) then s' = s
     else sap_pc (sap s') = Some p \<and> req_buf (sap s') = req_buf (sap s) \<and> (\<exists>y. pcs s' = (pcs s)(p \<mapsto> c\<lparr>sec_ctx := y\<rparr>) \<and>
       (y = None \<or> unauthenticated (c\<lparr>sec_ctx := y\<rparr>)))) s"
  unfolding ensure_session_def start_new_session_def using assms(1)
  by (auto intro!: wp_mono [OF wp_conj [OF open_session_unauthenticated [OF assms(2-4)] wp_statics(2)]]
      simp: statics_def)

lemma http_run_refused:
  assumes "sap_pc (sap s) = Some p" "pcs s p = Some c" "pc_inv ctx_sig c" "sec c = Some network_prov_security1"
    "find_ep c ep = Some e" "ep_ty e = EP_DATA" "req_buf (sap s) \<noteq> []"
    "\<not> (req_cookie_present (sap s) \<and> session_valid (sap s) \<and> req_cookie_id (sap s) = session_id (sap s))"
  shows "wp (http_run E ep) (\<lambda>r s'. r = (0, error_500)) s"
proof -
  have "wp (protocomm_req_handle E (prog_link E) (Some p) (Some ep) b) (\<lambda>r. wp (do { upd_sap f; http_respond r })
     (\<lambda>r s'. r = (0, error_500))) t"
    if "pcs t p = Some (c\<lparr>sec_ctx := y\<rparr>)" "y = None \<or> unauthenticated (c\<lparr>sec_ctx := y\<rparr>)" "b \<noteq> []" for t y b f
    by (rule wp_mono [OF fresh_session_refuses [OF that(1,2) assms(4-6) that(3)]])
      (auto simp: http_respond_def Let_def)
  then show ?thesis
    unfolding http_run_def wp_bind [of "ensure_session E"]
    by (intro wp_mono [OF ensure_session_gate [OF assms(1-4)]]) (use assms(7,8) in auto)
qed

section \<open>Properties\<close>

text \<open>The HTTP transport is safe for every sequence of server callbacks: from the start of the
  service on, whatever clients, URLs, headers, bodies and transaction states arrive, the request body
  fits its 4096-byte buffer, nothing of a request is kept while no client owns the buffer, no wrong
  object is dereferenced and no heap block is lost.\<close>

theorem softap_callbacks_safe:
  assumes "pc_live E p s" and "sap_pc (sap s) = Some p" and "softap_inv (sap s)" and "buffer_laws E"
  shows "wp (for_each (http_callback_run E) cs) (\<lambda>_ s'. length (req_buf (sap s')) \<le> 4096 \<and>
     (req_client (sap s') = None \<longrightarrow> req_buf (sap s') = [] \<and> \<not> req_cookie_present (sap s')) \<and>
     fault s' = fault s \<and> balance p s' = balance p s) s"
proof -
  have "wp (for_each (http_callback_run E) cs) (\<lambda>_ s'. softap_step E p s s' \<and> softap_inv (sap s')) s"
  proof (rule wp_for_each_inv)
    show "softap_step E p s s \<and> softap_inv (sap s)" using assms by (simp add: softap_step_def)
    fix c t
    assume t: "softap_step E p s t \<and> softap_inv (sap t)"
    show "wp (http_callback_run E c) (\<lambda>_ s'. softap_step E p s s' \<and> softap_inv (sap s')) t"
      by (rule wp_mono [OF callback_run_inv [OF _ assms(4)]]) (use t in \<open>auto simp: softap_step_def\<close>)
  qed
  then show ?thesis
    by (rule wp_mono) (auto simp: softap_inv_def softap_step_def)
qed

definition demo_softap :: world where
  "demo_softap = demo_running\<lparr>sap := (sap demo_running)\<lparr>sap_pc := Some 0\<rparr>\<rparr>"

lemma demo_softap_simps [simp]:
  "pcs demo_softap 0 = Some demo_instance" "sap_pc (sap demo_softap) = Some 0" "softap_inv (sap demo_softap)"
  "req_buf (sap demo_softap) = []" "req_client (sap demo_softap) = None" "\<not> session_valid (sap demo_softap)"
  by (simp_all add: demo_softap_def demo_running_def boot_world_def softap_inv_def)

theorem softap_callbacks_safe_witness:
  "wp (for_each (http_callback_run demo_env)
     [\<lparr>cb_client = 1, cb_url = ''/custom'', cb_status = HTTP_SERVER_REQUEST_DATA_MORE,
        cb_request = \<lparr>headers_ok = True, headers = [], rq_data = [1, 2]\<rparr>, cb_user_data = None\<rparr>])
     (\<lambda>_ s'. length (req_buf (sap s')) \<le> 4096) demo_softap"
  by (rule wp_mono [OF softap_callbacks_safe [OF demo_running_live(1) _ _ demo_running_live(2)]]) simp_all

text \<open>C23. Pieces do not matter: a body that the server delivers in any number of pieces (headers with
  the first, the status FINAL with the last, at most 4096 bytes in all) has exactly the effect and the
  response of the same body delivered at once.\<close>

theorem softap_pieces_equivalent:
  assumes "req_client (sap s) = None \<or> req_client (sap s) = Some cl"
    and "length (req_buf (sap s)) + length (concat as @ b) \<le> 4096"
  shows "run_state (deliver_pieces E cl url u req as b) s =
    run_state (prov_http_handler E cl url HTTP_SERVER_REQUEST_DATA_FINAL (req\<lparr>rq_data := concat as @ b\<rparr>) u) s"
  by (rule wp_eq_run) (rule deliver_pieces_eq [OF assms])

theorem softap_pieces_equivalent_witness:
  "run_state (deliver_pieces ok_env 1 ''/custom'' None \<lparr>headers_ok = True, headers = [], rq_data = []\<rparr> [[1], [2, 3]] [4])
     demo_softap =
   run_state (prov_http_handler ok_env 1 ''/custom'' HTTP_SERVER_REQUEST_DATA_FINAL
     \<lparr>headers_ok = True, headers = [], rq_data = [1, 2, 3, 4]\<rparr> None) demo_softap"
  using softap_pieces_equivalent [of demo_softap 1 "[[1], [2, 3]]" "[4]" ok_env "''/custom''" None
      "\<lparr>headers_ok = True, headers = [], rq_data = []\<rparr>"] by simp

text \<open>C38. A client without the session's cookie never uses the session of another: when the body of a
  non-empty request to a data endpoint is complete in its first callback and the captured headers do not
  carry the id of the valid session, the request runs in a fresh session and is answered with status 500
  under scheme 1, however the old session was authenticated.\<close>

theorem softap_foreign_client_refused:
  assumes "sap_pc (sap s) = Some p" and "pcs s p = Some c" and "pc_inv ctx_sig c"
    and "sec c = Some network_prov_security1" and "find_ep c ep = Some e" and "ep_ty e = EP_DATA"
    and "req_client (sap s) = None" and "headers_ok req" and "rq_data req \<noteq> []"
    and "length (req_buf (sap s)) + length (rq_data req) \<le> 4096"
    and "\<not> (session_valid (sap s) \<and> get_cookie_session E req = Some (session_id (sap s)))"
  shows "wp (prov_http_handler E cl url HTTP_SERVER_REQUEST_DATA_FINAL req (Some ep)) (\<lambda>r s'. r = (0, error_500)) s"
proof -
  have "wp (http_run E ep) (\<lambda>r s'. r = (0, error_500)) (s\<lparr>sap := a\<rparr>)"
    if "sap_pc a = Some p" "req_buf a \<noteq> []"
      "\<not> (req_cookie_present a \<and> session_valid a \<and> req_cookie_id a = session_id a)" for a
    using assms(2-6) that by (intro http_run_refused) auto
  then show ?thesis
    unfolding prov_http_handler_def using assms(1,7-11)
    by (auto simp: Let_def split: option.split)
qed

text \<open>The session of another client is valid, has the id 77 and is authenticated.\<close>

definition occupied_softap :: world where
  "occupied_softap = demo_softap\<lparr>sap := (sap demo_softap)\<lparr>session_valid := True, session_id := 77\<rparr>,
     pcs := [0 \<mapsto> demo_instance\<lparr>sec_ctx := Some (Sec1_object (sec1_zero\<lparr>s1_state := SEC1_DONE\<rparr>))\<rparr>]\<rparr>"

theorem softap_foreign_client_refused_witness:
  "wp (prov_http_handler ok_env 1 [] HTTP_SERVER_REQUEST_DATA_FINAL
     \<lparr>headers_ok = True, headers = [], rq_data = [1]\<rparr> (Some ''custom'')) (\<lambda>r s'. r = (0, error_500)) occupied_softap"
proof -
  let ?c = "demo_instance\<lparr>sec_ctx := Some (Sec1_object (sec1_zero\<lparr>s1_state := SEC1_DONE\<rparr>))\<rparr>"
  have c: "pc_inv ctx_sig ?c" "sec ?c = Some network_prov_security1"
    "find_ep ?c ''custom'' = Some \<lparr>ep_name = ''custom'', ep_ty = EP_DATA, ep_handler = Some H_custom_trampoline, ep_priv = Some 0\<rparr>"
    using demo_instance_facts(1,3) demo_instance_sec by (simp_all add: pc_inv_def find_ep_def)
  show ?thesis
    by (rule softap_foreign_client_refused [OF _ _ c, where p = 0])
      (simp_all add: occupied_softap_def get_cookie_session_def)
qed

text \<open>The cookie round trip: a client that sends back the cookie of the last response, in a header
  whose name is spelled in any case and possibly followed by other cookies, is recognised as exactly
  that session (on every target, as an unsigned long has at least 32 bits).\<close>

theorem softap_cookie_roundtrip:
  assumes "headers_ok req" and "headers req = (Some name, Some (cookie_text n @ ys)) # hs"
    and "map lower name = map lower ''Cookie''" and "4294967295 \<le> ULONG_MAX (cfg E)"
    and "ys = [] \<or> \<not> is_digit (hd ys)"
  shows "get_cookie_session E req = Some n"
  using assms by (simp add: get_cookie_session_def str_ieq_eq cookie_value_roundtrip)

theorem softap_cookie_roundtrip_witness:
  "get_cookie_session ok_env \<lparr>headers_ok = True,
     headers = [(Some ''cookie'', Some (cookie_text 77 @ ''; a=1''))], rq_data = []\<rparr> = Some 77"
proof -
  have "map lower ''cookie'' = map lower ''Cookie''" "\<not> is_digit (CHR '';'')" by code_simp+
  then show ?thesis
    by (intro softap_cookie_roundtrip [where name = "''cookie''" and ys = "''; a=1''" and hs = "[]"])
      (simp_all add: ok_env_def ok_cfg_def)
qed

end
