(* ===== verification/Ble.thy ===== *)
theory Ble
  imports Transport
begin

text \<open>
  \<^verbatim>\<open>src/src/protocomm_ble.c\<close>: the Bluetooth transport. One GATT characteristic per endpoint; a write is
  a request, the response is read back from the same characteristic; a connection is a session.
\<close>

section \<open>Operations\<close>

abbreviation (input) MFG_DATA_MAX :: nat where "MFG_DATA_MAX \<equiv> 11"

text \<open>The result of a GATT write: the number of bytes accepted or an ATT error.\<close>

datatype bt_att_err = BT_ATT_ERR_NOT_SUPPORTED | BT_ATT_ERR_UNLIKELY | BT_ATT_ERR_INSUFFICIENT_RESOURCES

type_synonym gatt_result = "bt_att_err + nat"

definition network_prov_scheme_ble_set_service_uuid :: "bytes option \<Rightarrow> int prog" where
  "network_prov_scheme_ble_set_service_uuid uuid128 =
    (case uuid128 of
       None \<Rightarrow> ret (- EINVAL)
     | Some u \<Rightarrow> do {
         reg \<leftarrow> gets (\<lambda>s. svc_registered (ble s));
         if reg then ret (- EPERM)
         else do { upd_ble (\<lambda>b. b\<lparr>service_uuid := memcpy (service_uuid b) (take 16 u)\<rparr>); ret 0 } })"

definition network_prov_scheme_ble_set_mfg_data :: "bytes option \<Rightarrow> nat \<Rightarrow> int prog" where
  "network_prov_scheme_ble_set_mfg_data data len =
    (if len > MFG_DATA_MAX then ret (- ENOMEM)
     else if len > 0 \<and> data = None then ret (- EINVAL)
     else do {
       reg \<leftarrow> gets (\<lambda>s. svc_registered (ble s));
       if reg then ret (- EPERM)
       else do {
         upd_ble (\<lambda>b. b\<lparr>mfg_data_len := len\<rparr>);
         (case data of None \<Rightarrow> ret ()
          | Some d \<Rightarrow> if_do (len > 0) (upd_ble (\<lambda>b. b\<lparr>mfg_data := memcpy (mfg_data b) (take len d)\<rparr>)));
         ret 0 } })"

definition build_adv :: "env \<Rightarrow> cstr \<Rightarrow> unit prog" where
  "build_adv E name = do {
     cur \<leftarrow> gets (\<lambda>s. bt_get_name (transp E) (hist s));
     upd_ble (\<lambda>b. let nm = strncpy_z 31 (if cstr_empty name then cur else the name) in
       b\<lparr>adv_name := nm,
         adv_ad := [BT_DATA_FLAGS, BT_DATA_NAME_COMPLETE nm],
         adv_sd := BT_DATA_UUID128_ALL (service_uuid b) #
           (if mfg_data_len b > 0 then [BT_DATA_MANUFACTURER_DATA (take (mfg_data_len b) (mfg_data b))] else [])\<rparr>) }"

text \<open>The value that a read of characteristic \<open>i\<close> hands to the stack.\<close>

definition read_ep :: "nat \<Rightarrow> bytes prog" where
  "read_ep i = gets (\<lambda>s. io_resp (ep_ios (ble s) ! i))"

definition set_resp :: "nat \<Rightarrow> bytes \<Rightarrow> unit prog" where
  "set_resp i r = upd_ble (\<lambda>b. b\<lparr>ep_ios := (ep_ios b)[i := (ep_ios b ! i)\<lparr>io_resp := r\<rparr>]\<rparr>)"

text \<open>The last part of a write: the response is kept for the read.\<close>

definition write_answer :: "env \<Rightarrow> nat \<Rightarrow> nat \<Rightarrow> int \<times> bytes option \<Rightarrow> gatt_result prog" where
  "write_answer E i len r =
    (let out = (case snd r of None \<Rightarrow> [] | Some x \<Rightarrow> x) in
     if fst r \<noteq> 0 then do { set_resp i []; ret (Inl BT_ATT_ERR_UNLIKELY) }
     else if length out > BLE_MAX_RESP_LEN (cfg E)
     then do { k_free (snd r); set_resp i []; ret (Inl BT_ATT_ERR_INSUFFICIENT_RESOURCES) }
     else do { set_resp i out; k_free (snd r); ret (Inr len) })"

definition write_ep :: "env \<Rightarrow> nat \<Rightarrow> bytes \<Rightarrow> nat \<Rightarrow> bool \<Rightarrow> gatt_result prog" where
  "write_ep E i buf offset prepare =
    (if prepare then ret (Inr (length buf))
     else if offset \<noteq> 0 then ret (Inl BT_ATT_ERR_NOT_SUPPORTED)
     else do {
       b \<leftarrow> gets ble;
       r \<leftarrow> protocomm_req_handle E (prog_link E) (ble_pc b) (Some (io_name (ep_ios b ! i))) buf;
       write_answer E i (length buf) r })"

definition ep_uuid :: "bytes \<Rightarrow> nat \<Rightarrow> bytes" where
  "ep_uuid base i = base[12 := 240 + of_nat i]"

definition ep_attrs :: "bytes \<Rightarrow> nat \<Rightarrow> gatt_attr list" where
  "ep_attrs base i = [Attr_chrc (ep_uuid base i) i, Attr_value (ep_uuid base i) i, Attr_cud i]"

definition name_endpoint :: "nat option \<Rightarrow> nat \<Rightarrow> unit prog" where
  "name_endpoint pc i = do {
     name \<leftarrow> protocomm_endpoint_name pc i;
     (case name of None \<Rightarrow> set_fault
      | Some nm \<Rightarrow> upd_ble (\<lambda>b. b\<lparr>ep_ios := (ep_ios b)[i :=
          \<lparr>io_name = strncpy_z (PROTOCOMM_EP_NAME_MAX - 1) nm, io_resp = []\<rparr>]\<rparr>)) }"

definition build_service :: "gatt_attr list prog" where
  "build_service = do {
     pc \<leftarrow> gets (\<lambda>s. ble_pc (ble s));
     cnt \<leftarrow> protocomm_endpoint_count pc;
     let n = (if cnt > PROTOCOMM_MAX_ENDPOINTS then PROTOCOMM_MAX_ENDPOINTS else cnt);
     for_each (name_endpoint pc) [0..<n];
     base \<leftarrow> gets (\<lambda>s. service_uuid (ble s));
     ret (Attr_primary_service base # concat (map (ep_attrs base) [0..<n])) }"

definition ble_connected :: "env \<Rightarrow> nat \<Rightarrow> unit prog" where
  "ble_connected E err =
    (if err \<noteq> 0 then ret ()
     else do {
       pc \<leftarrow> gets (\<lambda>s. ble_pc (ble s));
       protocomm_open_session (prog_link E) pc })"

definition ble_disconnected :: "env \<Rightarrow> unit prog" where
  "ble_disconnected E = do {
     pc \<leftarrow> gets (\<lambda>s. ble_pc (ble s));
     protocomm_close_session (prog_link E) pc;
     for_each (\<lambda>i. set_resp i []) [0..<PROTOCOMM_MAX_ENDPOINTS] }"

definition ble_adv_start :: "env \<Rightarrow> int prog" where
  "ble_adv_start E = do {
     b \<leftarrow> gets ble;
     ask (bt_le_adv_start_ret (transp E)) (\<lambda>_. Trans (Bt_le_adv_start (adv_ad b) (adv_sd b))) }"

definition ble_recycled :: "env \<Rightarrow> unit prog" where
  "ble_recycled E = do {
     reg \<leftarrow> gets (\<lambda>s. svc_registered (ble s));
     if_do reg (do { _ \<leftarrow> ble_adv_start E; ret () }) }"

definition network_prov_ble_start :: "env \<Rightarrow> nat option \<Rightarrow> cstr \<Rightarrow> int prog" where
  "network_prov_ble_start E pc device_name = do {
     upd_ble (\<lambda>b. b\<lparr>ble_pc := pc\<rparr>);
     if_do (\<not> cstr_empty device_name) (do {
       _ \<leftarrow> ask (\<lambda>h. bt_set_name_ret (transp E) h (the device_name)) (\<lambda>_. Trans (Bt_set_name (the device_name)));
       ret () });
     r \<leftarrow> ask (bt_enable_ret (transp E)) (\<lambda>_. Trans Bt_enable);
     if r \<noteq> 0 \<and> r \<noteq> - EALREADY then ret r
     else do {
       attrs \<leftarrow> build_service;
       r \<leftarrow> ask (bt_gatt_service_register_ret (transp E)) (\<lambda>_. Trans (Bt_gatt_service_register attrs));
       if r \<noteq> 0 then ret r
       else do {
         upd_ble (\<lambda>b. b\<lparr>svc_registered := True\<rparr>);
         build_adv E device_name;
         ble_adv_start E } } }"

definition network_prov_ble_stop :: "unit prog" where
  "network_prov_ble_stop = do {
     ext_call (Trans Bt_le_adv_stop);
     reg \<leftarrow> gets (\<lambda>s. svc_registered (ble s));
     if_do reg (do {
       ext_call (Trans Bt_gatt_service_unregister);
       upd_ble (\<lambda>b. b\<lparr>svc_registered := False\<rparr>) });
     upd_ble (\<lambda>b. b\<lparr>ble_pc := None\<rparr>) }"

definition ble_scheme_start :: "env \<Rightarrow> nat option \<Rightarrow> cstr \<Rightarrow> cstr \<Rightarrow> int prog" where
  "ble_scheme_start E pc service_name service_key = network_prov_ble_start E pc service_name"

section \<open>The service table\<close>

text \<open>What \<open>build_service\<close> does on an instance: the names of the endpoints are copied in their order.\<close>

definition named_ios :: "('h, 'p) protocomm_ep list \<Rightarrow> ep_io list" where
  "named_ios es = map (\<lambda>e. \<lparr>io_name = ep_name e, io_resp = []\<rparr>) es"

lemma name_loop:
  assumes "pcs s p = Some c" "length (ep_ios (ble s)) = PROTOCOMM_MAX_ENDPOINTS" "registry_ok (endpoints c)"
    "n \<le> length (endpoints c)"
  shows "wp (for_each (name_endpoint (Some p)) [0..<n]) (\<lambda>_ s'.
     s' = s\<lparr>ble := (ble s)\<lparr>ep_ios := named_ios (take n (endpoints c)) @ drop n (ep_ios (ble s))\<rparr>\<rparr>) s"
  using assms(4)
proof (induction n)
  case 0
  then show ?case by (simp add: named_ios_def)
next
  case (Suc n)
  from Suc.prems assms(3) have n: "n < length (endpoints c)" "length (endpoints c) \<le> 8" "length (ep_name (endpoints c ! n)) \<le> 15"
    by (auto simp: registry_ok_def dest!: bspec [of _ _ "endpoints c ! n"])
  have upd: "(named_ios (take n (endpoints c)) @ drop n (ep_ios (ble s)))[n := \<lparr>io_name = ep_name (endpoints c ! n), io_resp = []\<rparr>] =
     named_ios (take (Suc n) (endpoints c)) @ drop (Suc n) (ep_ios (ble s))"
    using n assms(2) by (simp add: named_ios_def take_Suc_conv_app_nth list_update_append Cons_nth_drop_Suc [symmetric])
  from Suc have "wp (for_each (name_endpoint (Some p)) [0..<n]) (\<lambda>_ s'.
     s' = s\<lparr>ble := (ble s)\<lparr>ep_ios := named_ios (take n (endpoints c)) @ drop n (ep_ios (ble s))\<rparr>\<rparr>) s" by simp
  then show ?case
    unfolding upt_Suc_append [OF le0] wp_for_each_append
    by (rule wp_mono) (use n assms(1) upd in \<open>simp add: name_endpoint_def protocomm_endpoint_name_def strncpy_z_id\<close>)
qed

lemma build_service_spec:
  assumes "ble_pc (ble s) = Some p" "pcs s p = Some c" "length (ep_ios (ble s)) = PROTOCOMM_MAX_ENDPOINTS"
    "registry_ok (endpoints c)"
  shows "wp build_service (\<lambda>attrs s'. attrs = Attr_primary_service (service_uuid (ble s)) #
       concat (map (ep_attrs (service_uuid (ble s))) [0..<length (endpoints c)]) \<and>
     s' = s\<lparr>ble := (ble s)\<lparr>ep_ios := named_ios (endpoints c) @ drop (length (endpoints c)) (ep_ios (ble s))\<rparr>\<rparr>) s"
proof -
  have le: "length (endpoints c) \<le> 8" using assms(4) by (simp add: registry_ok_def)
  show ?thesis
    unfolding build_service_def using assms(1,2) le
    by (simp add: protocomm_endpoint_count_def Let_def)
      (rule wp_mono [OF name_loop [OF assms(2-4) order_refl]], simp)
qed

section \<open>BLE is a scheme\<close>

text \<open>The arrays of the transport keep their sizes.\<close>

definition ble_inv :: "env \<Rightarrow> ble_state \<Rightarrow> bool" where
  "ble_inv E b \<longleftrightarrow> length (ep_ios b) = PROTOCOMM_MAX_ENDPOINTS \<and>
     (\<forall>io \<in> set (ep_ios b). length (io_resp io) \<le> BLE_MAX_RESP_LEN (cfg E)) \<and>
     length (service_uuid b) = 16 \<and> length (mfg_data b) = MFG_DATA_MAX \<and> mfg_data_len b \<le> MFG_DATA_MAX"

lemma build_service_frame:
  assumes pc: "ble_pc (ble s) = Some p" and c: "pcs s p = Some c"
  shows "wp build_service (\<lambda>_ s'. \<exists>b. s' = s\<lparr>ble := b\<rparr> \<and> ble_pc b = Some p \<and> (ble_inv E (ble s) \<longrightarrow> ble_inv E b)) s"
proof -
  let ?I = "\<lambda>s'. \<exists>b. s' = s\<lparr>ble := b\<rparr> \<and> ble_pc b = Some p \<and> (ble_inv E (ble s) \<longrightarrow> ble_inv E b)"
  have named: "ble_inv E (b\<lparr>ep_ios := (ep_ios b)[i := \<lparr>io_name = n, io_resp = []\<rparr>]\<rparr>)" if "ble_inv E b" for b i n
    using that by (auto simp: ble_inv_def dest!: set_update_subset_insert [THEN subsetD])
  have loop: "wp (for_each (name_endpoint (Some p)) [0..<n]) (\<lambda>_. ?I) s" if "n \<le> length (endpoints c)" for n
  proof (rule wp_for_each_inv)
    show "?I s" by (rule exI [of _ "ble s"]) (simp add: pc)
    fix i t
    assume "i \<in> set [0..<n]" "?I t"
    with that c show "wp (name_endpoint (Some p) i) (\<lambda>_. ?I) t"
      by (auto simp: name_endpoint_def protocomm_endpoint_name_def) (rule exI, rule conjI [OF refl], simp add: named)+
  qed
  show ?thesis
    unfolding build_service_def using pc c
    by (auto simp: protocomm_endpoint_count_def Let_def intro!: wp_mono [OF loop])
qed

definition ble_frame :: "env \<Rightarrow> world \<Rightarrow> world \<Rightarrow> bool" where
  "ble_frame E s s' \<longleftrightarrow> start_frame s s' \<and> con s' = con s \<and> sap s' = sap s \<and>
     (ble_inv E (ble s) \<longrightarrow> ble_inv E (ble s'))"

lemma ble_frame_refl [simp]: "ble_frame E s s"
  by (simp add: ble_frame_def)

lemma ble_frame_step:
  "ble_frame E s t \<Longrightarrow> blocks h = blocks (hist t) \<Longrightarrow> ble_frame E s (t\<lparr>hist := h\<rparr>)"
  "ble_frame E s t \<Longrightarrow> (ble_inv E (ble t) \<longrightarrow> ble_inv E b) \<Longrightarrow> ble_frame E s (t\<lparr>ble := b\<rparr>)"
  by (simp_all add: ble_frame_def start_frame_def)

text \<open>A Bluetooth stack that always gets a start through, and one that never does.\<close>

definition ble_up :: "env \<Rightarrow> bool" where
  "ble_up E \<longleftrightarrow> (\<forall>h. bt_enable_ret (transp E) h \<in> {0, - EALREADY} \<and>
     bt_gatt_service_register_ret (transp E) h = 0 \<and> bt_le_adv_start_ret (transp E) h = 0)"

definition ble_down :: "env \<Rightarrow> bool" where
  "ble_down E \<longleftrightarrow> (\<forall>h. bt_enable_ret (transp E) h \<notin> {0, - EALREADY}) \<or>
     (\<forall>h. bt_gatt_service_register_ret (transp E) h \<noteq> 0) \<or> (\<forall>h. bt_le_adv_start_ret (transp E) h \<noteq> 0)"

text \<open>A start puts the instance into the transport's pointer, also when it fails.\<close>

lemma ble_start_spec:
  assumes "pc_live E p s"
  shows "wp (ble_scheme_start E (Some p) name key) (\<lambda>r s'. ble_frame E s s' \<and>
     ble_pc (ble s') = Some p \<and> (r = 0 \<longrightarrow> svc_registered (ble s')) \<and> (ble_up E \<longrightarrow> r = 0) \<and> (ble_down E \<longrightarrow> r \<noteq> 0)) s"
proof -
  define P where "P r \<longleftrightarrow> (ble_up E \<longrightarrow> r = 0) \<and> (ble_down E \<longrightarrow> r \<noteq> 0)" for r :: int
  let ?Q = "\<lambda>r s'. ble_frame E s s' \<and> ble_pc (ble s') = Some p \<and> (r = 0 \<longrightarrow> svc_registered (ble s')) \<and> P r"
  have en: "P (bt_enable_ret (transp E) h)" if "bt_enable_ret (transp E) h \<notin> {0, - EALREADY}" for h
    using that by (auto simp: P_def ble_up_def)
  have reg: "P (bt_gatt_service_register_ret (transp E) h)" if "bt_gatt_service_register_ret (transp E) h \<noteq> 0" for h
    using that by (auto simp: P_def ble_up_def)
  have last: "P (bt_le_adv_start_ret (transp E) h'')"
    if "bt_enable_ret (transp E) h \<in> {0, - EALREADY}" "bt_gatt_service_register_ret (transp E) h' = 0" for h h' h''
    using that by (auto simp: P_def ble_up_def ble_down_def)
  have adv: "wp (do { upd_ble (\<lambda>b. b\<lparr>svc_registered := True\<rparr>); build_adv E name; ble_adv_start E }) ?Q t"
    if "ble_frame E s t" "ble_pc (ble t) = Some p" "\<forall>h. P (bt_le_adv_start_ret (transp E) h)" for t
    using that by (auto simp: build_adv_def ble_adv_start_def Let_def ble_frame_def start_frame_def ble_inv_def)
  have svc: "wp (do { attrs \<leftarrow> build_service;
       r \<leftarrow> ask (bt_gatt_service_register_ret (transp E)) (\<lambda>_. Trans (Bt_gatt_service_register attrs));
       if r \<noteq> 0 then ret r
       else do { upd_ble (\<lambda>b. b\<lparr>svc_registered := True\<rparr>); build_adv E name; ble_adv_start E } }) ?Q t"
    if t: "ble_frame E s t" "ble_pc (ble t) = Some p" "bt_enable_ret (transp E) h \<in> {0, - EALREADY}" for t h
  proof -
    from assms t(1) obtain c where c: "pcs t p = Some c"
      by (auto simp: pc_live_def ble_frame_def start_frame_def same_objects_def)
    show ?thesis
      unfolding wp_bind [of build_service]
      by (rule wp_mono [OF build_service_frame [OF t(2) c, of E]])
        (use t(1) in \<open>auto simp del: wp_bind simp: wp_bind [of "ask _ _"] ble_frame_step reg last [OF t(3)] intro!: adv\<close>)
  qed
  have pcinv: "ble_inv E (b\<lparr>ble_pc := q\<rparr>) = ble_inv E b" for b q by (simp add: ble_inv_def)
  show ?thesis
    unfolding ble_scheme_start_def network_prov_ble_start_def P_def [symmetric]
    by (auto simp del: wp_bind simp: wp_bind [of "ask _ _"] wp_bind [of "upd_ble _"] wp_bind [of "if_do _ _"]
        ble_frame_step pcinv en intro!: svc)
qed

interpretation ble: prov_scheme E "ble_scheme_start E" network_prov_ble_stop "\<lambda>s. ble_pc (ble s)" "\<lambda>s. (con s, sap s)"
  "\<lambda>s. ble_inv E (ble s)" for E
proof
  show "wp (ble_scheme_start E (Some p) name key) (\<lambda>r s'. start_frame s s' \<and> (r = 0 \<longrightarrow> ble_pc (ble s') = Some p) \<and>
     (con s', sap s') = (con s, sap s) \<and> (ble_inv E (ble s) \<longrightarrow> ble_inv E (ble s'))) s"
    if "pc_live E p s" for p name key s
    by (rule wp_mono [OF ble_start_spec [OF that]]) (simp add: ble_frame_def)
qed (simp add: network_prov_ble_stop_def stop_frame_def balance_hist ble_inv_def)

section \<open>Connections\<close>

definition ble_step :: "env \<Rightarrow> nat \<Rightarrow> world \<Rightarrow> world \<Rightarrow> bool" where
  "ble_step E p s s' \<longleftrightarrow> pc_live E p s' \<and> fault s' = fault s \<and> balance p s' = balance p s \<and>
     ble_pc (ble s') = Some p \<and> ble_inv E (ble s') \<and> mgr s' = mgr s \<and> con s' = con s \<and> sap s' = sap s \<and>
     (\<forall>q. q \<noteq> p \<longrightarrow> pcs s' q = pcs s q)"

lemma wp_set_resp [wp, simp]:
  "wp (set_resp i r) Q s = Q () (s\<lparr>ble := (ble s)\<lparr>ep_ios := (ep_ios (ble s))[i := (ep_ios (ble s) ! i)\<lparr>io_resp := r\<rparr>]\<rparr>\<rparr>)"
  by (simp add: set_resp_def)

lemma ble_inv_resp:
  "ble_inv E b \<Longrightarrow> length r \<le> BLE_MAX_RESP_LEN (cfg E) \<Longrightarrow>
    ble_inv E (b\<lparr>ep_ios := (ep_ios b)[i := (ep_ios b ! i)\<lparr>io_resp := r\<rparr>]\<rparr>)"
  by (auto simp: ble_inv_def dest!: set_update_subset_insert [THEN subsetD])

lemma write_answer_spec:
  assumes "ble_inv E (ble s)" "fst r \<noteq> 0 \<longrightarrow> snd r = None"
  shows "wp (write_answer E i n r) (\<lambda>_ s'. s' = s\<lparr>hist := hist s', ble := ble s'\<rparr> \<and> ble_inv E (ble s') \<and>
     ble_pc (ble s') = ble_pc (ble s) \<and> blocks (hist s') = blocks (hist s) - (if snd r = None then 0 else 1)) s"
  using assms by (cases r) (auto simp: write_answer_def Let_def ble_inv_resp split: option.split)

lemma write_ep_step:
  assumes "pc_live E p s" "ble_pc (ble s) = Some p" "ble_inv E (ble s)" "buffer_laws E"
  shows "wp (write_ep E i buf off prep) (\<lambda>_ s'. ble_step E p s s') s"
proof -
  have ans: "wp (write_answer E i n r) (\<lambda>_ s'. ble_step E p s s') t"
    if t: "live_step E p s t" "fst r \<noteq> 0 \<longrightarrow> snd r = None" "balance p t = balance p s + (if snd r = None then 0 else 1)"
    for n r t
  proof (rule wp_mono [OF write_answer_spec [OF _ t(2)]])
    show "ble_inv E (ble t)" using t(1) assms(3) by (simp add: live_step_def statics_def)
    fix a and u :: world
    assume u: "u = t\<lparr>hist := hist u, ble := ble u\<rparr> \<and> ble_inv E (ble u) \<and> ble_pc (ble u) = ble_pc (ble t) \<and>
      blocks (hist u) = blocks (hist t) - (if snd r = None then 0 else 1)"
    then have "balance p u = balance p t + blocks (hist u) - blocks (hist t)" "pc_live E p u = pc_live E p t"
      "fault u = fault t" "mgr u = mgr t" "con u = con t" "sap u = sap t" "pcs u = pcs t"
      by (metis balance_hist balance_static(3), metis pc_live_hist pc_live_static(3), (cases t; cases u; simp)+)
    with t u assms(2) show "ble_step E p s u" by (auto simp: ble_step_def live_step_def statics_def)
  qed
  show ?thesis
    unfolding write_ep_def using assms(1-3)
    by (auto intro!: wp_mono [OF live_request [OF _ assms(4)]] ans) (auto simp: ble_step_def)
qed

lemma ble_disconnected_spec:
  assumes "pc_live E p s" "ble_pc (ble s) = Some p" "ble_inv E (ble s)"
  shows "wp (ble_disconnected E) (\<lambda>_ s'. ble_step E p s s' \<and> blocks (hist s') = balance p s \<and>
     (\<forall>i < PROTOCOMM_MAX_ENDPOINTS. io_resp (ep_ios (ble s') ! i) = [])) s"
proof -
  have ios: "ble_inv E b \<Longrightarrow> length (ep_ios b) = PROTOCOMM_MAX_ENDPOINTS" for b by (simp add: ble_inv_def)
  have clear: "wp (for_each (\<lambda>i. set_resp i []) [0..<n]) (\<lambda>_ s'. ble_step E p s s' \<and> hist s' = hist t \<and>
     (\<forall>i < n. io_resp (ep_ios (ble s') ! i) = [])) t"
    if "ble_step E p s t" "n \<le> PROTOCOMM_MAX_ENDPOINTS" for n t
    using that(2)
  proof (induction n)
    case 0
    with that show ?case by simp
  next
    case (Suc n)
    then have "wp (for_each (\<lambda>i. set_resp i []) [0..<n]) (\<lambda>_ s'. ble_step E p s s' \<and> hist s' = hist t \<and>
      (\<forall>i < n. io_resp (ep_ios (ble s') ! i) = [])) t" by simp
    then show ?case
      unfolding upt_Suc_append [OF le0] wp_for_each_append
      by (rule wp_mono) (use Suc.prems ios in \<open>auto simp: ble_step_def ble_inv_resp nth_list_update less_Suc_eq\<close>)
  qed
  show ?thesis
    unfolding ble_disconnected_def using assms
    by (auto simp: live_step_def statics_def ble_step_def
        intro!: wp_mono [OF live_close] wp_mono [OF clear [unfolded ble_step_def]])
qed

datatype ble_event = Ev_connected nat | Ev_disconnected | Ev_recycled | Ev_write nat bytes nat bool

fun ble_event_run :: "env \<Rightarrow> ble_event \<Rightarrow> unit prog" where
  "ble_event_run E (Ev_connected err) = ble_connected E err"
| "ble_event_run E Ev_disconnected = ble_disconnected E"
| "ble_event_run E Ev_recycled = ble_recycled E"
| "ble_event_run E (Ev_write i buf off prep) = do { _ \<leftarrow> write_ep E i buf off prep; ret () }"

lemma ble_event_step:
  assumes "pc_live E p s" "ble_pc (ble s) = Some p" "ble_inv E (ble s)" "buffer_laws E"
  shows "wp (ble_event_run E ev) (\<lambda>_ s'. ble_step E p s s') s"
proof (cases ev)
  case (Ev_connected err)
  with assms show ?thesis
    by (auto simp: ble_connected_def ble_step_def live_step_def statics_def intro!: wp_mono [OF live_open])
next
  case Ev_disconnected
  show ?thesis
    unfolding Ev_disconnected ble_event_run.simps
    by (rule wp_mono [OF ble_disconnected_spec [OF assms(1-3)]]) simp
next
  case Ev_recycled
  with assms show ?thesis
    by (simp add: ble_recycled_def ble_adv_start_def ble_step_def balance_hist)
next
  case (Ev_write i buf off prep)
  then show ?thesis by simp (rule wp_mono [OF write_ep_step [OF assms]], simp)
qed

text \<open>Without an instance the callbacks do nothing but empty or keep the responses.\<close>

lemma ble_event_null:
  assumes "ble_pc (ble s) = None" "ble_inv E (ble s)"
  shows "wp (ble_event_run E ev) (\<lambda>_ s'. s' = s\<lparr>hist := hist s', ble := ble s'\<rparr> \<and> blocks (hist s') = blocks (hist s) \<and>
     ble_pc (ble s') = None \<and> ble_inv E (ble s')) s"
proof (cases ev)
  case Ev_disconnected
  let ?I = "\<lambda>s'. s' = s\<lparr>hist := hist s', ble := ble s'\<rparr> \<and> blocks (hist s') = blocks (hist s) \<and>
     ble_pc (ble s') = None \<and> ble_inv E (ble s')"
  have "wp (for_each (\<lambda>i. set_resp i []) [0..<PROTOCOMM_MAX_ENDPOINTS]) (\<lambda>_. ?I) s"
  proof (rule wp_for_each_inv)
    fix i t
    assume "?I t"
    then show "wp (set_resp i []) (\<lambda>_. ?I) t"
      by (cases s; cases t) (simp add: ble_inv_resp)
  qed (use assms in simp)
  with Ev_disconnected assms show ?thesis by (simp add: ble_disconnected_def protocomm_close_session_def)
qed (use assms in \<open>simp_all add: ble_connected_def protocomm_open_session_def ble_recycled_def ble_adv_start_def
    write_ep_def write_answer_def protocomm_req_handle_def ble_inv_resp\<close>)

section \<open>Advertising\<close>

text \<open>The size of an advertising structure on the air: a length byte, a type byte and the data.\<close>

fun ad_size :: "bt_data \<Rightarrow> nat" where
  "ad_size BT_DATA_FLAGS = 3"
| "ad_size (BT_DATA_NAME_COMPLETE n) = 2 + length n"
| "ad_size (BT_DATA_UUID128_ALL u) = 2 + length u"
| "ad_size (BT_DATA_MANUFACTURER_DATA d) = 2 + length d"

lemma length_concat_attrs: "length (concat (map (ep_attrs base) [0..<n])) = 3 * n"
  by (induction n) (simp_all add: ep_attrs_def)

lemma nth_concat_attrs:
  "i < n \<Longrightarrow> j < 3 \<Longrightarrow> concat (map (ep_attrs base) [0..<n]) ! (3 * i + j) = ep_attrs base i ! j"
proof (induction n)
  case (Suc n)
  show ?case
  proof (cases "i = n")
    case True
    then show ?thesis by (simp add: nth_append length_concat_attrs)
  next
    case False
    with Suc.prems have "i < n" by simp
    moreover from this Suc.prems have "3 * i + j < 3 * n" by simp
    ultimately show ?thesis using Suc by (simp add: nth_append length_concat_attrs)
  qed
qed simp

lemma ep_uuid_inj:
  assumes "length base = 16" "i < 8" "j < 8" "ep_uuid base i = ep_uuid base j"
  shows "i = j"
proof -
  have "ep_uuid base i ! 12 = ep_uuid base j ! 12" using assms(4) by simp
  then have "(of_nat i :: byte) = of_nat j" using assms(1) by (simp add: ep_uuid_def)
  then have "unat (of_nat i :: byte) = unat (of_nat j :: byte)" by simp
  with assms(2,3) show ?thesis by (simp add: unat_of_nat)
qed

section \<open>Properties\<close>

text \<open>C39. The GATT service lets a client find every endpoint by its name: the table has one service
  declaration and three attributes per endpoint (never more than its 25 entries), the characteristics
  have pairwise distinct UUIDs, the value attribute of endpoint \<open>i\<close> is followed by the description that
  holds the name of endpoint \<open>i\<close>, and a request under this name reaches exactly this endpoint.\<close>

theorem ble_service_maps_endpoints:
  assumes "ble_pc (ble s) = Some p" and "pcs s p = Some c" and "registry_ok (endpoints c)" and "ble_inv E (ble s)"
  shows "wp build_service (\<lambda>attrs s'. let n = length (endpoints c) in
     length attrs = 1 + 3 * n \<and> length attrs \<le> 25 \<and>
     (\<forall>i < n. attrs ! (3 * i + 2) = Attr_value (ep_uuid (service_uuid (ble s)) i) i \<and> attrs ! (3 * i + 3) = Attr_cud i \<and>
       find_ep c (io_name (ep_ios (ble s') ! i)) = Some (endpoints c ! i)) \<and>
     distinct (map (ep_uuid (service_uuid (ble s))) [0..<n])) s"
proof -
  let ?u = "service_uuid (ble s)"
  have n8: "length (endpoints c) \<le> 8" and u: "length ?u = 16" and ios: "length (ep_ios (ble s)) = PROTOCOMM_MAX_ENDPOINTS"
    using assms(3,4) by (auto simp: registry_ok_def ble_inv_def)
  have dist: "distinct (map ep_name (endpoints c))" using assms(3) by (simp add: registry_ok_def)
  have at: "concat (map (ep_attrs ?u) [0..<n]) ! Suc (3 * i) = Attr_value (ep_uuid ?u i) i"
    "concat (map (ep_attrs ?u) [0..<n]) ! Suc (Suc (3 * i)) = Attr_cud i" if "i < n" for i n
    using nth_concat_attrs [OF that, of 1 ?u] nth_concat_attrs [OF that, of 2 ?u] by (simp_all add: ep_attrs_def)
  have "distinct (map (ep_uuid ?u) [0..<length (endpoints c)])"
    using ep_uuid_inj [OF u] n8 by (auto simp: distinct_map inj_on_def)
  then show ?thesis
    by (intro wp_mono [OF build_service_spec [OF assms(1,2) ios assms(3)]])
      (use n8 in \<open>auto simp: Let_def length_concat_attrs at find_ep_def named_ios_def nth_append find_ep_list_nth [OF dist]\<close>)
qed

definition demo_ble :: world where
  "demo_ble = demo_running\<lparr>ble := (ble demo_running)\<lparr>ble_pc := Some 0\<rparr>\<rparr>"

lemma demo_ble_simps [simp]:
  "pcs demo_ble 0 = Some demo_instance" "ble_pc (ble demo_ble) = Some 0" "ble_inv E (ble demo_ble)"
  "fault demo_ble = False"
  by (simp_all add: demo_ble_def demo_running_def boot_world_def ble_inv_def prov_service_uuid_def)

lemma demo_instance_registry: "registry_ok (endpoints demo_instance)"
  using demo_instance_facts(1) by (simp add: pc_inv_def)

theorem ble_service_maps_endpoints_witness:
  "wp build_service (\<lambda>attrs s'. length attrs = 7 \<and> attrs ! 5 = Attr_value (ep_uuid prov_service_uuid 1) 1) demo_ble"
proof -
  have "service_uuid (ble demo_ble) = prov_service_uuid" "length (endpoints demo_instance) = 2"
    by (simp_all add: demo_ble_def demo_running_def boot_world_def demo_instance_def)
  then show ?thesis
    by (intro wp_mono [OF ble_service_maps_endpoints [OF demo_ble_simps(2,1) demo_instance_registry demo_ble_simps(3)]])
      (auto simp: Let_def dest!: spec [of _ 1])
qed

text \<open>The Bluetooth transport is safe for every sequence of connections, disconnections and GATT
  writes of any content: every kept response fits its array, no wrong object is dereferenced and no heap
  block is lost.\<close>

theorem ble_events_safe:
  assumes "pc_live E p s" and "ble_pc (ble s) = Some p" and "ble_inv E (ble s)" and "buffer_laws E"
  shows "wp (for_each (ble_event_run E) evs) (\<lambda>_ s'.
     (\<forall>io \<in> set (ep_ios (ble s')). length (io_resp io) \<le> BLE_MAX_RESP_LEN (cfg E)) \<and>
     fault s' = fault s \<and> balance p s' = balance p s) s"
proof -
  have "wp (for_each (ble_event_run E) evs) (\<lambda>_. ble_step E p s) s"
  proof (rule wp_for_each_inv)
    show "ble_step E p s s" using assms by (simp add: ble_step_def)
    fix ev t
    assume t: "ble_step E p s t"
    show "wp (ble_event_run E ev) (\<lambda>_. ble_step E p s) t"
      by (rule wp_mono [OF ble_event_step [OF _ _ _ assms(4)]]) (use t in \<open>auto simp: ble_step_def\<close>)
  qed
  then show ?thesis by (rule wp_mono) (auto simp: ble_step_def ble_inv_def)
qed

theorem ble_events_safe_witness:
  "wp (for_each (ble_event_run demo_env) [Ev_connected 0, Ev_write 1 [1, 2] 0 False, Ev_disconnected])
     (\<lambda>_ s'. fault s' = False \<and> balance 0 s' = balance 0 demo_ble) demo_ble"
  by (rule wp_mono [OF ble_events_safe [OF demo_running_live(1) _ _ demo_running_live(2)]]) simp_all

text \<open>A central leaves nothing behind for the next one: after a disconnection every characteristic
  reads as empty and the session is closed, with its heap blocks released.\<close>

theorem ble_disconnect_clears:
  assumes "pc_live E p s" and "ble_pc (ble s) = Some p" and "ble_inv E (ble s)" and "i < PROTOCOMM_MAX_ENDPOINTS"
  shows "wp (do { ble_disconnected E; read_ep i }) (\<lambda>v s'. v = [] \<and> blocks (hist s') = balance p s \<and>
     balance p s' = balance p s) s"
  unfolding wp_bind
  by (rule wp_mono [OF ble_disconnected_spec [OF assms(1-3)]]) (use assms(4) in \<open>simp add: read_ep_def ble_step_def\<close>)

theorem ble_disconnect_clears_witness:
  "wp (do { ble_disconnected demo_env; read_ep 1 }) (\<lambda>v s'. v = []) demo_ble"
  by (rule wp_mono [OF ble_disconnect_clears [OF demo_running_live(1)]]) simp_all

text \<open>The advertising data: the scan response always fits the 31 bytes of its PDU, whatever
  manufacturer data was set, and the advertising data fits exactly when the device name has at most 26
  characters (the name is cut at 31).\<close>

theorem ble_advertising_fits:
  assumes "ble_inv E (ble s)"
  shows "wp (build_adv F name) (\<lambda>_ s'. sum_list (map ad_size (adv_sd (ble s'))) \<le> 31 \<and>
     (sum_list (map ad_size (adv_ad (ble s'))) \<le> 31 \<longleftrightarrow>
       length (if cstr_empty name then bt_get_name (transp F) (hist s) else the name) \<le> 26)) s"
  using assms by (auto simp: build_adv_def ble_inv_def Let_def strncpy_z_def)

theorem ble_advertising_fits_witness:
  "wp (build_adv ok_env (Some ''PROV_1'')) (\<lambda>_ s'. sum_list (map ad_size (adv_ad (ble s'))) \<le> 31) demo_ble"
  by (rule wp_mono [OF ble_advertising_fits [of ok_env]]) simp_all

end
