(* ===== verification/Json_Text.thy ===== *)
theory Json_Text
  imports C_Text
begin

text \<open>
  JSON texts, for the version document of the manager: values, the text of a value, and a reader that knows nothing of how
  the text was made. The reader takes the grammar of RFC 8259 without white space and escape sequences: a
  quotation mark ends a string, and a backslash or a control character inside one is an error.
\<close>

section \<open>Values and their text\<close>

datatype json = JString string | JNumber nat | JArray "json list" | JObject "(string \<times> json) list"

definition quoted :: "string \<Rightarrow> string" where
  "quoted t = [CHR 0x22] @ t @ [CHR 0x22]"

fun commas :: "string list \<Rightarrow> string" where
  "commas [] = []"
| "commas [t] = t"
| "commas (t # u # xs) = t @ '','' @ commas (u # xs)"

fun render :: "json \<Rightarrow> string" where
  "render (JString t) = quoted t"
| "render (JNumber n) = decimal n"
| "render (JArray vs) = ''['' @ commas (map render vs) @ '']''"
| "render (JObject kvs) = ''{'' @ commas (map (\<lambda>(k, v). quoted k @ '':'' @ render v) kvs) @ ''}''"

section \<open>The reader\<close>

text \<open>The characters of a string up to its closing quotation mark, and what follows it.\<close>

fun read_chars :: "string \<Rightarrow> (string \<times> string) option" where
  "read_chars [] = None"
| "read_chars (c # cs) =
    (if c = CHR 0x22 then Some ([], cs)
     else if c = CHR 0x5C \<or> (of_char c :: nat) < 0x20 then None
     else map_option (\<lambda>(t, r). (c # t, r)) (read_chars cs))"

text \<open>A number has no leading zero.\<close>

definition read_number :: "string \<Rightarrow> (nat \<times> string) option" where
  "read_number s = (case s of [] \<Rightarrow> None
     | c # cs \<Rightarrow> if \<not> is_digit c \<or> c = CHR ''0'' \<and> cs \<noteq> [] \<and> is_digit (hd cs) then None else Some (scan_digits 0 s))"

text \<open>The readers of a value, of the rest of an array and of the rest of an object. Each call has less fuel, and the length of the text is
  enough.\<close>

fun read_value :: "nat \<Rightarrow> string \<Rightarrow> (json \<times> string) option"
  and read_elems :: "nat \<Rightarrow> string \<Rightarrow> (json list \<times> string) option"
  and read_members :: "nat \<Rightarrow> string \<Rightarrow> ((string \<times> json) list \<times> string) option" where
  "read_value 0 s = None"
| "read_value (Suc n) s =
    (if take 1 s = [CHR 0x22] then map_option (\<lambda>(t, r). (JString t, r)) (read_chars (tl s))
     else if take 2 s = ''[]'' then Some (JArray [], drop 2 s)
     else if take 1 s = ''['' then map_option (\<lambda>(vs, r). (JArray vs, r)) (read_elems n (tl s))
     else if take 2 s = ''{}'' then Some (JObject [], drop 2 s)
     else if take 1 s = ''{'' then map_option (\<lambda>(kvs, r). (JObject kvs, r)) (read_members n (tl s))
     else map_option (\<lambda>(m, r). (JNumber m, r)) (read_number s))"
| "read_elems 0 s = None"
| "read_elems (Suc n) s = (case read_value n s of None \<Rightarrow> None
     | Some (v, r) \<Rightarrow>
        if take 1 r = '']'' then Some ([v], tl r)
        else if take 1 r = '','' then map_option (\<lambda>(vs, r). (v # vs, r)) (read_elems n (tl r))
        else None)"
| "read_members 0 s = None"
| "read_members (Suc n) s =
    (if take 1 s \<noteq> [CHR 0x22] then None
     else case read_chars (tl s) of None \<Rightarrow> None
       | Some (k, r) \<Rightarrow>
          if take 1 r \<noteq> '':'' then None
          else case read_value n (tl r) of None \<Rightarrow> None
            | Some (v, r) \<Rightarrow>
               if take 1 r = ''}'' then Some ([(k, v)], tl r)
               else if take 1 r = '','' then map_option (\<lambda>(kvs, r). ((k, v) # kvs, r)) (read_members n (tl r))
               else None)"

definition json_read :: "string \<Rightarrow> json option" where
  "json_read s = (case read_value (length s) s of Some (j, []) \<Rightarrow> Some j | _ \<Rightarrow> None)"

section \<open>The reader reads what was written\<close>

text \<open>The characters that RFC 8259 wants escaped in a string, and values without them.\<close>

definition must_escape :: "char \<Rightarrow> bool" where
  "must_escape c \<longleftrightarrow> c = CHR 0x22 \<or> c = CHR 0x5C \<or> (of_char c :: nat) \<le> 0x1F"

abbreviation plain :: "string \<Rightarrow> bool" where
  "plain t \<equiv> \<forall>c \<in> set t. \<not> must_escape c"

fun plain_json :: "json \<Rightarrow> bool" where
  "plain_json (JString t) = plain t"
| "plain_json (JNumber n) = True"
| "plain_json (JArray vs) = list_all plain_json vs"
| "plain_json (JObject kvs) = list_all (\<lambda>(k, v). plain k \<and> plain_json v) kvs"

lemma read_chars_plain: "plain t \<Longrightarrow> read_chars (t @ CHR 0x22 # r) = Some (t, r)"
  by (induction t) (auto simp: must_escape_def)

lemma commas_Cons: "commas (t # xs) = t @ concat (map (\<lambda>u. '','' @ u) xs)"
  by (induction xs arbitrary: t) auto

lemma commas_more: "xs \<noteq> [] \<Longrightarrow> commas (t # xs) = t @ CHR '','' # commas xs"
  by (cases xs) auto

lemma decimal_zero: "decimal n = CHR ''0'' # cs \<Longrightarrow> cs = [] \<and> n = 0"
proof (induction n arbitrary: cs rule: decimal.induct)
  case (1 n)
  show ?case
  proof (cases "n < 10")
    case True
    then have "(of_char (char_of (48 + n) :: char) :: nat) = 48 + n" by simp
    with True 1(2) show ?thesis by (auto simp: decimal.simps [of n])
  next
    case False
    obtain c ds where "decimal (n div 10) = c # ds" using decimal_Cons by blast
    with False 1 show ?thesis by (auto simp: decimal.simps [of n])
  qed
qed

lemma read_number_decimal: "r = [] \<or> \<not> is_digit (hd r) \<Longrightarrow> read_number (decimal n @ r) = Some (n, r)"
  using decimal_Cons [of n] scan_digits_decimal [of r n] decimal_zero [of n]
  by (auto simp: read_number_def)

lemma render_first: "\<exists>c cs. render j = c # cs \<and> c \<noteq> CHR '']'' \<and> c \<noteq> CHR ''}''"
  using decimal_Cons by (cases j) (fastforce simp: quoted_def is_digit_def)+

text \<open>A value is read back whatever follows it, unless a digit follows a number.\<close>

definition readable :: "json \<Rightarrow> bool" where
  "readable j \<longleftrightarrow> (\<forall>n r. length (render j) \<le> n \<longrightarrow> r = [] \<or> \<not> is_digit (hd r) \<longrightarrow> read_value n (render j @ r) = Some (j, r))"

lemma readableD: "readable j \<Longrightarrow> length (render j) \<le> n \<Longrightarrow> \<not> is_digit c \<Longrightarrow> read_value n (render j @ c # r) = Some (j, c # r)"
  by (simp add: readable_def)

lemma punctuation: "\<not> is_digit (CHR '','')" "\<not> is_digit (CHR '']'')" "\<not> is_digit (CHR ''}'')"
  by (simp_all add: is_digit_def)

lemma read_elems_render:
  assumes "vs \<noteq> []" "\<forall>v \<in> set vs. readable v" "length (commas (map render vs)) < n"
  shows "read_elems n (commas (map render vs) @ CHR '']'' # r) = Some (vs, r)"
  using assms
proof (induction vs arbitrary: n)
  case (Cons v vs)
  then obtain m where m: "n = Suc m" by (cases n) auto
  show ?case
  proof (cases "vs = []")
    case True
    with Cons.prems m show ?thesis by (simp add: readableD punctuation)
  next
    case False
    with Cons.prems m have "read_elems m (commas (map render vs) @ CHR '']'' # r) = Some (vs, r)"
      by (intro Cons.IH) (auto simp: commas_more)
    with False Cons.prems m show ?thesis by (simp add: commas_more readableD punctuation)
  qed
qed simp

lemma read_members_render:
  assumes "kvs \<noteq> []" "\<forall>(k, v) \<in> set kvs. plain k \<and> readable v"
    and "length (commas (map (\<lambda>(k, v). quoted k @ '':'' @ render v) kvs)) < n"
  shows "read_members n (commas (map (\<lambda>(k, v). quoted k @ '':'' @ render v) kvs) @ CHR ''}'' # r) = Some (kvs, r)"
  using assms
proof (induction kvs arbitrary: n)
  case (Cons kv kvs)
  obtain k v where kv: "kv = (k, v)" by (cases kv)
  from Cons.prems obtain m where m: "n = Suc m" by (cases n) auto
  show ?case
  proof (cases "kvs = []")
    case True
    with Cons.prems m kv show ?thesis by (simp add: quoted_def read_chars_plain readableD punctuation)
  next
    case False
    with Cons.prems m kv have "read_members m (commas (map (\<lambda>(k, v). quoted k @ '':'' @ render v) kvs) @ CHR ''}'' # r) = Some (kvs, r)"
      by (intro Cons.IH) (auto simp: commas_more)
    with False Cons.prems m kv show ?thesis
      by (simp add: commas_more quoted_def read_chars_plain readableD punctuation)
  qed
qed simp

lemma readableI:
  assumes "\<And>m r. length (render j) \<le> Suc m \<Longrightarrow> r = [] \<or> \<not> is_digit (hd r) \<Longrightarrow> read_value (Suc m) (render j @ r) = Some (j, r)"
  shows "readable j"
  unfolding readable_def
proof (intro allI impI)
  fix n r
  assume n: "length (render j) \<le> n" and r: "r = [] \<or> \<not> is_digit (hd r)"
  moreover obtain c cs where "render j = c # cs" using render_first by blast
  ultimately obtain m where "n = Suc m" by (cases n) auto
  with n r assms show "read_value n (render j @ r) = Some (j, r)" by simp
qed

lemma plain_readable: "plain_json j \<Longrightarrow> readable j"
proof (induction j)
  case (JString t)
  then show ?case by (intro readableI) (simp add: quoted_def read_chars_plain)
next
  case (JNumber k)
  show ?case
  proof (rule readableI)
    fix m and r :: string
    assume r: "r = [] \<or> \<not> is_digit (hd r)"
    obtain c cs where "decimal k = c # cs" "is_digit c" using decimal_Cons by blast
    moreover from this have "c \<noteq> CHR 0x22 \<and> c \<noteq> CHR ''['' \<and> c \<noteq> CHR ''{''" by (auto simp: is_digit_def)
    ultimately show "read_value (Suc m) (render (JNumber k) @ r) = Some (JNumber k, r)"
      using read_number_decimal [OF r, of k] by simp
  qed
next
  case (JArray vs)
  then have vs: "\<forall>v \<in> set vs. readable v" by (simp add: list_all_iff)
  show ?case
  proof (rule readableI)
    fix m and r :: string
    assume m: "length (render (JArray vs)) \<le> Suc m"
    show "read_value (Suc m) (render (JArray vs) @ r) = Some (JArray vs, r)"
    proof (cases vs)
      case (Cons v ws)
      obtain c cs where "render v = c # cs" "c \<noteq> CHR '']''" using render_first by blast
      then have "\<exists>d ds. commas (map render vs) = d # ds \<and> d \<noteq> CHR '']''" unfolding Cons by (simp add: commas_Cons)
      then show ?thesis using read_elems_render [OF _ vs, of m r] m Cons by auto
    qed simp
  qed
next
  case (JObject kvs)
  then have kvs: "\<forall>(k, v) \<in> set kvs. plain k \<and> readable v" by (fastforce simp: list_all_iff)
  show ?case
  proof (rule readableI)
    fix m and r :: string
    assume m: "length (render (JObject kvs)) \<le> Suc m"
    show "read_value (Suc m) (render (JObject kvs) @ r) = Some (JObject kvs, r)"
    proof (cases kvs)
      case (Cons kv ws)
      have "\<exists>ds. commas (map (\<lambda>(k, v). quoted k @ '':'' @ render v) kvs) = CHR 0x22 # ds"
        unfolding Cons by (cases kv) (simp add: commas_Cons quoted_def)
      then show ?thesis using read_members_render [OF _ kvs, of m r] m Cons by auto
    qed simp
  qed
qed

lemma json_read_render: "plain_json j \<Longrightarrow> json_read (render j) = Some j"
  using plain_readable [of j] by (simp add: json_read_def readable_def)

end
