(* ===== verification/Manager.thy ===== *)
theory Manager
  imports Console Softap Ble Json_Text
begin

text \<open>
  \<^verbatim>\<open>src/src/network_prov_mgr.c\<close>: the manager. It owns the protocomm instance, wires the endpoints, renders
  the version document, starts and stops the transport through its scheme object and delivers the
  events of the life cycle (\<open>network_prov_emit_event\<close> is in the theory of the program state, the
  trampoline of custom endpoints in the theory of the linked program).
\<close>

section \<open>Operations\<close>

datatype network_prov_security = NETWORK_PROV_SECURITY_0 | NETWORK_PROV_SECURITY_1

text \<open>\<open>struct network_prov_mgr_config\<close>; the callback and its user data are opaque, \<open>cf_event_cb\<close> says
  whether there is a callback.\<close>

record network_prov_mgr_config =
  cf_scheme :: "scheme_ref option"
  cf_event_cb :: bool
  cf_wifi_conn_attempts :: u32

text \<open>\<open>if (ret) return ret;\<close> after a call.\<close>

definition chk :: "int prog \<Rightarrow> int prog \<Rightarrow> int prog" where
  "chk m n = do { r \<leftarrow> m; if r \<noteq> 0 then ret r else n }"

fun scheme_start :: "env \<Rightarrow> scheme_ref option \<Rightarrow> nat option \<Rightarrow> cstr \<Rightarrow> cstr \<Rightarrow> int prog" where
  "scheme_start E (Some network_prov_scheme_ble) pc name key = ble_scheme_start E pc name key"
| "scheme_start E (Some network_prov_scheme_softap) pc name key = network_prov_softap_start E pc name key"
| "scheme_start E (Some network_prov_scheme_console) pc name key = console_scheme_start pc name key"
| "scheme_start E _ pc name key = do { set_fault; ret 0 }"

fun scheme_stop :: "env \<Rightarrow> scheme_ref option \<Rightarrow> unit prog" where
  "scheme_stop E (Some network_prov_scheme_ble) = network_prov_ble_stop"
| "scheme_stop E (Some network_prov_scheme_softap) = network_prov_softap_stop E"
| "scheme_stop E (Some network_prov_scheme_console) = network_prov_console_stop E"
| "scheme_stop E _ = set_fault"

definition network_prov_mgr_init :: "env \<Rightarrow> network_prov_mgr_config \<Rightarrow> int prog" where
  "network_prov_mgr_init E config = do {
     m \<leftarrow> gets mgr;
     if inited m then ret (- EALREADY)
     else if cf_scheme config = None \<or> cf_scheme config = Some scheme_without_functions then ret (- EINVAL)
     else do {
       upd_mgr (\<lambda>m. m\<lparr>scheme := cf_scheme config, event_cb := cf_event_cb config,
         wifi_conn_attempts := cf_wifi_conn_attempts config, auto_stop := True, cleanup_delay_ms := 0,
         app_info_json := [], custom := replicate (MAX_CUSTOM_ENDPOINTS (cfg E)) no_custom\<rparr>);
       ext_call (Kern (K_sem_init Mgr_done));
       ext_call (Kern (K_work_init Teardown_work));
       chk (if SETTINGS (cfg E)
            then chk (ask (settings_subsys_init_ret (kern E)) (\<lambda>_. App Settings_subsys_init))
              (do { _ \<leftarrow> ask (settings_load_ret (kern E)) (\<lambda>_. App Settings_load); ret 0 })
            else ret 0)
         (do {
            upd_mgr (\<lambda>m. m\<lparr>inited := True\<rparr>);
            network_prov_emit_event E NETWORK_PROV_INIT;
            ret 0 }) } }"

text \<open>The result and what is stored through the pointer \<open>provisioned\<close> (\<open>ptr\<close>: it is not NULL).\<close>

definition network_prov_mgr_is_provisioned :: "env \<Rightarrow> bool \<Rightarrow> (int \<times> bool option) prog" where
  "network_prov_mgr_is_provisioned E ptr =
    (if \<not> ptr then ret (- EINVAL, None)
     else if NETWORK_TYPE_THREAD (cfg E)
     then do { b \<leftarrow> network_prov_thread_is_commissioned E; ret (0, Some b) }
     else do { b \<leftarrow> gets (\<lambda>s. \<not> cred_is_empty (wifi E) (hist s)); ret (0, Some b) })"

definition network_prov_mgr_reset_wifi_provisioning :: "env \<Rightarrow> int prog" where
  "network_prov_mgr_reset_wifi_provisioning E = do {
     m \<leftarrow> gets mgr;
     if \<not> inited m then ret (- EPERM)
     else if NETWORK_TYPE_THREAD (cfg E) then network_prov_thread_config_erase E
     else ask (cred_delete_all_ret (wifi E)) (\<lambda>_. Wifi Cred_delete_all) }"

subsection \<open>Application information\<close>

fun json_token_ok :: "string \<Rightarrow> bool" where
  "json_token_ok [] = True"
| "json_token_ok (c # s) =
    (if (of_char c :: nat) < 32 \<or> c = CHR 0x22 \<or> c = CHR 0x5C then False else json_token_ok s)"

text \<open>One call of \<open>snprintf\<close> at the end of a text of \<open>length buf\<close> characters in an array of \<open>cap\<close> bytes;
  None when the output does not fit.\<close>

definition append_text :: "nat \<Rightarrow> string \<Rightarrow> string \<Rightarrow> string option" where
  "append_text cap buf t = (if length t \<ge> cap - length buf then None else Some (buf @ t))"

fun append_caps :: "nat \<Rightarrow> string \<Rightarrow> nat \<Rightarrow> string list \<Rightarrow> string option" where
  "append_caps cap buf i [] = Some buf"
| "append_caps cap buf i (c # cs) =
    (case append_text cap buf ((if i = 0 then [] else '','') @ [CHR 0x22] @ c @ [CHR 0x22]) of
       None \<Rightarrow> None
     | Some b \<Rightarrow> append_caps cap b (Suc i) cs)"

definition app_info_text :: "string \<Rightarrow> string \<Rightarrow> string list \<Rightarrow> string option" where
  "app_info_text label ver caps =
    (case append_text 256 [] ([CHR 0x22] @ label @ ''\":{\"ver\":\"'' @ ver @ ''\",\"cap\":['') of
       None \<Rightarrow> None
     | Some b \<Rightarrow>
        (case append_caps 256 b 0 caps of None \<Rightarrow> None | Some b \<Rightarrow> append_text 256 b '']},''))"

definition network_prov_mgr_set_app_info :: "cstr \<Rightarrow> cstr \<Rightarrow> cstr list option \<Rightarrow> nat \<Rightarrow> int prog" where
  "network_prov_mgr_set_app_info label ver capabilities capabilities_count =
    (if cstr_empty label \<or> ver = None then ret (- EINVAL)
     else if capabilities_count > 0 \<and> capabilities = None then ret (- EINVAL)
     else do {
       m \<leftarrow> gets mgr;
       let caps = (case capabilities of None \<Rightarrow> [] | Some cs \<Rightarrow> take capabilities_count cs);
       if \<not> inited m then ret (- EPERM)
       else if started m then ret (- EPERM)
       else if \<not> json_token_ok (the label) \<or> \<not> json_token_ok (the ver) then ret (- EINVAL)
       else if \<not> list_all (\<lambda>c. case c of None \<Rightarrow> False | Some t \<Rightarrow> json_token_ok t) caps then ret (- EINVAL)
       else (case app_info_text (the label) (the ver) (map the caps) of
           None \<Rightarrow> do { upd_mgr (\<lambda>m. m\<lparr>app_info_json := []\<rparr>); ret (- ENOMEM) }
         | Some t \<Rightarrow> do { upd_mgr (\<lambda>m. m\<lparr>app_info_json := t\<rparr>); ret 0 }) })"

subsection \<open>Custom endpoints\<close>

abbreviation (input) EP_VERSION_NAME :: string where "EP_VERSION_NAME \<equiv> ''proto-ver''"
abbreviation (input) EP_SESSION_NAME :: string where "EP_SESSION_NAME \<equiv> ''prov-session''"
abbreviation (input) EP_SCAN_NAME :: string where "EP_SCAN_NAME \<equiv> ''prov-scan''"
abbreviation (input) EP_CONFIG_NAME :: string where "EP_CONFIG_NAME \<equiv> ''prov-config''"
abbreviation (input) EP_CTRL_NAME :: string where "EP_CTRL_NAME \<equiv> ''prov-ctrl''"

definition is_builtin_ep :: "string \<Rightarrow> bool" where
  "is_builtin_ep name \<longleftrightarrow> name = EP_VERSION_NAME \<or> name = EP_SESSION_NAME \<or> name = EP_SCAN_NAME \<or>
     name = EP_CONFIG_NAME \<or> name = EP_CTRL_NAME"

text \<open>The index of the entry that the code's pointer points to.\<close>

fun find_custom_from :: "nat \<Rightarrow> custom_ep list \<Rightarrow> string \<Rightarrow> nat option" where
  "find_custom_from i [] name = None"
| "find_custom_from i (e # es) name =
    (if ce_created e \<and> ce_name e = name then Some i else find_custom_from (Suc i) es name)"

definition find_custom_ep :: "mgr_state \<Rightarrow> string \<Rightarrow> nat option" where
  "find_custom_ep m name = find_custom_from 0 (custom m) name"

fun free_slot_from :: "nat \<Rightarrow> custom_ep list \<Rightarrow> nat option" where
  "free_slot_from i [] = None"
| "free_slot_from i (e # es) = (if \<not> ce_created e then Some i else free_slot_from (Suc i) es)"

definition network_prov_mgr_endpoint_create :: "cstr \<Rightarrow> int prog" where
  "network_prov_mgr_endpoint_create name =
    (if cstr_empty name \<or> length (the name) \<ge> PROTOCOMM_EP_NAME_MAX then ret (- EINVAL)
     else do {
       m \<leftarrow> gets mgr;
       if \<not> inited m then ret (- EPERM)
       else if started m then ret (- EPERM)
       else if is_builtin_ep (the name) \<or> find_custom_ep m (the name) \<noteq> None then ret (- EALREADY)
       else (case free_slot_from 0 (custom m) of
           None \<Rightarrow> ret (- ENOSPC)
         | Some i \<Rightarrow> do {
             upd_mgr (\<lambda>m. m\<lparr>custom := (custom m)[i := \<lparr>ce_name = strncpy_z (PROTOCOMM_EP_NAME_MAX - 1) (the name),
               ce_handler = None, ce_ctx = 0, ce_created = True\<rparr>]\<rparr>);
             ret 0 }) })"

definition network_prov_mgr_endpoint_register :: "cstr \<Rightarrow> nat option \<Rightarrow> nat \<Rightarrow> int prog" where
  "network_prov_mgr_endpoint_register name handler user_ctx =
    (if name = None \<or> handler = None then ret (- EINVAL)
     else do {
       m \<leftarrow> gets mgr;
       if \<not> started m then ret (- EPERM)
       else (case find_custom_ep m (the name) of
           None \<Rightarrow> ret (- ENOENT)
         | Some i \<Rightarrow> do {
             upd_mgr (\<lambda>m. m\<lparr>custom := (custom m)[i := (custom m ! i)\<lparr>ce_ctx := user_ctx\<rparr>]\<rparr>);
             upd_mgr (\<lambda>m. m\<lparr>custom := (custom m)[i := (custom m ! i)\<lparr>ce_handler := handler\<rparr>]\<rparr>);
             ret 0 }) })"

definition network_prov_mgr_endpoint_unregister :: "cstr \<Rightarrow> int prog" where
  "network_prov_mgr_endpoint_unregister name =
    (if name = None then ret (- EINVAL)
     else do {
       m \<leftarrow> gets mgr;
       (case find_custom_ep m (the name) of
           None \<Rightarrow> ret (- ENOENT)
         | Some i \<Rightarrow> do {
             upd_mgr (\<lambda>m. m\<lparr>custom := (custom m)[i := (custom m ! i)\<lparr>ce_handler := None\<rparr>]\<rparr>);
             upd_mgr (\<lambda>m. m\<lparr>custom := (custom m)[i := (custom m ! i)\<lparr>ce_ctx := 0\<rparr>]\<rparr>);
             ret 0 }) })"

subsection \<open>Start and stop\<close>

definition PROV_CAPS :: "env \<Rightarrow> string" where
  "PROV_CAPS E = (if NETWORK_TYPE_THREAD (cfg E) then ''\"thread_prov\",\"thread_scan\"''
     else ''\"wifi_prov\",\"wifi_scan\"'')"

definition build_version_json :: "env \<Rightarrow> network_prov_security \<Rightarrow> cstr \<Rightarrow> unit prog" where
  "build_version_json E security popv =
    (let sec_ver = (if security = NETWORK_PROV_SECURITY_1 then 1 else 0);
         no_pop = (security = NETWORK_PROV_SECURITY_1 \<and> cstr_empty popv)
     in upd_mgr (\<lambda>m. m\<lparr>version_json := snprintf 448
       (''{'' @ app_info_json m @ ''\"prov\":{\"ver\":\"v1.1\",\"sec_ver\":'' @ decimal sec_ver @ '',\"cap\":['' @
        PROV_CAPS E @ (if no_pop then '',\"no_pop\"'' else []) @ '']}}'')\<rparr>))"

definition net_endpoints_init :: "env \<Rightarrow> nat option \<Rightarrow> int prog" where
  "net_endpoints_init E pc =
    (if NETWORK_TYPE_THREAD (cfg E)
     then chk network_prov_thread_scan_init
         (chk (protocomm_add_endpoint pc (Some EP_SCAN_NAME) (Some H_thread_scan) None)
         (chk (network_prov_thread_config_init E)
         (chk (protocomm_add_endpoint pc (Some EP_CONFIG_NAME) (Some H_thread_config) None)
         (protocomm_add_endpoint pc (Some EP_CTRL_NAME) (Some H_thread_ctrl) None))))
     else chk network_prov_wifi_scan_init
         (chk (protocomm_add_endpoint pc (Some EP_SCAN_NAME) (Some H_wifi_scan) None)
         (chk (do { n \<leftarrow> gets (\<lambda>s. wifi_conn_attempts (mgr s)); network_prov_wifi_config_init n })
         (chk (protocomm_add_endpoint pc (Some EP_CONFIG_NAME) (Some H_wifi_config) None)
         (protocomm_add_endpoint pc (Some EP_CTRL_NAME) (Some H_wifi_ctrl) None)))))"

definition net_endpoints_deinit :: "env \<Rightarrow> unit prog" where
  "net_endpoints_deinit E =
    (if NETWORK_TYPE_THREAD (cfg E)
     then do { network_prov_thread_scan_deinit; network_prov_thread_config_deinit }
     else do { network_prov_wifi_scan_deinit; network_prov_wifi_config_deinit })"

text \<open>The loop that adds the custom endpoints, over the indices still to do.\<close>

fun add_custom :: "nat option \<Rightarrow> nat list \<Rightarrow> int prog" where
  "add_custom pc [] = ret 0"
| "add_custom pc (i # is) = do {
     e \<leftarrow> gets (\<lambda>s. custom (mgr s) ! i);
     if \<not> ce_created e then add_custom pc is
     else chk (protocomm_add_endpoint pc (Some (ce_name e)) (Some H_custom_trampoline) (Some i)) (add_custom pc is) }"

text \<open>The steps of a start that may jump to the label \<open>err\<close>.\<close>

definition start_service ::
  "env \<Rightarrow> network_prov_security \<Rightarrow> cstr \<Rightarrow> cstr \<Rightarrow> cstr \<Rightarrow> nat option \<Rightarrow> int prog" where
  "start_service E security popv name key pc = do {
     m \<leftarrow> gets mgr;
     chk (protocomm_set_version pc (Some EP_VERSION_NAME) (Some (version_json m)))
     (chk (protocomm_set_security pc (Some EP_SESSION_NAME)
            (Some (if security = NETWORK_PROV_SECURITY_1 then network_prov_security1 else network_prov_security0))
            (if security = NETWORK_PROV_SECURITY_1 then popv else None))
     (chk (net_endpoints_init E pc)
     (chk (add_custom pc [0..<MAX_CUSTOM_ENDPOINTS (cfg E)])
       (scheme_start E (scheme m) pc name key)))) }"

definition network_prov_mgr_start_provisioning ::
  "env \<Rightarrow> network_prov_security \<Rightarrow> cstr \<Rightarrow> cstr \<Rightarrow> cstr \<Rightarrow> int prog" where
  "network_prov_mgr_start_provisioning E security popv name key = do {
     m \<leftarrow> gets mgr;
     if \<not> inited m then ret (- EPERM)
     else if started m then ret (- EALREADY)
     else do {
       pc \<leftarrow> protocomm_new E;
       upd_mgr (\<lambda>m. m\<lparr>mgr_pc := pc\<rparr>);
       if pc = None then ret (- ENOMEM)
       else do {
         build_version_json E security popv;
         r \<leftarrow> start_service E security popv name key pc;
         if r \<noteq> 0 then do {
           net_endpoints_deinit E;
           protocomm_delete (prog_link E) pc;
           upd_mgr (\<lambda>m. m\<lparr>mgr_pc := None\<rparr>);
           ret r }
         else do {
           upd_mgr (\<lambda>m. m\<lparr>started := True\<rparr>);
           network_prov_emit_event E NETWORK_PROV_START;
           ret 0 } } } }"

definition do_teardown :: "env \<Rightarrow> unit prog" where
  "do_teardown E = do {
     m \<leftarrow> gets mgr;
     if \<not> started m then ret ()
     else do {
       scheme_stop E (scheme m);
       net_endpoints_deinit E;
       protocomm_delete (prog_link E) (mgr_pc m);
       upd_mgr (\<lambda>m. m\<lparr>mgr_pc := None\<rparr>);
       upd_mgr (\<lambda>m. m\<lparr>started := False\<rparr>);
       network_prov_emit_event E NETWORK_PROV_END } }"

text \<open>The kernel runs the work item.\<close>

definition teardown_work_fn :: "env \<Rightarrow> unit prog" where
  "teardown_work_fn E = do { ext_call (Kern (K_work_run Teardown_work)); do_teardown E }"

definition network_prov_mgr_deinit :: "env \<Rightarrow> unit prog" where
  "network_prov_mgr_deinit E = do {
     m \<leftarrow> gets mgr;
     if \<not> inited m then ret ()
     else do {
       ext_call (Kern (K_work_cancel_sync Teardown_work));
       if_do (started m) (do_teardown E);
       upd_mgr (\<lambda>m. m\<lparr>inited := False\<rparr>);
       network_prov_emit_event E NETWORK_PROV_DEINIT } }"

definition network_prov_mgr_stop_provisioning :: "env \<Rightarrow> unit prog" where
  "network_prov_mgr_stop_provisioning E = do {
     m \<leftarrow> gets mgr;
     if \<not> started m then ret ()
     else do {
       ext_call (Kern (K_work_cancel_sync Teardown_work));
       if cleanup_delay_ms m > 0
       then ext_call (Kern (K_work_schedule Teardown_work (unat (cleanup_delay_ms m))))
       else do_teardown E } }"

definition network_prov_mgr_disable_auto_stop :: "u32 \<Rightarrow> int prog" where
  "network_prov_mgr_disable_auto_stop delay = do {
     m \<leftarrow> gets mgr;
     if \<not> inited m then ret (- EPERM)
     else do {
       upd_mgr (\<lambda>m. m\<lparr>auto_stop := False, cleanup_delay_ms := delay\<rparr>);
       ext_call (Kern (K_work_cancel Teardown_work));
       ret 0 } }"

definition network_prov_mgr_is_sm_idle :: "bool prog" where
  "network_prov_mgr_is_sm_idle = gets (\<lambda>s. \<not> started (mgr s))"

subsection \<open>Wrappers\<close>

definition net_config_reset :: "env \<Rightarrow> unit prog" where
  "net_config_reset E =
    (if NETWORK_TYPE_THREAD (cfg E) then network_prov_thread_config_reset E else network_prov_wifi_config_reset)"

definition network_prov_mgr_reset_wifi_sm_state_on_failure :: "env \<Rightarrow> int prog" where
  "network_prov_mgr_reset_wifi_sm_state_on_failure E = do {
     m \<leftarrow> gets mgr;
     if \<not> started m then ret (- EPERM) else do { net_config_reset E; ret 0 } }"

definition network_prov_mgr_reset_wifi_sm_state_for_reprovision :: "env \<Rightarrow> int prog" where
  "network_prov_mgr_reset_wifi_sm_state_for_reprovision E = do {
     m \<leftarrow> gets mgr;
     if \<not> started m then ret (- EPERM) else do { net_config_reset E; ret 0 } }"

definition network_prov_mgr_configure_wifi_sta :: "env \<Rightarrow> cstr \<Rightarrow> cstr \<Rightarrow> int prog" where
  "network_prov_mgr_configure_wifi_sta E ssid psk = do {
     m \<leftarrow> gets mgr;
     if \<not> started m then ret (- EPERM)
     else if NETWORK_TYPE_THREAD (cfg E) then ret (- ENOTSUP)
     else if cstr_empty ssid then ret (- EINVAL)
     else network_prov_wifi_config_set_and_apply E (map_option bytes_of_string ssid)
       (Some (case psk of None \<Rightarrow> [] | Some p \<Rightarrow> bytes_of_string p)) }"

text \<open>The result and what is stored through the pointer (\<open>ptr\<close>: it is not NULL).\<close>

definition network_prov_mgr_get_wifi_remaining_conn_attempts :: "env \<Rightarrow> bool \<Rightarrow> (int \<times> u32 option) prog" where
  "network_prov_mgr_get_wifi_remaining_conn_attempts E ptr = do {
     s \<leftarrow> gets id;
     ret (if \<not> ptr \<or> \<not> started (mgr s) then (- EINVAL, None)
       else if NETWORK_TYPE_THREAD (cfg E) then (- ENOTSUP, None)
       else (0, Some (network_prov_wifi_config_remaining_attempts (wc s)))) }"

text \<open>A wait without a timeout: None while the calling thread stays blocked.\<close>

definition network_prov_mgr_wait :: "env \<Rightarrow> world \<Rightarrow> world option" where
  "network_prov_mgr_wait E s =
    (if sem_take (kern E) (hist s) Mgr_done = 0
     then Some (s\<lparr>hist := Kern (K_sem_take Mgr_done K_FOREVER) # hist s\<rparr>) else None)"

section \<open>The version document\<close>

text \<open>What the client is told: the application's section, if there is one, and the section \<open>prov\<close>.\<close>

definition app_member :: "string \<Rightarrow> string \<Rightarrow> string list \<Rightarrow> string \<times> json" where
  "app_member label ver caps = (label, JObject [(''ver'', JString ver), (''cap'', JArray (map JString caps))])"

definition prov_member :: "env \<Rightarrow> network_prov_security \<Rightarrow> cstr \<Rightarrow> string \<times> json" where
  "prov_member E security popv = (''prov'', JObject [(''ver'', JString ''v1.1''),
     (''sec_ver'', JNumber (if security = NETWORK_PROV_SECURITY_1 then 1 else 0)),
     (''cap'', JArray (map JString ((if NETWORK_TYPE_THREAD (cfg E) then [''thread_prov'', ''thread_scan'']
        else [''wifi_prov'', ''wifi_scan'']) @
        (if security = NETWORK_PROV_SECURITY_1 \<and> cstr_empty popv then [''no_pop''] else []))))])"

definition member_text :: "string \<times> json \<Rightarrow> string" where
  "member_text kv = quoted (fst kv) @ '':'' @ render (snd kv)"

lemma append_caps_eq:
  "length buf < cap \<Longrightarrow> append_caps cap buf (Suc i) cs =
    (let t = concat (map (\<lambda>c. '','' @ quoted c) cs) in if length buf + length t < cap then Some (buf @ t) else None)"
proof (induction cs arbitrary: buf i)
  case (Cons c cs)
  then show ?case by (auto simp: append_text_def quoted_def Let_def)
qed simp

lemma append_caps_commas:
  assumes "length buf < cap"
  shows "append_caps cap buf 0 cs =
    (let t = commas (map quoted cs) in if length buf + length t < cap then Some (buf @ t) else None)"
proof (cases cs)
  case (Cons c ds)
  have eq: "concat (map (\<lambda>c. '','' @ quoted c) ds) = concat (map (\<lambda>u. '','' @ u) (map quoted ds))"
    by (simp add: comp_def)
  show ?thesis
    using assms unfolding Cons list.map commas_Cons eq [symmetric]
    by (auto simp: append_text_def append_caps_eq Let_def quoted_def)
qed (use assms in \<open>simp add: Let_def\<close>)

lemma app_info_text_eq:
  "app_info_text label ver caps = (let t = member_text (app_member label ver caps) @ '','' in
    if length t < 256 then Some t else None)"
proof -
  have render_caps: "map (render \<circ> JString) caps = map quoted caps" by simp
  show ?thesis
    by (auto simp: app_info_text_def append_text_def append_caps_commas Let_def member_text_def app_member_def
        quoted_def [of label] quoted_def [of ver] quoted_def [of "''ver''"] quoted_def [of "''cap''"] render_caps)
qed

lemma length_prov_member: "length (member_text (prov_member E security popv)) \<le> 91"
  by (auto simp: member_text_def prov_member_def quoted_def decimal.simps)

lemma version_text:
  "''\"prov\":{\"ver\":\"v1.1\",\"sec_ver\":'' @ decimal (if security = NETWORK_PROV_SECURITY_1 then 1 else 0) @ '',\"cap\":['' @
     PROV_CAPS E @ (if security = NETWORK_PROV_SECURITY_1 \<and> cstr_empty popv then '',\"no_pop\"'' else []) @ '']}}'' =
   member_text (prov_member E security popv) @ ''}''"
  by (auto simp: member_text_def prov_member_def quoted_def PROV_CAPS_def)

lemma json_token_ok_plain: "json_token_ok t \<longleftrightarrow> plain t"
  by (induction t) (auto simp: must_escape_def)

text \<open>The document that is rendered at start, for every application section that was accepted: the sections it has and the text that is
  spliced in.\<close>

definition info_of :: "(string \<times> json) option \<Rightarrow> string" where
  "info_of a = (case a of None \<Rightarrow> [] | Some kv \<Rightarrow> member_text kv @ '','')"

definition sections :: "(string \<times> json) option \<Rightarrow> (string \<times> json) list" where
  "sections a = (case a of None \<Rightarrow> [] | Some kv \<Rightarrow> [kv])"

definition plain_info :: "(string \<times> json) option \<Rightarrow> bool" where
  "plain_info a \<longleftrightarrow> plain_json (JObject (sections a))"

lemma plain_info_None [simp]: "plain_info None"
  by (simp add: plain_info_def sections_def)

lemma tokens_plain: "list_all (\<lambda>c. case c of None \<Rightarrow> False | Some t \<Rightarrow> json_token_ok t) cs \<Longrightarrow> \<forall>t \<in> set (map the cs). plain t"
  by (auto simp: list_all_iff json_token_ok_plain split: option.splits)

lemma plain_app_member: "plain_info (Some (app_member label ver caps)) \<longleftrightarrow> (\<forall>t \<in> {label, ver} \<union> set caps. plain t)"
  by (auto simp: plain_info_def sections_def app_member_def list_all_iff must_escape_def)

lemma plain_document: "plain_info a \<Longrightarrow> plain_json (JObject (sections a @ [prov_member E security popv]))"
  by (auto simp: plain_info_def prov_member_def list_all_iff must_escape_def)

lemma build_version_json_spec:
  assumes "app_info_json (mgr s) = info_of a" "length (info_of a) < 256"
  shows "wp (build_version_json E security popv) (\<lambda>_ s'.
     s' = s\<lparr>mgr := (mgr s)\<lparr>version_json := render (JObject (sections a @ [prov_member E security popv]))\<rparr>\<rparr> \<and> length (version_json (mgr s')) < 448) s"
proof -
  have doc: "render (JObject (sections a @ [prov_member E security popv])) =
    ''{'' @ info_of a @ member_text (prov_member E security popv) @ ''}''"
    by (auto simp: info_of_def sections_def member_text_def split: option.split prod.split)
  have len: "length (''{'' @ info_of a @ member_text (prov_member E security popv) @ ''}'') < 448"
    using assms(2) length_prov_member [of E security popv] by simp
  show ?thesis
    unfolding build_version_json_def Let_def wp_upd version_text assms(1)
    using len by (simp only: doc snprintf_fits [OF len]) simp
qed

text \<open>The result of \<open>network_prov_mgr_set_app_info\<close>, and the section that is kept.\<close>

definition bad_info :: "string \<Rightarrow> string \<Rightarrow> string list \<Rightarrow> bool" where
  "bad_info label ver caps \<longleftrightarrow> label = [] \<or> (\<exists>t \<in> {label, ver} \<union> set caps. \<exists>c \<in> set t. must_escape c)"

definition long_info :: "string \<Rightarrow> string \<Rightarrow> string list \<Rightarrow> bool" where
  "long_info label ver caps \<longleftrightarrow> length (member_text (app_member label ver caps)) \<ge> 255"

lemma set_app_info_spec:
  assumes "inited (mgr s)" "\<not> started (mgr s)"
  shows "wp (network_prov_mgr_set_app_info (Some label) (Some ver) (Some (map Some caps)) (length caps)) (\<lambda>r s'.
     if bad_info label ver caps then r = - EINVAL \<and> s' = s
     else if long_info label ver caps then r = - ENOMEM \<and> s' = s\<lparr>mgr := (mgr s)\<lparr>app_info_json := info_of None\<rparr>\<rparr>
     else r = 0 \<and> s' = s\<lparr>mgr := (mgr s)\<lparr>app_info_json := info_of (Some (app_member label ver caps))\<rparr>\<rparr>) s"
proof -
  have caps: "list_all (\<lambda>c. case c of None \<Rightarrow> False | Some t \<Rightarrow> json_token_ok t) (map Some caps) =
    list_all json_token_ok caps" "map the (map Some caps) = caps"
    by (simp_all add: list.pred_map comp_def)
  have bad: "bad_info label ver caps \<longleftrightarrow> label = [] \<or> \<not> json_token_ok label \<or> \<not> json_token_ok ver \<or> \<not> list_all json_token_ok caps"
    by (auto simp: bad_info_def json_token_ok_plain list_all_iff)
  show ?thesis
    unfolding bad
    using assms by (cases label) (auto simp: network_prov_mgr_set_app_info_def caps app_info_text_eq Let_def info_of_def long_info_def)
qed

section \<open>Properties\<close>

text \<open>C25. The version document is well-formed JSON whatever the application passes: a client that reads it as JSON gets
  the object with the application's section and the section \<open>prov\<close>, with exactly the strings that were passed. Information
  with a character that JSON would have to escape is refused with -EINVAL, and the document keeps the section it had; information
  that does not fit its 256 bytes is refused with -ENOMEM, and the document has no section of the application. The document is
  never cut off by its 448-byte array.\<close>

theorem mgr_version_document:
  assumes "inited (mgr s)" and "\<not> started (mgr s)"
    and "app_info_json (mgr s) = info_of a" and "length (info_of a) < 256" and "plain_info a"
  shows "wp (do { r \<leftarrow> network_prov_mgr_set_app_info (Some label) (Some ver) (Some (map Some caps)) (length caps);
       build_version_json E security popv; ret r }) (\<lambda>r s'.
     r = (if bad_info label ver caps then - EINVAL else if long_info label ver caps then - ENOMEM else 0) \<and>
     json_read (version_json (mgr s')) = Some (JObject (
       (if r = - EINVAL then sections a else if r = - ENOMEM then [] else [app_member label ver caps]) @
       [prov_member E security popv])) \<and>
     length (version_json (mgr s')) < 448) s"
  (is "wp _ ?Q s")
proof -
  let ?b = "if bad_info label ver caps then a else if long_info label ver caps then None else Some (app_member label ver caps)"
    and ?r = "if bad_info label ver caps then - EINVAL else if long_info label ver caps then - ENOMEM else 0"
  have b: "length (info_of ?b) < 256" "plain_info ?b"
    using assms(4,5)
    by (auto simp: long_info_def info_of_def plain_app_member bad_info_def)
  show ?thesis
    unfolding wp_bind [of "network_prov_mgr_set_app_info _ _ _ _"]
  proof (rule wp_mono [OF set_app_info_spec [OF assms(1,2)]])
    fix r t
    assume "if bad_info label ver caps then r = - EINVAL \<and> t = s
      else if long_info label ver caps then r = - ENOMEM \<and> t = s\<lparr>mgr := (mgr s)\<lparr>app_info_json := info_of None\<rparr>\<rparr>
      else r = 0 \<and> t = s\<lparr>mgr := (mgr s)\<lparr>app_info_json := info_of (Some (app_member label ver caps))\<rparr>\<rparr>"
    then have r: "r = ?r" "app_info_json (mgr t) = info_of ?b" using assms(3) by (auto split: if_splits)
    show "wp (do { build_version_json E security popv; ret r }) ?Q t"
      unfolding wp_bind
      by (rule wp_mono [OF build_version_json_spec [OF r(2) b(1)]])
        (use r(1) json_read_render [OF plain_document [OF b(2), of E security popv]] in \<open>auto simp: sections_def split: if_splits\<close>)
  qed
qed

theorem mgr_version_document_witness:
  "wp (do { r \<leftarrow> network_prov_mgr_set_app_info (Some ''app'') (Some ''1'') (Some (map Some [''led''])) (length [''led'']);
       build_version_json ok_env NETWORK_PROV_SECURITY_1 None; ret r }) (\<lambda>r s'. r = 0 \<and>
     json_read (version_json (mgr s')) = Some (JObject [app_member ''app'' ''1'' [''led''], prov_member ok_env NETWORK_PROV_SECURITY_1 None]))
   (boot_world ok_env\<lparr>mgr := (mgr_zero ok_env)\<lparr>inited := True\<rparr>\<rparr>)"
proof -
  have "\<not> bad_info ''app'' ''1'' [''led'']" by (simp add: bad_info_def must_escape_def)
  moreover have "\<not> long_info ''app'' ''1'' [''led'']" by (simp add: long_info_def member_text_def app_member_def quoted_def)
  ultimately show ?thesis
    by (intro wp_mono [OF mgr_version_document [where a = None]])
      (auto simp: mgr_zero_def info_of_def plain_info_def sections_def)
qed

end
