(* ===== verification/Service.thy ===== *)
theory Service
  imports Manager
begin

text \<open>
  What \<open>network_prov_mgr_start_provisioning\<close> and the teardown do, over the interface of the schemes
  (locale \<open>prov_scheme\<close>): the endpoints that a started service has, and that a failed start and a
  teardown give back what a start took.
\<close>

section \<open>Well-formed manager state\<close>

text \<open>The custom endpoints that exist have distinct names of a length that fits, none of them the name
  of a built-in endpoint; an initialised manager has one of the three schemes.\<close>

definition custom_ok :: "env \<Rightarrow> custom_ep list \<Rightarrow> bool" where
  "custom_ok E cs \<longleftrightarrow> length cs = MAX_CUSTOM_ENDPOINTS (cfg E) \<and> distinct (map ce_name (filter ce_created cs)) \<and>
     (\<forall>e \<in> set cs. ce_created e \<longrightarrow> \<not> is_builtin_ep (ce_name e) \<and> length (ce_name e) < PROTOCOMM_EP_NAME_MAX)"

definition real_scheme :: "scheme_ref option \<Rightarrow> bool" where
  "real_scheme x \<longleftrightarrow> x \<noteq> None \<and> x \<noteq> Some scheme_without_functions"

definition mgr_ok :: "env \<Rightarrow> mgr_state \<Rightarrow> bool" where
  "mgr_ok E m \<longleftrightarrow> custom_ok E (custom m) \<and> (\<exists>a. app_info_json m = info_of a \<and> length (info_of a) < 256 \<and> plain_info a) \<and>
     (inited m \<longrightarrow> real_scheme (scheme m)) \<and> (started m \<longrightarrow> inited m)"

text \<open>The range of the option in Kconfig: the five built-in endpoints leave room for three.\<close>

definition config_ok :: "env \<Rightarrow> bool" where
  "config_ok E \<longleftrightarrow> MAX_CUSTOM_ENDPOINTS (cfg E) \<le> 3"

lemma custom_ok_replicate: "custom_ok E (replicate (MAX_CUSTOM_ENDPOINTS (cfg E)) no_custom)"
  by (auto simp: custom_ok_def no_custom_def)

section \<open>The endpoints of a service\<close>

type_synonym endpoint = "(handler_ref, nat) protocomm_ep"

definition base_eps :: "endpoint list" where
  "base_eps = [\<lparr>ep_name = EP_VERSION_NAME, ep_ty = EP_VERSION, ep_handler = None, ep_priv = None\<rparr>,
     \<lparr>ep_name = EP_SESSION_NAME, ep_ty = EP_SECURITY, ep_handler = None, ep_priv = None\<rparr>]"

definition data_ep :: "string \<Rightarrow> handler_ref \<Rightarrow> nat option \<Rightarrow> endpoint" where
  "data_ep n h pr = \<lparr>ep_name = n, ep_ty = EP_DATA, ep_handler = Some h, ep_priv = pr\<rparr>"

definition net_eps :: "env \<Rightarrow> endpoint list" where
  "net_eps E = (if NETWORK_TYPE_THREAD (cfg E)
     then [data_ep EP_SCAN_NAME H_thread_scan None, data_ep EP_CONFIG_NAME H_thread_config None,
       data_ep EP_CTRL_NAME H_thread_ctrl None]
     else [data_ep EP_SCAN_NAME H_wifi_scan None, data_ep EP_CONFIG_NAME H_wifi_config None,
       data_ep EP_CTRL_NAME H_wifi_ctrl None])"

definition custom_eps :: "custom_ep list \<Rightarrow> nat list \<Rightarrow> endpoint list" where
  "custom_eps cs is = map (\<lambda>i. data_ep (ce_name (cs ! i)) H_custom_trampoline (Some i)) (filter (\<lambda>i. ce_created (cs ! i)) is)"

definition service_eps :: "env \<Rightarrow> mgr_state \<Rightarrow> endpoint list" where
  "service_eps E m = base_eps @ net_eps E @ custom_eps (custom m) [0..<MAX_CUSTOM_ENDPOINTS (cfg E)]"

lemma data_ep_sel [simp]:
  "ep_name (data_ep n h pr) = n" "ep_ty (data_ep n h pr) = EP_DATA" "ep_handler (data_ep n h pr) = Some h"
  "ep_priv (data_ep n h pr) = pr"
  by (simp_all add: data_ep_def)

lemma filter_nth: "map f (filter P xs) = map (\<lambda>i. f (xs ! i)) (filter (\<lambda>i. P (xs ! i)) [0..<length xs])"
proof -
  have "map f (filter P (map (\<lambda>i. xs ! i) [0..<length xs])) = map (\<lambda>i. f (xs ! i)) (filter (\<lambda>i. P (xs ! i)) [0..<length xs])"
    by (simp add: filter_map comp_def)
  then show ?thesis by (simp add: map_nth)
qed

lemma custom_names:
  assumes "custom_ok E cs"
  shows "map ep_name (custom_eps cs [0..<MAX_CUSTOM_ENDPOINTS (cfg E)]) = map ce_name (filter ce_created cs)"
  using assms filter_nth [of ce_name ce_created cs] by (simp add: custom_eps_def custom_ok_def comp_def)

lemma service_registry:
  assumes "mgr_ok E m" "config_ok E"
  shows "registry_ok (service_eps E m)"
proof -
  let ?cs = "custom_eps (custom m) [0..<MAX_CUSTOM_ENDPOINTS (cfg E)]"
  have ok: "custom_ok E (custom m)" using assms(1) by (simp add: mgr_ok_def)
  have cs: "distinct (map ep_name ?cs)" "\<forall>n \<in> ep_name ` set ?cs. \<not> is_builtin_ep n \<and> length n < 16"
    using ok custom_names [OF ok] unfolding set_map [symmetric] by (auto simp: custom_ok_def)
  have "length ?cs \<le> MAX_CUSTOM_ENDPOINTS (cfg E)"
    by (simp add: custom_eps_def) (rule order_trans [OF length_filter_le], simp)
  with cs assms(2) show ?thesis
    by (auto simp: registry_ok_def service_eps_def base_eps_def net_eps_def is_builtin_ep_def config_ok_def)
qed

lemma registry_prefix: "registry_ok (xs @ ys) \<Longrightarrow> registry_ok xs"
  by (auto simp: registry_ok_def)

lemma add_endpoint_run:
  assumes "pcs s p = Some c" "registry_ok (endpoints c @ data_ep n h pr # es)"
  shows "wp (protocomm_add_endpoint (Some p) (Some n) (Some h) pr) Q s =
    Q 0 (s\<lparr>pcs := (pcs s)(p \<mapsto> c\<lparr>endpoints := endpoints c @ [data_ep n h pr]\<rparr>)\<rparr>)"
proof -
  have "find_ep c n = None" "length n < 16" "length (endpoints c) < 8"
    using assms(2) by (auto simp: registry_ok_def find_ep_def find_ep_list_None)
  then show ?thesis by (simp add: protocomm_add_endpoint_def wp_add_ep [OF assms(1)] data_ep_def)
qed

lemma wp_chk [wp, simp]: "wp (chk m n) Q s = wp m (\<lambda>r. if r \<noteq> 0 then Q r else wp n Q) s"
  by (simp add: chk_def) (rule arg_cong [of _ _ "\<lambda>f. wp m f s"], auto simp: fun_eq_iff)

lemma add_custom_run:
  assumes "pcs s p = Some c" "registry_ok (endpoints c @ custom_eps (custom (mgr s)) is)"
  shows "wp (add_custom (Some p) is) Q s =
    Q 0 (s\<lparr>pcs := (pcs s)(p \<mapsto> c\<lparr>endpoints := endpoints c @ custom_eps (custom (mgr s)) is\<rparr>)\<rparr>)"
  using assms
proof (induction "is" arbitrary: s c)
  case Nil
  then show ?case by (simp add: custom_eps_def fun_upd_idem)
next
  case (Cons i js)
  let ?e = "custom (mgr s) ! i"
  show ?case
  proof (cases "ce_created ?e")
    case False
    with Cons show ?thesis by (simp add: custom_eps_def)
  next
    case True
    then have eps: "custom_eps (custom (mgr s)) (i # js) =
        data_ep (ce_name ?e) H_custom_trampoline (Some i) # custom_eps (custom (mgr s)) js"
      by (simp add: custom_eps_def)
    let ?c = "c\<lparr>endpoints := endpoints c @ [data_ep (ce_name ?e) H_custom_trampoline (Some i)]\<rparr>"
    let ?s = "s\<lparr>pcs := (pcs s)(p \<mapsto> ?c)\<rparr>"
    have IH: "wp (add_custom (Some p) js) Q ?s =
        Q 0 (?s\<lparr>pcs := (pcs ?s)(p \<mapsto> ?c\<lparr>endpoints := endpoints ?c @ custom_eps (custom (mgr ?s)) js\<rparr>)\<rparr>)"
      by (rule Cons.IH) (use Cons.prems(2) in \<open>simp_all add: eps\<close>)
    show ?thesis
      using Cons.prems True
      by (simp add: add_endpoint_run [OF _ Cons.prems(2) [unfolded eps]] eps IH [simplified] del: fun_upd_apply)
  qed
qed

lemma add_endpoint_step:
  assumes "pcs s p = Some c" "registry_ok (endpoints c @ [data_ep n h pr])"
  shows "wp (protocomm_add_endpoint (Some p) (Some n) (Some h) pr) Q s =
    Q 0 (s\<lparr>pcs := (pcs s)(p \<mapsto> c\<lparr>endpoints := endpoints c @ [data_ep n h pr]\<rparr>)\<rparr>)"
  by (rule add_endpoint_run [OF assms])

text \<open>What the network part of a start changes: its own statics and the instance under construction.\<close>

definition build_frame :: "nat \<Rightarrow> world \<Rightarrow> world \<Rightarrow> bool" where
  "build_frame p s s' \<longleftrightarrow> statics s' = statics s \<and> fault s' = fault s \<and> blocks (hist s') = blocks (hist s) \<and>
     (\<forall>q. q \<noteq> p \<longrightarrow> pcs s' q = pcs s q)"

lemma build_frame_refl [simp]: "build_frame p s s"
  by (simp add: build_frame_def)

lemma net_ops_frame:
  "wp network_prov_wifi_scan_init (\<lambda>r s'. r = 0 \<and> build_frame p s s' \<and> pcs s' = pcs s) s"
  "wp network_prov_wifi_scan_deinit (\<lambda>_ s'. build_frame p s s' \<and> pcs s' = pcs s) s"
  "wp (network_prov_wifi_config_init n) (\<lambda>r s'. r = 0 \<and> build_frame p s s' \<and> pcs s' = pcs s) s"
  "wp network_prov_wifi_config_deinit (\<lambda>_ s'. build_frame p s s' \<and> pcs s' = pcs s) s"
  "wp network_prov_thread_scan_init (\<lambda>r s'. r = 0 \<and> build_frame p s s' \<and> pcs s' = pcs s) s"
  "wp network_prov_thread_scan_deinit (\<lambda>_ s'. build_frame p s s' \<and> pcs s' = pcs s) s"
  "wp (network_prov_thread_config_init E) (\<lambda>_ s'. build_frame p s s' \<and> pcs s' = pcs s) s"
  "wp network_prov_thread_config_deinit (\<lambda>_ s'. build_frame p s s' \<and> pcs s' = pcs s) s"
  by (simp_all add: network_prov_wifi_scan_init_def network_prov_wifi_scan_deinit_def
      network_prov_wifi_config_init_def network_prov_wifi_config_deinit_def clear_inflight_def
      network_prov_thread_scan_init_def network_prov_thread_scan_deinit_def network_prov_thread_config_init_def
      network_prov_thread_config_deinit_def build_frame_def statics_def)

lemma build_frame_pc:
  "build_frame p s t \<Longrightarrow> build_frame p s (t\<lparr>pcs := (pcs t)(p \<mapsto> c)\<rparr>)"
  "build_frame p s t \<Longrightarrow> build_frame p s (t\<lparr>pcs := (pcs s)(p \<mapsto> c)\<rparr>)"
  by (simp_all add: build_frame_def)

lemma build_frame_trans: "build_frame p s t \<Longrightarrow> build_frame p t u \<Longrightarrow> build_frame p s u"
  by (simp add: build_frame_def)

lemma add_net_endpoints:
  assumes c: "pcs s p = Some c" and reg: "registry_ok (endpoints c @ net_eps E)"
    and eps: "net_eps E = [data_ep a h1 None, data_ep b h2 None, data_ep d h3 None]"
    and init: "\<And>s. wp init (\<lambda>r s'. r = 0 \<and> build_frame p s s' \<and> pcs s' = pcs s) s"
    and conf: "\<And>s. wp conf (\<lambda>r s'. build_frame p s s' \<and> pcs s' = pcs s \<and> (sure \<longrightarrow> r = 0)) s"
  shows "wp (chk init (chk (protocomm_add_endpoint (Some p) (Some a) (Some h1) None)
      (chk conf (chk (protocomm_add_endpoint (Some p) (Some b) (Some h2) None)
        (protocomm_add_endpoint (Some p) (Some d) (Some h3) None))))) (\<lambda>r s'. build_frame p s s' \<and> (sure \<longrightarrow> r = 0) \<and>
     (\<exists>k. pcs s' p = Some (c\<lparr>endpoints := endpoints c @ take k (net_eps E)\<rparr>) \<and> (r = 0 \<longrightarrow> k = 3))) s"
  (is "wp _ ?Q s")
proof -
  let ?es = "\<lambda>k. c\<lparr>endpoints := endpoints c @ take k (net_eps E)\<rparr>"
  have r: "registry_ok (endpoints c @ [data_ep a h1 None])"
    "registry_ok (endpoints c @ [data_ep a h1 None, data_ep b h2 None])"
    "registry_ok (endpoints c @ [data_ep a h1 None, data_ep b h2 None, data_ep d h3 None])"
    using reg unfolding eps by (auto simp: registry_ok_def)
  have last: "wp (protocomm_add_endpoint (Some p) (Some d) (Some h3) None) ?Q t"
    if "build_frame p s t" "pcs t p = Some (?es 2)" for t
    using that r(3) by (auto simp: add_endpoint_step eps build_frame_pc intro: exI [of _ 3])
  have mid: "wp (chk (protocomm_add_endpoint (Some p) (Some b) (Some h2) None)
      (protocomm_add_endpoint (Some p) (Some d) (Some h3) None)) ?Q t"
    if "build_frame p s t" "pcs t p = Some (?es 1)" for t
    using that r(2) by (simp add: add_endpoint_step eps) (rule last [unfolded eps], simp_all add: build_frame_pc)
  have rest: "wp (chk conf (chk (protocomm_add_endpoint (Some p) (Some b) (Some h2) None)
      (protocomm_add_endpoint (Some p) (Some d) (Some h3) None))) ?Q t"
    if "build_frame p s t" "pcs t p = Some (?es 1)" for t
    unfolding wp_chk [of conf]
    by (rule wp_mono [OF conf]) (use that mid in \<open>auto simp del: wp_chk dest: build_frame_trans\<close>)
  show ?thesis
    unfolding wp_chk [of init] wp_chk [of "protocomm_add_endpoint (Some p) (Some a) _ _"]
    by (rule wp_mono [OF init])
      (use c r(1) in \<open>auto simp: add_endpoint_step build_frame_pc eps simp del: wp_chk intro!: rest [unfolded eps]\<close>)
qed

lemma net_init_spec:
  assumes c: "pcs s p = Some c" and reg: "registry_ok (endpoints c @ net_eps E)"
  shows "wp (net_endpoints_init E (Some p)) (\<lambda>r s'. build_frame p s s' \<and> (\<not> NETWORK_TYPE_THREAD (cfg E) \<longrightarrow> r = 0) \<and>
     (\<exists>k. pcs s' p = Some (c\<lparr>endpoints := endpoints c @ take k (net_eps E)\<rparr>) \<and> (r = 0 \<longrightarrow> k = 3))) s"
proof -
  have attempts: "wp (do { n \<leftarrow> gets (\<lambda>s. wifi_conn_attempts (mgr s)); network_prov_wifi_config_init n })
      (\<lambda>r s'. build_frame p s s' \<and> pcs s' = pcs s \<and> (\<not> NETWORK_TYPE_THREAD (cfg E) \<longrightarrow> r = 0)) s" for s
    by simp (rule wp_mono [OF net_ops_frame(3)], simp)
  have thread: "wp (network_prov_thread_config_init E)
      (\<lambda>r s'. build_frame p s s' \<and> pcs s' = pcs s \<and> (\<not> NETWORK_TYPE_THREAD (cfg E) \<longrightarrow> r = 0)) s"
    if "NETWORK_TYPE_THREAD (cfg E)" for s
    by (rule wp_mono [OF net_ops_frame(7)]) (use that in simp)
  show ?thesis
  proof (cases "NETWORK_TYPE_THREAD (cfg E)")
    case True
    then show ?thesis
      unfolding net_endpoints_init_def if_P [OF True] by (intro add_net_endpoints assms net_ops_frame thread) (simp_all add: net_eps_def)
  next
    case False
    then show ?thesis
      unfolding net_endpoints_init_def if_not_P [OF False] by (intro add_net_endpoints assms attempts net_ops_frame) (simp add: net_eps_def)
  qed
qed

lemma net_deinit_spec: "wp (net_endpoints_deinit E) (\<lambda>_ s'. build_frame p s s' \<and> pcs s' = pcs s) s"
proof -
  have "wp n (\<lambda>_ s'. build_frame p s s' \<and> pcs s' = pcs s) t"
    if "build_frame p s t \<and> pcs t = pcs s" "\<And>s. wp n (\<lambda>_ s'. build_frame p s s' \<and> pcs s' = pcs s) s" for n and t :: world
    by (rule wp_mono [OF that(2)]) (use that(1) in \<open>auto dest: build_frame_trans\<close>)
  then show ?thesis
    unfolding net_endpoints_deinit_def
    by (auto intro!: wp_mono [OF net_ops_frame(2)] wp_mono [OF net_ops_frame(6)] net_ops_frame)
qed

text \<open>The network handlers at rest: no callback is registered with the stack, no work item is armed and nothing is under way.\<close>

definition net_released :: "env \<Rightarrow> world \<Rightarrow> bool" where
  "net_released E s \<longleftrightarrow> (if NETWORK_TYPE_THREAD (cfg E)
     then \<not> tc_cb_registered (tc s) \<and> \<not> armed Attach_timeout (hist s) \<and> \<not> ts_in_progress (ts s)
     else \<not> wc_cb_registered (wc s) \<and> \<not> sc_cb_registered (sc s) \<and> \<not> armed Retry_work (hist s) \<and> inflight_ssid_len (wc s) = 0)"

lemma net_deinit_released: "wp (net_endpoints_deinit E) (\<lambda>_. net_released E) s"
  by (simp add: net_released_def net_endpoints_deinit_def network_prov_wifi_scan_deinit_def network_prov_wifi_config_deinit_def
      network_prov_thread_scan_deinit_def network_prov_thread_config_deinit_def)

section \<open>Start\<close>

text \<open>The instance after the first two steps, and an instance that is complete.\<close>

definition base_pc :: "network_prov_security \<Rightarrow> cstr \<Rightarrow> string \<Rightarrow> (security_ref, session_ctx, handler_ref, nat) protocomm" where
  "base_pc security popv vj = \<lparr>endpoints = base_eps,
     sec = Some (if security = NETWORK_PROV_SECURITY_1 then network_prov_security1 else network_prov_security0),
     pop = (if security = NETWORK_PROV_SECURITY_1 then popv else None), sec_ctx = None, version = Some vj\<rparr>"

definition service_pc ::
  "env \<Rightarrow> mgr_state \<Rightarrow> network_prov_security \<Rightarrow> cstr \<Rightarrow> string \<Rightarrow> (security_ref, session_ctx, handler_ref, nat) protocomm" where
  "service_pc E m security popv vj = (base_pc security popv vj)\<lparr>endpoints := service_eps E m\<rparr>"

lemma set_base_run:
  assumes "pcs s p = Some empty_protocomm"
  shows "wp (chk (protocomm_set_version (Some p) (Some EP_VERSION_NAME) (Some vj))
      (chk (protocomm_set_security (Some p) (Some EP_SESSION_NAME)
        (Some (if security = NETWORK_PROV_SECURITY_1 then network_prov_security1 else network_prov_security0))
        (if security = NETWORK_PROV_SECURITY_1 then popv else None)) n)) Q s =
    wp n Q (s\<lparr>pcs := (pcs s)(p \<mapsto> base_pc security popv vj)\<rparr>)"
  using assms
  by (simp add: protocomm_set_version_def protocomm_set_security_def wp_add_ep find_ep_def empty_protocomm_def
      base_pc_def base_eps_def)

lemma base_net_inv:
  assumes "mgr_ok E m" "config_ok E"
  shows "pc_inv ctx_sig ((base_pc security popv vj)\<lparr>endpoints := base_eps @ take k (net_eps E)\<rparr>)"
    "registry_ok (base_eps @ net_eps E)"
proof -
  have "registry_ok (base_eps @ net_eps E)"
    using service_registry [OF assms] registry_prefix [of "base_eps @ net_eps E"] by (simp add: service_eps_def)
  then show "registry_ok (base_eps @ net_eps E)" "pc_inv ctx_sig ((base_pc security popv vj)\<lparr>endpoints := base_eps @ take k (net_eps E)\<rparr>)"
    using registry_prefix [of "base_eps @ take k (net_eps E)" "drop k (net_eps E)"]
    by (auto simp: pc_inv_def base_pc_def base_eps_def net_eps_def dest!: in_set_takeD split: if_splits)
qed

lemma service_pc_live:
  assumes "mgr_ok E m" "config_ok E" "pcs s p = Some (service_pc E m security popv vj)"
  shows "pc_live E p s"
proof -
  have "pc_inv ctx_sig (service_pc E m security popv vj)"
    using service_registry [OF assms(1,2)]
    by (auto simp: pc_inv_def service_pc_def base_pc_def service_eps_def base_eps_def net_eps_def custom_eps_def)
  moreover have "callable E h (ep_priv ep)" if "ep \<in> set (service_eps E m)" "ep_handler ep = Some h" for ep h
    using that by (auto simp: service_eps_def base_eps_def net_eps_def custom_eps_def callable_def split: if_splits)
  ultimately show ?thesis
    using assms(3) by (auto simp: pc_live_def service_pc_def base_pc_def)
qed

text \<open>The laws of the three schemes, for the scheme that the manager was given.\<close>

fun scheme_bound :: "scheme_ref option \<Rightarrow> world \<Rightarrow> nat option" where
  "scheme_bound (Some network_prov_scheme_ble) s = ble_pc (ble s)"
| "scheme_bound (Some network_prov_scheme_softap) s = sap_pc (sap s)"
| "scheme_bound (Some network_prov_scheme_console) s = con_pc (con s)"
| "scheme_bound _ s = None"

text \<open>The invariants of the transports; the console holds an instance only while it is selected.\<close>

definition transports_ok :: "env \<Rightarrow> scheme_ref option \<Rightarrow> world \<Rightarrow> bool" where
  "transports_ok E x s \<longleftrightarrow> softap_inv (sap s) \<and> ble_inv E (ble s) \<and>
     (x = Some network_prov_scheme_console \<or> con_pc (con s) = None)"

lemma real_schemeE:
  assumes "real_scheme x"
  obtains "x = Some network_prov_scheme_ble" | "x = Some network_prov_scheme_softap" | "x = Some network_prov_scheme_console"
  using assms by (cases x) (auto simp: real_scheme_def elim: scheme_ref.exhaust)

text \<open>What becomes of the Bluetooth transport when the instance \<open>p\<close> is started over the scheme \<open>x\<close>: another
  scheme leaves it alone, its own start leaves the pointer in it whatever the result is.\<close>

definition ble_result :: "env \<Rightarrow> nat \<Rightarrow> scheme_ref option \<Rightarrow> int \<Rightarrow> world \<Rightarrow> world \<Rightarrow> bool" where
  "ble_result E p x r s s' \<longleftrightarrow> (if x = Some network_prov_scheme_ble
     then ble_pc (ble s') = Some p \<and> (ble_up E \<longrightarrow> r = 0) \<and> (ble_down E \<longrightarrow> r \<noteq> 0)
     else ble s' = ble s)"

text \<open>The same for a start that may fail before it reaches the transport; over Wi-Fi it does not.\<close>

definition ble_start_result :: "env \<Rightarrow> nat \<Rightarrow> scheme_ref option \<Rightarrow> int \<Rightarrow> world \<Rightarrow> world \<Rightarrow> bool" where
  "ble_start_result E p x r s s' \<longleftrightarrow> ble_result E p x r s s' \<or> NETWORK_TYPE_THREAD (cfg E) \<and> r \<noteq> 0 \<and> ble s' = ble s"

lemma scheme_start_law:
  assumes "real_scheme x" "pc_live E p s" "transports_ok E None s"
  shows "wp (scheme_start E x (Some p) name key) (\<lambda>r s'. start_frame s s' \<and>
     transports_ok E (if r = 0 then x else None) s' \<and> (r = 0 \<longrightarrow> scheme_bound x s' = Some p) \<and> ble_result E p x r s s') s"
  using assms(1)
proof (cases rule: real_schemeE)
  case 1
  with assms(2,3) show ?thesis by (auto intro!: wp_mono [OF ble_start_spec] simp: transports_ok_def ble_frame_def ble_result_def)
next
  case 2
  with assms(2,3) show ?thesis by (auto intro!: wp_mono [OF softap.start_law] simp: transports_ok_def ble_result_def)
next
  case 3
  with assms(2,3) show ?thesis by (simp add: console_scheme_start_def network_prov_console_start_def transports_ok_def ble_result_def)
qed

lemma scheme_stop_law:
  assumes "real_scheme x" "pc_live E p s" "transports_ok E x s" "scheme_bound x s = Some p"
  shows "wp (scheme_stop E x) (\<lambda>_ s'. stop_frame E p s s' \<and> transports_ok E None s' \<and> scheme_bound x s' = None \<and>
     (x \<noteq> Some network_prov_scheme_ble \<longrightarrow> ble s' = ble s)) s"
  using assms(1)
proof (cases rule: real_schemeE)
  case 1
  with assms show ?thesis by (auto intro!: wp_mono [OF ble.stop_law] simp: transports_ok_def)
next
  case 2
  with assms show ?thesis by (auto intro!: wp_mono [OF softap.stop_law] simp: transports_ok_def)
next
  case 3
  with assms show ?thesis by (auto intro!: wp_mono [OF console.stop_law] simp: transports_ok_def)
qed

text \<open>The steps of a start on a fresh instance \<open>p\<close>: on success the instance is complete and bound to
  the transport; on failure it is still an instance without a session, which \<open>protocomm_delete\<close> can free.\<close>

definition started_as :: "env \<Rightarrow> network_prov_security \<Rightarrow> cstr \<Rightarrow> nat \<Rightarrow> world \<Rightarrow> world \<Rightarrow> bool" where
  "started_as E security popv p s s' \<longleftrightarrow>
     pcs s' p = Some (service_pc E (mgr s) security popv (version_json (mgr s))) \<and>
     scheme_bound (scheme (mgr s)) s' = Some p"

definition unwindable :: "nat \<Rightarrow> world \<Rightarrow> bool" where
  "unwindable p s \<longleftrightarrow> (\<exists>c. pcs s p = Some c \<and> pc_inv ctx_sig c \<and> sec_ctx c = None)"

definition construct_frame :: "env \<Rightarrow> scheme_ref option \<Rightarrow> nat \<Rightarrow> world \<Rightarrow> world \<Rightarrow> bool" where
  "construct_frame E x p s s' \<longleftrightarrow> mgr s' = mgr s \<and> fault s' = fault s \<and> blocks (hist s') = blocks (hist s) \<and>
     (\<forall>q. q \<noteq> p \<longrightarrow> pcs s' q = pcs s q) \<and> transports_ok E x s'"

lemma service_unwindable:
  assumes "mgr_ok E m" "config_ok E" "pcs s p = Some (service_pc E m security popv vj)"
  shows "unwindable p s"
  using service_pc_live [OF assms] assms(3) by (auto simp: unwindable_def pc_live_def service_pc_def base_pc_def)

lemma start_service_spec:
  assumes "pcs s p = Some empty_protocomm" "mgr_ok E (mgr s)" "config_ok E" "inited (mgr s)"
    "transports_ok E None s"
  shows "wp (start_service E security popv name key (Some p)) (\<lambda>r s'. construct_frame E (if r = 0 then scheme (mgr s) else None) p s s' \<and> unwindable p s' \<and>
     (r = 0 \<longrightarrow> started_as E security popv p s s') \<and> ble_start_result E p (scheme (mgr s)) r s s') s"
  (is "wp _ ?Q s")
proof -
  let ?vj = "version_json (mgr s)" and ?m = "mgr s"
  let ?b = "base_pc security popv ?vj"
  have real: "real_scheme (scheme ?m)" using assms(2,4) by (simp add: mgr_ok_def)
  have b: "endpoints ?b = base_eps" by (simp add: base_pc_def)
  have start: "wp (scheme_start E (scheme ?m) (Some p) name key) ?Q t"
    if t: "construct_frame E None p s t" "pcs t p = Some (service_pc E ?m security popv ?vj)" "ble t = ble s" for t
    by (rule wp_mono [OF scheme_start_law [OF real service_pc_live [OF assms(2,3) t(2)]]])
      (use t service_unwindable [OF assms(2,3)] in \<open>auto simp: construct_frame_def start_frame_def same_objects_def started_as_def ble_start_result_def ble_result_def\<close>)
  have custom: "wp (chk (add_custom (Some p) [0..<MAX_CUSTOM_ENDPOINTS (cfg E)]) (scheme_start E (scheme ?m) (Some p) name key)) ?Q t"
    if t: "construct_frame E None p s t" "pcs t p = Some (?b\<lparr>endpoints := base_eps @ net_eps E\<rparr>)" "ble t = ble s" for t
  proof -
    have m: "mgr t = ?m" using t(1) by (simp add: construct_frame_def)
    have reg: "registry_ok (endpoints (?b\<lparr>endpoints := base_eps @ net_eps E\<rparr>) @
        custom_eps (custom (mgr t)) [0..<MAX_CUSTOM_ENDPOINTS (cfg E)])"
      using service_registry [OF assms(2,3)] by (simp add: m service_eps_def)
    show ?thesis
      unfolding wp_chk add_custom_run [OF t(2) reg]
      by simp (rule start, use t(1,3) m in \<open>auto simp: construct_frame_def transports_ok_def service_pc_def service_eps_def\<close>)
  qed
  have net: "wp (chk (net_endpoints_init E (Some p)) (chk (add_custom (Some p) [0..<MAX_CUSTOM_ENDPOINTS (cfg E)])
      (scheme_start E (scheme ?m) (Some p) name key))) ?Q (s\<lparr>pcs := (pcs s)(p \<mapsto> ?b)\<rparr>)"
    unfolding wp_chk [of "net_endpoints_init _ _"]
  proof (rule wp_mono [OF net_init_spec])
    show "pcs (s\<lparr>pcs := (pcs s)(p \<mapsto> ?b)\<rparr>) p = Some ?b" by simp
    show "registry_ok (endpoints ?b @ net_eps E)" unfolding b by (rule base_net_inv [OF assms(2,3)])
    fix r :: int and t
    assume t: "build_frame p (s\<lparr>pcs := (pcs s)(p \<mapsto> ?b)\<rparr>) t \<and> (\<not> NETWORK_TYPE_THREAD (cfg E) \<longrightarrow> r = 0) \<and> (\<exists>k. pcs t p = Some (?b\<lparr>endpoints := endpoints ?b @
      take k (net_eps E)\<rparr>) \<and> (r = 0 \<longrightarrow> k = 3))"
    then obtain k where k: "pcs t p = Some (?b\<lparr>endpoints := base_eps @ take k (net_eps E)\<rparr>)" "r = 0 \<longrightarrow> k = 3"
      unfolding b by blast
    have all: "take 3 (net_eps E) = net_eps E" by (simp add: net_eps_def)
    have bl: "ble t = ble s" using t by (simp add: build_frame_def statics_def)
    have fr: "construct_frame E None p s t"
      using t assms(5) by (auto simp: build_frame_def construct_frame_def statics_def transports_ok_def)
    moreover have "unwindable p t"
      using k(1) base_net_inv(1) [OF assms(2,3)] by (auto simp: unwindable_def base_pc_def)
    ultimately show "(if r \<noteq> 0 then ?Q r else wp (chk (add_custom (Some p) [0..<MAX_CUSTOM_ENDPOINTS (cfg E)])
        (scheme_start E (scheme ?m) (Some p) name key)) ?Q) t"
      using custom [OF fr _ bl] k all t bl by (auto simp del: wp_chk simp: ble_start_result_def)
  qed
  show ?thesis
    unfolding start_service_def wp_bind wp_gets set_base_run [OF assms(1)] by (rule net)
qed

lemma service_eps_mgr [simp]:
  "service_eps E (m\<lparr>mgr_pc := x\<rparr>) = service_eps E m" "service_eps E (m\<lparr>version_json := v\<rparr>) = service_eps E m"
  "mgr_ok E (m\<lparr>mgr_pc := x\<rparr>) = mgr_ok E m" "mgr_ok E (m\<lparr>version_json := v\<rparr>) = mgr_ok E m"
  by (simp_all add: service_eps_def mgr_ok_def)

lemma transports_ok_simps [simp]:
  "transports_ok E x (s\<lparr>hist := h\<rparr>) = transports_ok E x s" "transports_ok E x (s\<lparr>mgr := m\<rparr>) = transports_ok E x s"
  "transports_ok E x (s\<lparr>pcs := f\<rparr>) = transports_ok E x s"
  by (simp_all add: transports_ok_def)

lemma scheme_bound_simps [simp]:
  "scheme_bound x (s\<lparr>hist := h\<rparr>) = scheme_bound x s" "scheme_bound x (s\<lparr>mgr := m\<rparr>) = scheme_bound x s"
  by (induction x s rule: scheme_bound.induct) simp_all

text \<open>The error exit of a start.\<close>

lemma unwind_spec:
  assumes "unwindable p s"
  shows "wp (do { net_endpoints_deinit E; protocomm_delete (prog_link E) (Some p);
       upd_mgr (\<lambda>m. m\<lparr>mgr_pc := None\<rparr>); ret r }) (\<lambda>r' s'. r' = r \<and> mgr s' = (mgr s)\<lparr>mgr_pc := None\<rparr> \<and>
     pcs s' = (pcs s)(p := None) \<and> fault s' = fault s \<and> blocks (hist s') = blocks (hist s) - 1 \<and>
     (\<forall>x. transports_ok E x s' = transports_ok E x s) \<and> net_released E s' \<and> ble s' = ble s) s"
proof -
  obtain c where c: "pcs s p = Some c" "pc_inv ctx_sig c" "sec_ctx c = None" using assms by (auto simp: unwindable_def)
  have del: "wp (protocomm_delete (prog_link E) (Some p)) (\<lambda>_ s'. pcs s' = (pcs t)(p := None) \<and> fault s' = fault t \<and>
      blocks (hist s') = blocks (hist t) - 1 \<and> statics s' = statics t) t" if "pcs t p = Some c" for t
    by (rule wp_mono [OF wp_conj [OF prog.delete_spec [OF that c(2)] wp_statics(4)]])
      (simp add: pc_owned_def c(3))
  have rel: "wp (protocomm_delete (prog_link E) (Some p)) (\<lambda>_. net_released E) t" if "pcs t p = Some c" "net_released E t" for t
    using that c(3) by (auto simp: protocomm_delete_def protocomm_close_session_def with_pc_def net_released_def split: option.split)
  have gone: "wp (protocomm_delete (prog_link E) (Some p)) (\<lambda>_ s'. (pcs s' = (pcs t)(p := None) \<and> fault s' = fault t \<and>
      blocks (hist s') = blocks (hist t) - 1 \<and> statics s' = statics t) \<and> net_released E s') t"
    if "pcs t p = Some c" "net_released E t" for t
    by (rule wp_conj [OF del [OF that(1)] rel [OF that]])
  show ?thesis
    unfolding wp_bind [of "net_endpoints_deinit E"]
    by (rule wp_mono [OF wp_conj [OF net_deinit_spec [of E p] net_deinit_released]], simp, rule wp_mono [OF gone])
      (use c in \<open>auto simp: build_frame_def statics_def transports_ok_def net_released_def\<close>)
qed

lemma build_version_changes:
  "wp (build_version_json E security popv) (\<lambda>_ s'. \<exists>vj. s' = s\<lparr>mgr := (mgr s)\<lparr>version_json := vj\<rparr>\<rparr>) s"
  by (auto simp: build_version_json_def Let_def)

definition start_result ::
  "env \<Rightarrow> network_prov_security \<Rightarrow> cstr \<Rightarrow> world \<Rightarrow> int \<Rightarrow> world \<Rightarrow> bool" where
  "start_result E security popv s r s' \<longleftrightarrow> fault s' = fault s \<and>
     transports_ok E (if r = 0 then scheme (mgr s) else None) s' \<and>
     (if r = 0
      then \<exists>p vj. mgr s' = (mgr s)\<lparr>mgr_pc := Some p, version_json := vj, started := True\<rparr> \<and>
        pcs s' = [p \<mapsto> service_pc E (mgr s) security popv vj] \<and> blocks (hist s') = blocks (hist s) + 1 \<and>
        scheme_bound (scheme (mgr s)) s' = Some p
      else (\<exists>vj. mgr s' = (mgr s)\<lparr>mgr_pc := None, version_json := vj\<rparr>) \<and> pcs s' = (\<lambda>_. None) \<and>
        blocks (hist s') = blocks (hist s) \<and> (net_released E s \<longrightarrow> net_released E s')) \<and>
     (if malloc_ok (kern E) (hist s) (sizeof_protocomm (cfg E))
      then \<exists>p. ble_start_result E p (scheme (mgr s)) r s s' else r \<noteq> 0 \<and> ble s' = ble s)"

lemma finish_start:
  assumes s: "mgr_ok E (mgr s)" "config_ok E" "inited (mgr s)"
    and t: "mgr t = (mgr s)\<lparr>mgr_pc := Some p, version_json := vj\<rparr>" "pcs t = [p \<mapsto> empty_protocomm]" "fault t = fault s"
      "blocks (hist t) = blocks (hist s) + 1" "transports_ok E None t" "ble t = ble s"
    and room: "malloc_ok (kern E) (hist s) (sizeof_protocomm (cfg E))"
  shows "wp (do { r \<leftarrow> start_service E security popv name key (Some p);
      if r \<noteq> 0 then do { net_endpoints_deinit E; protocomm_delete (prog_link E) (Some p);
        upd_mgr (\<lambda>m. m\<lparr>mgr_pc := None\<rparr>); ret r }
      else do { upd_mgr (\<lambda>m. m\<lparr>started := True\<rparr>); network_prov_emit_event E NETWORK_PROV_START; ret 0 } })
    (start_result E security popv s) t"
  (is "wp _ ?Q t")
  unfolding wp_bind [of "start_service _ _ _ _ _ _"]
proof (rule wp_mono [OF start_service_spec])
  fix r :: int and u :: world
  assume u: "construct_frame E (if r = 0 then scheme (mgr t) else None) p t u \<and> unwindable p u \<and>
    (r = 0 \<longrightarrow> started_as E security popv p t u) \<and> ble_start_result E p (scheme (mgr t)) r t u"
  have left: "\<exists>p. ble_start_result E p (scheme (mgr s)) r s v" if "ble v = ble u" for v
    using u t(1,6) that by (intro exI [of _ p]) (auto simp: ble_start_result_def ble_result_def)
  have "q \<noteq> p \<Longrightarrow> pcs u q = None" for q using u t(2) by (simp add: construct_frame_def)
  then have none: "pcs u = [p \<mapsto> c]" if "pcs u p = Some c" for c using that by (auto simp: fun_eq_iff)
  have gone: "(pcs u)(p := None) = (\<lambda>_. None)" using u t(2) by (auto simp: construct_frame_def fun_eq_iff)
  have mu: "mgr u = mgr t" "fault u = fault t" "blocks (hist u) = blocks (hist t)" "transports_ok E (if r = 0 then scheme (mgr t) else None) u"
    using u by (simp_all add: construct_frame_def)
  show "wp (if r \<noteq> 0 then do { net_endpoints_deinit E; protocomm_delete (prog_link E) (Some p);
      upd_mgr (\<lambda>m. m\<lparr>mgr_pc := None\<rparr>); ret r }
    else do { upd_mgr (\<lambda>m. m\<lparr>started := True\<rparr>); network_prov_emit_event E NETWORK_PROV_START; ret 0 }) ?Q u"
  proof (cases "r = 0")
    case True
    with u have "started_as E security popv p t u" by simp
    with True mu t none room left show ?thesis
      by (simp add: start_result_def started_as_def service_pc_def) (rule exI [of _ vj], simp)
  next
    case False
    have "wp (do { net_endpoints_deinit E; protocomm_delete (prog_link E) (Some p);
        upd_mgr (\<lambda>m. m\<lparr>mgr_pc := None\<rparr>); ret r }) ?Q u"
    proof (rule wp_mono [OF unwind_spec])
      show "unwindable p u" using u by simp
      fix r' and v :: world
      assume "r' = r \<and> mgr v = (mgr u)\<lparr>mgr_pc := None\<rparr> \<and> pcs v = (pcs u)(p := None) \<and> fault v = fault u \<and>
        blocks (hist v) = blocks (hist u) - 1 \<and> (\<forall>x. transports_ok E x v = transports_ok E x u) \<and> net_released E v \<and> ble v = ble u"
      with False mu t(1,3,4) room left show "?Q r' v" by (simp add: start_result_def gone) (rule exI [of _ vj], simp)
    qed
    with False show ?thesis by (simp del: wp_bind)
  qed
qed (use s t in simp_all)

lemma start_spec:
  assumes "mgr_ok E (mgr s)" "config_ok E" "inited (mgr s)" "\<not> started (mgr s)" "pcs s = (\<lambda>_. None)"
    "transports_ok E None s"
  shows "wp (network_prov_mgr_start_provisioning E security popv name key) (start_result E security popv s) s"
proof -
  let ?p = "length (hist s)"
  have fresh: "((\<lambda>_. None)(?p \<mapsto> empty_protocomm)) = [?p \<mapsto> empty_protocomm]" by simp
  show ?thesis
  proof (cases "malloc_ok (kern E) (hist s) (sizeof_protocomm (cfg E))")
    case True
    show ?thesis
      unfolding network_prov_mgr_start_provisioning_def protocomm_new_def
      using assms True
      by (simp del: wp_bind add: wp_bind [of "gets _"] wp_bind [of "k_malloc _ _"] wp_bind [of "upd_mgr _"]
            wp_bind [of "modify _"] wp_bind [of "do { ok \<leftarrow> k_malloc _ _; _ ok }"] wp_bind [of "do { a \<leftarrow> gets _; _ a }"]
            wp_bind [of "build_version_json _ _ _"])
        (rule wp_mono [OF build_version_changes], elim exE, hypsubst, rule finish_start, use assms in \<open>auto simp: start_result_def\<close>)
  next
    case False
    with assms show ?thesis
      by (auto simp: network_prov_mgr_start_provisioning_def protocomm_new_def start_result_def net_released_def
          intro: exI [of _ "version_json (mgr s)"])
  qed
qed

section \<open>Teardown\<close>

lemma statics_transports:
  assumes "statics u = statics t"
  shows "transports_ok E x u = transports_ok E x t" "scheme_bound x u = scheme_bound x t"
proof -
  have eq: "con u = con t" "sap u = sap t" "ble u = ble t" using assms by (simp_all add: statics_def)
  show "transports_ok E x u = transports_ok E x t" by (simp add: transports_ok_def eq)
  show "scheme_bound x u = scheme_bound x t" by (cases "(x, u)" rule: scheme_bound.cases) (simp_all add: eq)
qed

lemma teardown_spec:
  assumes "started (mgr s)" "mgr_pc (mgr s) = Some p" "pc_live E p s" "real_scheme (scheme (mgr s))"
    "scheme_bound (scheme (mgr s)) s = Some p" "transports_ok E (scheme (mgr s)) s"
  shows "wp (do_teardown E) (\<lambda>_ s'. mgr s' = (mgr s)\<lparr>mgr_pc := None, started := False\<rparr> \<and> pcs s' = (pcs s)(p := None) \<and>
     fault s' = fault s \<and> blocks (hist s') = balance p s - 1 \<and> transports_ok E None s' \<and>
     scheme_bound (scheme (mgr s)) s' = None \<and> (scheme (mgr s) \<noteq> Some network_prov_scheme_ble \<longrightarrow> ble s' = ble s) \<and>
     (event_cb (mgr s) \<longrightarrow> (\<exists>es. app_events (hist s') = NETWORK_PROV_END # es))) s"
proof -
  have del: "wp (protocomm_delete (prog_link E) (Some p)) (\<lambda>_ s'. pcs s' = (pcs t)(p := None) \<and> fault s' = fault t \<and>
      blocks (hist s') = balance p t - 1 \<and> statics s' = statics t) t" if "pc_live E p t" for t
  proof -
    from that obtain c where c: "pcs t p = Some c" "pc_inv ctx_sig c" by (auto simp: pc_live_def)
    show ?thesis
      by (rule wp_mono [OF wp_conj [OF prog.delete_spec [OF c] wp_statics(4)]])
        (simp add: pc_owned_def balance_def c(1))
  qed
  have rest: "wp (do { net_endpoints_deinit E; protocomm_delete (prog_link E) (Some p) }) (\<lambda>_ s'. pcs s' = (pcs s)(p := None) \<and>
      fault s' = fault s \<and> blocks (hist s') = balance p s - 1 \<and> mgr s' = mgr s \<and> transports_ok E None s' \<and>
      scheme_bound (scheme (mgr s)) s' = None \<and> ble s' = ble t) t"
    if t: "stop_frame E p s t" "transports_ok E None t" "scheme_bound (scheme (mgr s)) t = None" for t
    unfolding wp_bind
  proof (rule wp_mono [OF net_deinit_spec [of E p]])
    fix a and u :: world
    assume u: "build_frame p t u \<and> pcs u = pcs t"
    then have st: "statics u = statics t" and pu: "pcs u = pcs t" "fault u = fault t" "blocks (hist u) = blocks (hist t)"
      by (simp_all add: build_frame_def)
    have u: "pc_live E p u" "balance p u = balance p s" "fault u = fault s"
      using t(1) pu by (simp_all add: stop_frame_def pc_live_def balance_def)
    have m: "mgr u = mgr s" using t(1) st by (simp add: stop_frame_def statics_def)
    have del_p: "(pcs u)(p := None) = (pcs s)(p := None)" using t(1) pu(1) by (auto simp: stop_frame_def)
    show "wp (protocomm_delete (prog_link E) (Some p)) (\<lambda>_ s'. pcs s' = (pcs s)(p := None) \<and>
        fault s' = fault s \<and> blocks (hist s') = balance p s - 1 \<and> mgr s' = mgr s \<and> transports_ok E None s' \<and>
        scheme_bound (scheme (mgr s)) s' = None \<and> ble s' = ble t) u"
    proof (rule wp_mono [OF del [OF u(1)]])
      fix b and v :: world
      assume v: "pcs v = (pcs u)(p := None) \<and> fault v = fault u \<and> blocks (hist v) = balance p u - 1 \<and> statics v = statics u"
      then have sv: "statics v = statics t" "mgr v = mgr s" using st m by (simp_all add: statics_def)
      from v u m del_p t(2,3) sv statics_transports [OF sv(1)] show "pcs v = (pcs s)(p := None) \<and> fault v = fault s \<and>
          blocks (hist v) = balance p s - 1 \<and> mgr v = mgr s \<and> transports_ok E None v \<and>
          scheme_bound (scheme (mgr s)) v = None \<and> ble v = ble t"
        by (simp add: statics_def)
    qed
  qed
  show ?thesis
    unfolding do_teardown_def using assms(1,2)
    by (simp, intro wp_mono [OF scheme_stop_law [OF assms(4,3,6,5)]])
      (simp, rule wp_mono [OF rest [unfolded wp_bind]], simp_all, erule wp_mono, auto)
qed

section \<open>Properties\<close>

text \<open>C7. A start is all or nothing for the manager. Whatever the stacks answer, it either returns 0 with a running
  service, one instance on the heap that has exactly the five built-in endpoints and the application's
  endpoints and that the chosen transport holds, or it returns an error with no instance, no heap block
  and no started service left, with the network handlers at rest (no callback registered, no work item armed, nothing under
  way) and with the console holding no instance. The statics of the Bluetooth and the access point transport are not
  part of it: on some failures they keep the pointer to the freed instance.\<close>

theorem mgr_start_all_or_nothing:
  assumes "mgr_ok E (mgr s)" and "config_ok E" and "inited (mgr s)" and "\<not> started (mgr s)" and "pcs s = (\<lambda>_. None)"
    and "transports_ok E None s" and "net_released E s"
  shows "wp (network_prov_mgr_start_provisioning E security popv name key) (\<lambda>r s'. fault s' = fault s \<and>
     (if r = 0
      then started (mgr s') \<and> (\<exists>p c. mgr_pc (mgr s') = Some p \<and> pcs s' = [p \<mapsto> c] \<and> pc_live E p s' \<and>
        endpoints c = service_eps E (mgr s) \<and> sec_ctx c = None \<and>
        blocks (hist s') = blocks (hist s) + 1 \<and> scheme_bound (scheme (mgr s)) s' = Some p)
      else \<not> started (mgr s') \<and> mgr_pc (mgr s') = None \<and> pcs s' = (\<lambda>_. None) \<and> blocks (hist s') = blocks (hist s) \<and>
        net_released E s' \<and> con_pc (con s') = None)) s"
  (is "wp _ ?Q s")
proof (rule wp_mono [OF start_spec [OF assms(1-6)]])
  fix r s'
  assume r: "start_result E security popv s r s'"
  have live: "pc_live E p s'" if "pcs s' = [p \<mapsto> service_pc E (mgr s) security popv vj]" for p vj
    by (rule service_pc_live [OF assms(1,2)]) (simp add: that)
  show "?Q r s'"
  proof (cases "r = 0")
    case True
    with r obtain p vj where p: "mgr s' = (mgr s)\<lparr>mgr_pc := Some p, version_json := vj, started := True\<rparr>"
      "pcs s' = [p \<mapsto> service_pc E (mgr s) security popv vj]" "blocks (hist s') = blocks (hist s) + 1"
      "scheme_bound (scheme (mgr s)) s' = Some p" "fault s' = fault s"
      by (auto simp: start_result_def)
    with True live [OF p(2)] show ?thesis
      by (auto intro!: exI [of _ "service_pc E (mgr s) security popv vj"] simp: service_pc_def base_pc_def)
  qed (use r assms(4,7) in \<open>auto simp: start_result_def transports_ok_def\<close>)
qed

definition ready_world :: world where
  "ready_world = (boot_world ok_env)\<lparr>mgr := (mgr_zero ok_env)\<lparr>inited := True, scheme := Some network_prov_scheme_softap\<rparr>\<rparr>"

theorem mgr_start_all_or_nothing_witness:
  "wp (network_prov_mgr_start_provisioning ok_env NETWORK_PROV_SECURITY_1 (Some ''abcd1234'') (Some ''PROV'') None)
    (\<lambda>r s'. if r = 0 then started (mgr s') else pcs s' = (\<lambda>_. None)) ready_world"
proof -
  have ok: "mgr_ok ok_env (mgr ready_world)" "config_ok ok_env" "inited (mgr ready_world)" "\<not> started (mgr ready_world)"
    "pcs ready_world = (\<lambda>_. None)" "transports_ok ok_env None ready_world" "net_released ok_env ready_world"
    by (auto simp: ready_world_def mgr_ok_def mgr_zero_def custom_ok_def no_custom_def info_of_def plain_info_def sections_def real_scheme_def
        config_ok_def net_released_def wc_zero_def
        ok_env_def ok_cfg_def boot_world_def transports_ok_def softap_inv_def ble_inv_def prov_service_uuid_def
        intro: exI [of _ None])
  show ?thesis
    by (rule wp_mono [OF mgr_start_all_or_nothing [OF ok]]) (simp split: if_splits)
qed

end
