(* ===== verification/System.thy ===== *)
theory System
  imports Service
begin

text \<open>
  The whole program as a state machine. Its steps are the calls of the application, the callbacks of
  the transports and of the network stacks and the work items of the kernel, in any order. The invariant
  says that the program never dereferences a wrong object and that its heap consists of exactly the
  running service.
\<close>

section \<open>Steps\<close>

datatype api_call =
    Mgr_init network_prov_mgr_config
  | Mgr_deinit
  | Mgr_start network_prov_security cstr cstr cstr
  | Mgr_stop
  | Mgr_is_provisioned bool
  | Mgr_wait
  | Mgr_disable_auto_stop u32
  | Mgr_set_app_info cstr cstr "cstr list option" nat
  | Mgr_endpoint_create cstr
  | Mgr_endpoint_register cstr "nat option" nat
  | Mgr_endpoint_unregister cstr
  | Mgr_reset_provisioning
  | Mgr_reset_on_failure
  | Mgr_reset_for_reprovision
  | Mgr_configure_wifi_sta cstr cstr
  | Ble_set_service_uuid "bytes option"
  | Ble_set_mfg_data "bytes option" nat

definition forget :: "'a prog \<Rightarrow> unit prog" where
  "forget m = do { _ \<leftarrow> m; ret () }"

fun api_run :: "env \<Rightarrow> api_call \<Rightarrow> unit prog" where
  "api_run E (Mgr_init c) = forget (network_prov_mgr_init E c)"
| "api_run E Mgr_deinit = network_prov_mgr_deinit E"
| "api_run E (Mgr_start v popv name key) = forget (network_prov_mgr_start_provisioning E v popv name key)"
| "api_run E Mgr_stop = network_prov_mgr_stop_provisioning E"
| "api_run E (Mgr_is_provisioned ptr) = forget (network_prov_mgr_is_provisioned E ptr)"
| "api_run E Mgr_wait = ext_call (Kern (K_sem_take Mgr_done K_FOREVER))"
| "api_run E (Mgr_disable_auto_stop n) = forget (network_prov_mgr_disable_auto_stop n)"
| "api_run E (Mgr_set_app_info l v cs n) = forget (network_prov_mgr_set_app_info l v cs n)"
| "api_run E (Mgr_endpoint_create n) = forget (network_prov_mgr_endpoint_create n)"
| "api_run E (Mgr_endpoint_register n f x) = forget (network_prov_mgr_endpoint_register n f x)"
| "api_run E (Mgr_endpoint_unregister n) = forget (network_prov_mgr_endpoint_unregister n)"
| "api_run E Mgr_reset_provisioning = forget (network_prov_mgr_reset_wifi_provisioning E)"
| "api_run E Mgr_reset_on_failure = forget (network_prov_mgr_reset_wifi_sm_state_on_failure E)"
| "api_run E Mgr_reset_for_reprovision = forget (network_prov_mgr_reset_wifi_sm_state_for_reprovision E)"
| "api_run E (Mgr_configure_wifi_sta a b) = forget (network_prov_mgr_configure_wifi_sta E a b)"
| "api_run E (Ble_set_service_uuid u) = forget (network_prov_scheme_ble_set_service_uuid u)"
| "api_run E (Ble_set_mfg_data d n) = forget (network_prov_scheme_ble_set_mfg_data d n)"

datatype prog_event =
    Api api_call
  | Teardown_due
  | Shell string string string
  | Http http_callback
  | Gatt ble_event
  | Wifi_connect_event wifi_event
  | Wifi_scan_ev wifi_scan_event
  | Retry_due
  | Thread_role_changed bool
  | Attach_due
  | Discover_result "otActiveScanResult option"
  | Own_call call

fun event_run :: "env \<Rightarrow> prog_event \<Rightarrow> unit prog" where
  "event_run E (Api c) = api_run E c"
| "event_run E Teardown_due = teardown_work_fn E"
| "event_run E (Shell ep n hex) = forget (cmd_net_prov E ep n hex)"
| "event_run E (Http c) = http_callback_run E c"
| "event_run E (Gatt ev) = ble_event_run E ev"
| "event_run E (Wifi_connect_event ev) = wifi_config_mgmt_event E ev"
| "event_run E (Wifi_scan_ev ev) = wifi_scan_mgmt_event E ev"
| "event_run E Retry_due = retry_work_handler E"
| "event_run E (Thread_role_changed rc) = ot_state_changed E rc"
| "event_run E Attach_due = run_attach_timeout E"
| "event_run E (Discover_result r) = discover_cb E r"
| "event_run E (Own_call c) = ext_call c"

text \<open>A call that the application makes for itself, not through the manager: it connects, waits for
  its own semaphore, sleeps or runs OpenThread.\<close>

fun own_call :: "call \<Rightarrow> bool" where
  "own_call (Kern (K_sem_reset m)) = (m = Conn_result_sem)"
| "own_call (Kern (K_sem_give m)) = (m = Conn_result_sem)"
| "own_call (Kern (K_sem_take m t)) = (m = Conn_result_sem)"
| "own_call (Kern (K_sleep ms)) = True"
| "own_call (Wifi (Net_add_event_callback c)) = (c = Conn_cb)"
| "own_call (Wifi (Net_del_event_callback c)) = (c = Conn_cb)"
| "own_call (Wifi (Wifi_connect i p)) = True"
| "own_call (Wifi (Wifi_connect_no_iface p)) = True"
| "own_call (Ot Ot_run) = True"
| "own_call _ = False"

text \<open>When a callback is taken: the HTTP server calls back while the service runs over it (its start is the last step
  of the transport's start), and GATT and connection callbacks are taken while the Bluetooth service runs or when the
  transport holds no instance. The stack delivers them in the remaining case too, after a start over Bluetooth that
  failed; that case is not part of the lawful steps here, and the runs below have it. A wait returns when its semaphore
  was given; here it may return at any time.\<close>

fun enabled :: "prog_event \<Rightarrow> world \<Rightarrow> bool" where
  "enabled (Http c) s = (started (mgr s) \<and> scheme (mgr s) = Some network_prov_scheme_softap)"
| "enabled (Gatt ev) s = (ble_pc (ble s) = None \<or> started (mgr s) \<and> scheme (mgr s) = Some network_prov_scheme_ble)"
| "enabled (Own_call c) s = own_call c"
| "enabled _ s = True"

inductive prog_step :: "env \<Rightarrow> world \<Rightarrow> world \<Rightarrow> bool" for E where
  "enabled ev s \<Longrightarrow> run_state (event_run E ev) s = (u, s') \<Longrightarrow> prog_step E s s'"

inductive reachable :: "env \<Rightarrow> world \<Rightarrow> bool" for E where
  boot: "reachable E (boot_world E)"
| step: "reachable E s \<Longrightarrow> prog_step E s s' \<Longrightarrow> reachable E s'"

inductive_cases prog_stepE: "prog_step E s s'"

text \<open>A run as the stacks can make it, with the callbacks of Bluetooth at any time; it records every step with the state
  in which the step was taken, the latest first.\<close>

fun can_occur :: "prog_event \<Rightarrow> world \<Rightarrow> bool" where
  "can_occur (Gatt ev) s = True"
| "can_occur ev s = enabled ev s"

inductive program_run :: "env \<Rightarrow> (prog_event \<times> world) list \<Rightarrow> world \<Rightarrow> bool" for E where
  boot: "program_run E [] (boot_world E)"
| step: "program_run E tr s \<Longrightarrow> can_occur ev s \<Longrightarrow> run_state (event_run E ev) s = (u, s') \<Longrightarrow> program_run E ((ev, s) # tr) s'"

section \<open>The invariant\<close>

definition running :: "env \<Rightarrow> nat \<Rightarrow> world \<Rightarrow> bool" where
  "running E p s \<longleftrightarrow> mgr_pc (mgr s) = Some p \<and> pc_live E p s \<and> balance p s = 1 \<and> (\<forall>q. q \<noteq> p \<longrightarrow> pcs s q = None) \<and>
     scheme_bound (scheme (mgr s)) s = Some p"

definition idle :: "world \<Rightarrow> bool" where
  "idle s \<longleftrightarrow> mgr_pc (mgr s) = None \<and> pcs s = (\<lambda>_. None) \<and> blocks (hist s) = 0"

text \<open>The Bluetooth transport holds an instance although no service runs over it.\<close>

definition ble_stale :: "world \<Rightarrow> bool" where
  "ble_stale s \<longleftrightarrow> ble_pc (ble s) \<noteq> None \<and> \<not> (started (mgr s) \<and> scheme (mgr s) = Some network_prov_scheme_ble)"

lemma ble_stale_simps [simp]:
  "ble_stale (s\<lparr>hist := h\<rparr>) = ble_stale s" "ble_stale (s\<lparr>pcs := f\<rparr>) = ble_stale s"
  by (simp_all add: ble_stale_def)

definition prog_inv :: "env \<Rightarrow> world \<Rightarrow> bool" where
  "prog_inv E s \<longleftrightarrow> \<not> fault s \<and> mgr_ok E (mgr s) \<and>
     transports_ok E (if started (mgr s) then scheme (mgr s) else None) s \<and>
     (ble_up E \<longrightarrow> \<not> ble_stale s) \<and>
     (if started (mgr s) then \<exists>p. running E p s else idle s)"

lemma prog_inv_boot: "prog_inv E (boot_world E)"
  by (auto simp: prog_inv_def boot_world_def mgr_ok_def mgr_zero_def custom_ok_replicate info_of_def plain_info_def sections_def transports_ok_def ble_stale_def
      softap_inv_def ble_inv_def prov_service_uuid_def idle_def intro: exI [of _ None])

text \<open>A step that leaves the objects, the heap and the statics alone.\<close>

definition quiet :: "world \<Rightarrow> world \<Rightarrow> bool" where
  "quiet s s' \<longleftrightarrow> pcs s' = pcs s \<and> fault s' = fault s \<and> blocks (hist s') = blocks (hist s) \<and> statics s' = statics s"

lemma quiet_inv:
  assumes "quiet s s'" "prog_inv E s"
  shows "prog_inv E s'"
proof -
  have st: "statics s' = statics s" and m: "mgr s' = mgr s" and q: "pcs s' = pcs s" "fault s' = fault s" "blocks (hist s') = blocks (hist s)"
    using assms(1) by (simp_all add: quiet_def statics_def)
  have "pc_live E p s' = pc_live E p s" "balance p s' = balance p s" for p
    by (simp_all add: pc_live_def balance_def q)
  then have "running E p s' = running E p s" "idle s' = idle s" for p
    by (simp_all add: running_def idle_def m q statics_transports [OF st])
  with assms(2) show ?thesis
    using st by (auto simp: prog_inv_def m q statics_transports [OF st] ble_stale_def statics_def split: if_splits)
qed

lemma quiet_ops:
  "wp (retry_work_handler E) (\<lambda>_. quiet s) s"
  "wp (wifi_config_mgmt_event E ev) (\<lambda>_. quiet s) s"
  "wp (wifi_scan_mgmt_event E sv) (\<lambda>_. quiet s) s"
  "wp network_prov_wifi_config_reset (\<lambda>_. quiet s) s"
  "wp (ot_state_changed E rc) (\<lambda>_. quiet s) s"
  "wp (run_attach_timeout E) (\<lambda>_. quiet s) s"
  "wp (network_prov_thread_config_reset E) (\<lambda>_. quiet s) s"
  "wp (network_prov_thread_config_erase E) (\<lambda>_. quiet s) s"
  "wp (network_prov_wifi_config_set_and_apply E a b) (\<lambda>_. quiet s) s"
  "wp (discover_cb E r) (\<lambda>_. quiet s) s"
proof -
  have wifi: "wifi_frame t u \<Longrightarrow> blocks (hist u) = blocks (hist t) \<Longrightarrow> quiet t u" for t u
    using wifi_frameD [of t u] by (simp add: quiet_def same_objects_def statics_def)
  have thread: "thread_ok t u \<Longrightarrow> quiet t u" for t u
    using thread_frameD [of t u] by (simp add: quiet_def thread_ok_def same_objects_def statics_def)
  show "wp (retry_work_handler E) (\<lambda>_. quiet s) s" "wp (wifi_config_mgmt_event E ev) (\<lambda>_. quiet s) s"
    "wp network_prov_wifi_config_reset (\<lambda>_. quiet s) s"
    by (rule wp_mono [OF wifi_ops_frame(1)] wp_mono [OF wifi_ops_frame(2)] wp_mono [OF wifi_ops_frame(5)], simp add: wifi)+
  show "wp (ot_state_changed E rc) (\<lambda>_. quiet s) s" "wp (network_prov_thread_config_reset E) (\<lambda>_. quiet s) s"
    "wp (network_prov_thread_config_erase E) (\<lambda>_. quiet s) s"
    by (rule wp_mono [OF thread_ops_ok(2)] wp_mono [OF thread_ops_ok(5)] wp_mono [OF thread_ops_ok(6)], erule thread)+
  show "wp (run_attach_timeout E) (\<lambda>_. quiet s) s"
    unfolding run_attach_timeout_def
    by simp (rule wp_mono [OF thread_ops_ok(1)], drule thread, simp add: quiet_def)
  show "wp (discover_cb E r) (\<lambda>_. quiet s) s"
    by (simp add: discover_cb_def quiet_def statics_def split: option.split)
  show "wp (wifi_scan_mgmt_event E sv) (\<lambda>_. quiet s) s"
    by (cases sv) (simp_all add: wifi_scan_mgmt_event_def on_scan_result_def quiet_def statics_def)
  show "wp (network_prov_wifi_config_set_and_apply E a b) (\<lambda>_. quiet s) s"
    unfolding network_prov_wifi_config_set_and_apply_def
    by (auto simp: Let_def quiet_def statics_def split: option.split
        intro!: wp_mono [OF wifi_ops_frame(7)] dest!: wifi [unfolded quiet_def statics_def])
qed

lemma own_call_quiet: "own_call c \<Longrightarrow> wp (ext_call c) (\<lambda>_. quiet s) s"
  by (cases c rule: own_call.cases) (auto simp: quiet_def statics_def)

lemma is_provisioned_quiet: "wp (network_prov_mgr_is_provisioned E ptr) (\<lambda>_. quiet s) s"
  by (simp add: network_prov_mgr_is_provisioned_def network_prov_thread_is_commissioned_def quiet_def statics_def)

section \<open>The steps of the manager\<close>

lemma prog_invE:
  assumes "prog_inv E s"
  obtains (stopped) "\<not> started (mgr s)" "\<not> fault s" "mgr_ok E (mgr s)" "transports_ok E None s" "idle s"
      "ble_up E \<longrightarrow> \<not> ble_stale s"
  | (running) p where "started (mgr s)" "\<not> fault s" "mgr_ok E (mgr s)" "transports_ok E (scheme (mgr s)) s" "running E p s"
      "ble_up E \<longrightarrow> \<not> ble_stale s"
  using assms by (auto simp: prog_inv_def split: if_splits)

text \<open>An update of the manager that keeps what the service depends on.\<close>

lemma mgr_update_inv:
  assumes "prog_inv E s" "mgr_ok E m" "started m = started (mgr s)" "mgr_pc m = mgr_pc (mgr s)"
    "started m \<longrightarrow> scheme m = scheme (mgr s)" "blocks h = blocks (hist s)"
  shows "prog_inv E (s\<lparr>mgr := m, hist := h\<rparr>)"
  using assms(1)
proof (cases rule: prog_invE)
  case stopped
  with assms show ?thesis by (auto simp: prog_inv_def idle_def ble_stale_def)
next
  case (running p)
  with assms show ?thesis by (auto simp: prog_inv_def running_def balance_hist ble_stale_def)
qed

lemmas mgr_update_inv' = mgr_update_inv [where h = "hist s" and s = s for s, simplified]

lemma init_inv: "prog_inv E s \<Longrightarrow> wp (network_prov_mgr_init E c) (\<lambda>_. prog_inv E) s"
  by (cases rule: prog_invE, assumption)
    (auto simp: network_prov_mgr_init_def mgr_ok_def prog_inv_def idle_def custom_ok_replicate info_of_def plain_info_def sections_def real_scheme_def
      ble_stale_def
      intro: exI [of _ None])

lemma start_inv:
  assumes "prog_inv E s" "config_ok E"
  shows "wp (network_prov_mgr_start_provisioning E v popv name key) (\<lambda>_. prog_inv E) s"
  using assms(1)
proof (cases rule: prog_invE)
  case (running p)
  with assms(1) show ?thesis by (auto simp: network_prov_mgr_start_provisioning_def)
next
  case stopped
  show ?thesis
  proof (cases "inited (mgr s)")
    case True
    show ?thesis
    proof (rule wp_mono [OF start_spec [OF stopped(3) assms(2) True stopped(1) _ stopped(4)]])
      show "pcs s = (\<lambda>_. None)" using stopped(5) by (simp add: idle_def)
      fix r t
      assume t: "start_result E v popv s r t"
      show "prog_inv E t"
      proof (cases "r = 0")
        case False
        with t stopped show ?thesis
          by (auto simp: start_result_def prog_inv_def idle_def mgr_ok_def ble_start_result_def ble_result_def ble_stale_def split: if_splits)
      next
        case ok: True
        with t obtain p vj where p: "mgr t = (mgr s)\<lparr>mgr_pc := Some p, version_json := vj, started := True\<rparr>"
          "pcs t = [p \<mapsto> service_pc E (mgr s) v popv vj]" "blocks (hist t) = blocks (hist s) + 1"
          "scheme_bound (scheme (mgr s)) t = Some p" "fault t = fault s" "transports_ok E (scheme (mgr s)) t"
          by (auto simp: start_result_def)
        have "pc_live E p t" using p(2) by (intro service_pc_live [OF stopped(3) assms(2)]) simp
        moreover have "balance p t = 1"
          using p(2,3) stopped(5) by (simp add: balance_def idle_def service_pc_def base_pc_def)
        ultimately have "running E p t" using p by (simp add: running_def)
        moreover have "mgr_ok E (mgr t)" using stopped(3) True by (simp add: p(1) mgr_ok_def)
        moreover have "ble_up E \<longrightarrow> \<not> ble_stale t"
          using t ok p(1) stopped(1,6)
          by (auto simp: start_result_def ble_start_result_def ble_result_def ble_stale_def split: if_splits)
        ultimately show ?thesis using p stopped(2) by (auto simp: prog_inv_def)
      qed
    qed
  next
    case False
    with stopped assms(1) show ?thesis by (simp add: network_prov_mgr_start_provisioning_def)
  qed
qed

text \<open>After a teardown nothing of the service is left.\<close>

lemma teardown_inv:
  assumes "prog_inv E s"
  shows "wp (do_teardown E) (\<lambda>_ s'. prog_inv E s' \<and> \<not> started (mgr s') \<and> inited (mgr s') = inited (mgr s)) s"
  using assms
proof (cases rule: prog_invE)
  case stopped
  with assms show ?thesis by (simp add: do_teardown_def)
next
  case (running p)
  then have p: "mgr_pc (mgr s) = Some p" "pc_live E p s" "scheme_bound (scheme (mgr s)) s = Some p" "balance p s = 1"
    "\<forall>q. q \<noteq> p \<longrightarrow> pcs s q = None" "real_scheme (scheme (mgr s))"
    by (auto simp: running_def mgr_ok_def)
  show ?thesis
    by (rule wp_mono [OF teardown_spec [OF running(1) p(1,2,6,3) running(4)]])
      (use running(2,3,6) p in \<open>auto simp: prog_inv_def idle_def mgr_ok_def fun_eq_iff ble_stale_def\<close>)
qed

lemma prog_inv_hist: "blocks h = blocks (hist s) \<Longrightarrow> prog_inv E (s\<lparr>hist := h\<rparr>) = prog_inv E s"
  by (auto simp: prog_inv_def running_def idle_def balance_hist)

lemma stop_inv:
  assumes "prog_inv E s"
  shows "wp (network_prov_mgr_stop_provisioning E) (\<lambda>_. prog_inv E) s" "wp (teardown_work_fn E) (\<lambda>_. prog_inv E) s"
    "wp (network_prov_mgr_deinit E) (\<lambda>_. prog_inv E) s"
proof -
  have t: "wp (do_teardown E) (\<lambda>_ s'. prog_inv E s' \<and> \<not> started (mgr s') \<and> inited (mgr s') = inited (mgr s)) (s\<lparr>hist := h\<rparr>)"
    if "blocks h = blocks (hist s)" for h
    using teardown_inv [of E "s\<lparr>hist := h\<rparr>"] assms that by (simp add: prog_inv_hist)
  have fin: "prog_inv E (t\<lparr>mgr := (mgr t)\<lparr>inited := False\<rparr>\<rparr>)" if "prog_inv E t" "\<not> started (mgr t)" for t
    by (rule mgr_update_inv' [OF that(1)]) (use that in \<open>auto simp: prog_inv_def mgr_ok_def\<close>)
  show "wp (network_prov_mgr_stop_provisioning E) (\<lambda>_. prog_inv E) s" "wp (teardown_work_fn E) (\<lambda>_. prog_inv E) s"
    using assms by (auto simp: network_prov_mgr_stop_provisioning_def teardown_work_fn_def prog_inv_hist
        intro!: wp_mono [OF t])
  show "wp (network_prov_mgr_deinit E) (\<lambda>_. prog_inv E) s"
    using assms by (auto simp: network_prov_mgr_deinit_def prog_inv_hist intro!: wp_mono [OF t] fin)
qed

lemma find_custom_from_Some:
  "find_custom_from k cs n = Some i \<Longrightarrow> k \<le> i \<and> i < k + length cs \<and> ce_created (cs ! (i - k)) \<and> ce_name (cs ! (i - k)) = n"
  by (induction k cs n rule: find_custom_from.induct) (force split: if_splits simp: nth_Cons')+

lemma find_custom_from_None: "find_custom_from k cs n = None \<longleftrightarrow> n \<notin> ce_name ` set (filter ce_created cs)"
  by (induction k cs n rule: find_custom_from.induct) auto

lemma free_slot_from_Some:
  "free_slot_from k cs = Some i \<Longrightarrow> k \<le> i \<and> i < k + length cs \<and> \<not> ce_created (cs ! (i - k))"
  by (induction k cs rule: free_slot_from.induct) (force split: if_splits simp: nth_Cons')+

lemma custom_ok_create:
  assumes "custom_ok E cs" "i < length cs" "\<not> ce_created (cs ! i)" "ce_name e \<notin> ce_name ` set (filter ce_created cs)"
    "\<not> is_builtin_ep (ce_name e)" "length (ce_name e) < PROTOCOMM_EP_NAME_MAX" "ce_created e"
  shows "custom_ok E (cs[i := e])"
proof -
  have split: "cs = take i cs @ cs ! i # drop (Suc i) cs" using assms(2) by (rule id_take_nth_drop)
  have upd: "cs[i := e] = take i cs @ e # drop (Suc i) cs" using assms(2) by (rule upd_conv_take_nth_drop)
  have "filter ce_created cs = filter ce_created (take i cs) @ filter ce_created (drop (Suc i) cs)"
    using assms(3) by (subst split) simp
  with assms(1,4,7) have "distinct (map ce_name (filter ce_created (cs[i := e])))"
    by (auto simp: upd custom_ok_def)
  moreover have "x \<in> set cs \<or> x = e" if "x \<in> set (cs[i := e])" for x
    using that set_update_subset_insert [of cs i e] by auto
  ultimately show ?thesis using assms by (auto simp: custom_ok_def)
qed

lemma custom_ok_field:
  assumes "custom_ok E cs" "ce_name e = ce_name (cs ! i)" "ce_created e = ce_created (cs ! i)"
  shows "custom_ok E (cs[i := e])"
proof (cases "i < length cs")
  case True
  have "map ce_name (filter ce_created (cs[i := e])) = map ce_name (filter ce_created cs)"
    using assms(2,3) by (subst id_take_nth_drop [OF True]) (simp add: upd_conv_take_nth_drop [OF True])
  moreover have "\<forall>x \<in> set (cs[i := e]). \<exists>y \<in> set cs. ce_name x = ce_name y \<and> ce_created x = ce_created y"
    using assms(2,3) True by (metis in_set_conv_nth length_list_update nth_list_update nth_mem)
  ultimately show ?thesis using assms(1) unfolding custom_ok_def by (metis length_list_update)
qed (use assms(1) in \<open>simp add: list_update_beyond\<close>)

lemma custom_update_inv:
  assumes "prog_inv E s" "custom_ok E cs"
  shows "prog_inv E (s\<lparr>mgr := (mgr s)\<lparr>custom := cs\<rparr>\<rparr>)"
  by (rule mgr_update_inv' [OF assms(1)]) (use assms in \<open>auto simp: prog_inv_def mgr_ok_def\<close>)

lemma endpoint_ops_inv:
  assumes "prog_inv E s"
  shows "wp (network_prov_mgr_endpoint_create n) (\<lambda>_. prog_inv E) s"
    "wp (network_prov_mgr_endpoint_register n f x) (\<lambda>_. prog_inv E) s"
    "wp (network_prov_mgr_endpoint_unregister n) (\<lambda>_. prog_inv E) s"
proof -
  have ok: "custom_ok E (custom (mgr s))" using assms by (auto simp: prog_inv_def mgr_ok_def)
  have new: "custom_ok E ((custom (mgr s))[i := \<lparr>ce_name = nm, ce_handler = None, ce_ctx = 0, ce_created = True\<rparr>])"
    if "free_slot_from 0 (custom (mgr s)) = Some i" "find_custom_ep (mgr s) nm = None" "\<not> is_builtin_ep nm" "length nm < 16" for i nm
    using free_slot_from_Some [OF that(1)] that(2-4) ok
    by (intro custom_ok_create) (simp_all add: find_custom_ep_def find_custom_from_None)
  show "wp (network_prov_mgr_endpoint_create n) (\<lambda>_. prog_inv E) s"
    using assms by (cases n) (auto simp: network_prov_mgr_endpoint_create_def strncpy_z_id split: option.split
        intro!: custom_update_inv new)
  have two: "custom_ok E ((custom (mgr s))[i := ((custom (mgr s))[i := a] ! i)\<lparr>ce_handler := f\<rparr>])"
    "custom_ok E ((custom (mgr s))[i := ((custom (mgr s))[i := a] ! i)\<lparr>ce_ctx := x\<rparr>])"
    if "ce_name a = ce_name (custom (mgr s) ! i)" "ce_created a = ce_created (custom (mgr s) ! i)" for i a f x
    using that ok by (cases "i < length (custom (mgr s))"; simp add: custom_ok_field list_update_beyond)+
  show "wp (network_prov_mgr_endpoint_register n f x) (\<lambda>_. prog_inv E) s"
    "wp (network_prov_mgr_endpoint_unregister n) (\<lambda>_. prog_inv E) s"
    using assms by (auto simp: network_prov_mgr_endpoint_register_def network_prov_mgr_endpoint_unregister_def
        split: option.split intro!: custom_update_inv two)
qed

lemma other_mgr_inv:
  assumes "prog_inv E s"
  shows "wp (network_prov_mgr_disable_auto_stop n) (\<lambda>_. prog_inv E) s"
    "wp (network_prov_mgr_set_app_info l v cs k) (\<lambda>_. prog_inv E) s"
    "wp (network_prov_mgr_reset_wifi_provisioning E) (\<lambda>_. prog_inv E) s"
    "wp (net_config_reset E) (\<lambda>_. prog_inv E) s"
    "wp (network_prov_mgr_configure_wifi_sta E a b) (\<lambda>_. prog_inv E) s"
proof -
  have upd: "prog_inv E (s\<lparr>mgr := m\<rparr>)"
    if "mgr_ok E m" "started m = started (mgr s)" "mgr_pc m = mgr_pc (mgr s)" "scheme m = scheme (mgr s)" for m
    by (rule mgr_update_inv' [OF assms]) (use that in simp_all)
  have ok: "mgr_ok E (mgr s)" using assms by (simp add: prog_inv_def)
  have info: "mgr_ok E ((mgr s)\<lparr>app_info_json := info_of x\<rparr>)" if "length (info_of x) < 256" "plain_info x" for x
    using ok that by (auto simp: mgr_ok_def)
  show "wp (network_prov_mgr_disable_auto_stop n) (\<lambda>_. prog_inv E) s"
    using assms ok by (auto simp: network_prov_mgr_disable_auto_stop_def prog_inv_hist mgr_ok_def intro!: upd)
  show "wp (network_prov_mgr_set_app_info l v cs k) (\<lambda>_. prog_inv E) s"
    using assms info [of None] info [of "Some (app_member (the l) (the v) x)" for x]
    by (auto simp: network_prov_mgr_set_app_info_def app_info_text_eq Let_def info_of_def plain_app_member json_token_ok_plain
        split: option.split intro!: upd dest!: tokens_plain)
  have q: "quiet s t \<Longrightarrow> prog_inv E t" for t using quiet_inv assms by blast
  show "wp (network_prov_mgr_reset_wifi_provisioning E) (\<lambda>_. prog_inv E) s"
    using assms by (auto simp: network_prov_mgr_reset_wifi_provisioning_def prog_inv_hist intro!: wp_mono [OF quiet_ops(8)] q)
  show "wp (net_config_reset E) (\<lambda>_. prog_inv E) s"
    by (auto simp: net_config_reset_def intro!: wp_mono [OF quiet_ops(7)] wp_mono [OF quiet_ops(4)] q)
  show "wp (network_prov_mgr_configure_wifi_sta E a b) (\<lambda>_. prog_inv E) s"
    using assms by (auto simp: network_prov_mgr_configure_wifi_sta_def intro!: wp_mono [OF quiet_ops(9)] q)
qed

section \<open>The steps of the transports\<close>

lemma shell_inv:
  assumes "prog_inv E s" "buffer_laws E"
  shows "wp (cmd_net_prov E ep n hex) (\<lambda>_ s'. prog_inv E s' \<and> mgr s' = mgr s) s"
proof (cases "con_pc (con s)")
  case None
  with assms(1) show ?thesis by (simp add: cmd_net_prov_def prog_inv_hist)
next
  case (Some q)
  from assms(1) show ?thesis
  proof (cases rule: prog_invE)
    case stopped
    with Some show ?thesis by (simp add: transports_ok_def)
  next
    case (running p)
    with Some have c: "scheme (mgr s) = Some network_prov_scheme_console" "con_pc (con s) = Some p" "pc_live E p s"
      by (auto simp: transports_ok_def running_def)
    show ?thesis
      by (rule wp_mono [OF console_command_spec [OF c(2,3) assms(2)]])
        (use running c in \<open>auto simp: prog_inv_def running_def transports_ok_def ble_stale_def\<close>)
  qed
qed

lemma http_inv:
  assumes "prog_inv E s" "buffer_laws E" "started (mgr s)" "scheme (mgr s) = Some network_prov_scheme_softap"
  shows "wp (http_callback_run E c) (\<lambda>_ s'. prog_inv E s' \<and> mgr s' = mgr s) s"
  using assms(1)
proof (cases rule: prog_invE)
  case (running p)
  show ?thesis
    by (rule wp_mono [OF callback_run_inv [where p = p, OF _ assms(2)]])
      (use running assms(3,4) in \<open>auto simp: prog_inv_def running_def transports_ok_def softap_step_def ble_stale_def\<close>)
qed (use assms(3) in simp)

lemma ble_update_inv:
  assumes "prog_inv E s" "ble_inv E (ble s) \<Longrightarrow> ble_inv E b" "ble_pc b = ble_pc (ble s)"
  shows "prog_inv E (s\<lparr>ble := b\<rparr>)"
proof -
  have "scheme_bound x (s\<lparr>ble := b\<rparr>) = scheme_bound x s" for x
    using assms(3) by (cases "(x, s)" rule: scheme_bound.cases) auto
  with assms show ?thesis by (auto simp: prog_inv_def running_def idle_def transports_ok_def ble_stale_def)
qed

lemma gatt_inv:
  assumes "prog_inv E s" "buffer_laws E" "ble_pc (ble s) = None \<or> started (mgr s) \<and> scheme (mgr s) = Some network_prov_scheme_ble"
  shows "wp (ble_event_run E ev) (\<lambda>_ s'. prog_inv E s' \<and> mgr s' = mgr s) s"
proof -
  have inv: "ble_inv E (ble s)" using assms(1) by (simp add: prog_inv_def transports_ok_def)
  show ?thesis
  proof (cases "ble_pc (ble s)")
    case None
    show ?thesis
    proof (rule wp_mono [OF ble_event_null [OF None inv]])
      fix a s'
      assume a: "s' = s\<lparr>hist := hist s', ble := ble s'\<rparr> \<and> blocks (hist s') = blocks (hist s) \<and>
        ble_pc (ble s') = None \<and> ble_inv E (ble s')"
      then obtain h b where s': "s' = s\<lparr>hist := h, ble := b\<rparr>" by blast
      with a have "blocks h = blocks (hist s)" "ble_pc b = ble_pc (ble s)" "ble_inv E b" using None by simp_all
      then have "prog_inv E ((s\<lparr>hist := h\<rparr>)\<lparr>ble := b\<rparr>)"
        by (intro ble_update_inv) (simp_all add: prog_inv_hist assms(1))
      then show "prog_inv E s' \<and> mgr s' = mgr s" by (simp add: s')
    qed
  next
    case (Some q)
    from assms(1) show ?thesis
    proof (cases rule: prog_invE)
      case (running p)
      with Some assms(3) have b: "ble_pc (ble s) = Some p" "pc_live E p s" "scheme (mgr s) = Some network_prov_scheme_ble"
        by (auto simp: running_def)
      show ?thesis
        by (rule wp_mono [OF ble_event_step [OF b(2,1) inv assms(2)]])
          (use running b(3) in \<open>auto simp: prog_inv_def running_def transports_ok_def ble_step_def ble_stale_def\<close>)
    qed (use Some assms(3) in simp)
  qed
qed

lemma ble_setup_inv:
  assumes "prog_inv E s"
  shows "wp (network_prov_scheme_ble_set_service_uuid u) (\<lambda>_. prog_inv E) s"
    "wp (network_prov_scheme_ble_set_mfg_data d n) (\<lambda>_. prog_inv E) s"
  using assms
  by (auto simp: network_prov_scheme_ble_set_service_uuid_def network_prov_scheme_ble_set_mfg_data_def ble_inv_def buf
        split: option.split intro!: ble_update_inv)

section \<open>All steps\<close>

lemma wp_forget [simp]: "wp (forget m) Q s = wp m (\<lambda>_. Q ()) s"
  by (simp add: forget_def)

lemma api_inv:
  assumes "prog_inv E s" "config_ok E"
  shows "wp (api_run E c) (\<lambda>_. prog_inv E) s"
  using assms init_inv [OF assms(1)] start_inv [OF assms] stop_inv [OF assms(1)] endpoint_ops_inv [OF assms(1)]
    other_mgr_inv [OF assms(1)] ble_setup_inv [OF assms(1)] wp_mono [OF is_provisioned_quiet quiet_inv [OF _ assms(1)]]
  by (cases c) (auto simp: prog_inv_hist network_prov_mgr_reset_wifi_sm_state_on_failure_def
      network_prov_mgr_reset_wifi_sm_state_for_reprovision_def elim!: wp_mono)

lemma prog_event_inv:
  assumes "prog_inv E s" "config_ok E" "buffer_laws E" "enabled ev s"
  shows "wp (event_run E ev) (\<lambda>_. prog_inv E) s"
proof -
  have q: "quiet s t \<Longrightarrow> prog_inv E t" for t using quiet_inv assms(1) by blast
  show ?thesis
  proof (cases ev)
    case (Api c)
    then show ?thesis using api_inv [OF assms(1,2)] by simp
  next
    case (Shell ep n hex)
    then show ?thesis using wp_mono [OF shell_inv [OF assms(1,3), of ep n hex]] by simp
  next
    case (Http c)
    with assms show ?thesis by simp (rule wp_mono [OF http_inv], auto)
  next
    case (Gatt g)
    with assms show ?thesis by simp (rule wp_mono [OF gatt_inv], auto)
  next
    case (Own_call c)
    with assms(4) q own_call_quiet [of c s] show ?thesis by simp
  qed (use stop_inv(2) [OF assms(1)] q in \<open>auto intro!: wp_mono [OF quiet_ops(1)] wp_mono [OF quiet_ops(2)]
      wp_mono [OF quiet_ops(3)] wp_mono [OF quiet_ops(5)] wp_mono [OF quiet_ops(6)] wp_mono [OF quiet_ops(10)]\<close>)
qed

lemma reachable_inv:
  assumes "reachable E s" "config_ok E" "buffer_laws E"
  shows "prog_inv E s"
  using assms(1)
proof induction
  case boot
  then show ?case by (rule prog_inv_boot)
next
  case (step s s')
  from step(2) show ?case
    by (rule prog_stepE) (use wp_runD [OF prog_event_inv [OF step(3) assms(2,3)]] in auto)
qed

text \<open>A run is lawful when no Bluetooth callback meets a stale instance, and with a Bluetooth stack that gets every start
  through none ever does.\<close>

lemma can_occur_enabled: "can_occur ev s \<Longrightarrow> (\<And>g. ev = Gatt g \<Longrightarrow> \<not> ble_stale s) \<Longrightarrow> enabled ev s"
  by (cases ev) (auto simp: ble_stale_def)

lemma run_reachable:
  assumes "program_run E tr s" "config_ok E" "buffer_laws E" "ble_up E \<or> (\<forall>g t. (Gatt g, t) \<in> set tr \<longrightarrow> \<not> ble_stale t)"
  shows "reachable E s"
  using assms(1,4)
proof induction
  case boot
  show ?case by (rule reachable.boot)
next
  case (step tr s ev u s')
  then have r: "reachable E s" by auto
  have "enabled ev s"
    by (rule can_occur_enabled [OF step(2)]) (use step(5) reachable_inv [OF r assms(2,3)] in \<open>auto simp: prog_inv_def\<close>)
  with r step(3) show ?case by (blast intro: reachable.step prog_step.intros)
qed

section \<open>The life cycle\<close>

text \<open>The abstract state of the manager, and what each step may do to it.\<close>

datatype phase = Down | Ready | Provisioning

definition phase :: "mgr_state \<Rightarrow> phase" where
  "phase m = (if started m then Provisioning else if inited m then Ready else Down)"

fun life_step :: "prog_event \<Rightarrow> phase \<Rightarrow> phase set" where
  "life_step (Api (Mgr_init c)) p = (if p = Down then {Down, Ready} else {p})"
| "life_step (Api Mgr_deinit) p = {Down}"
| "life_step (Api (Mgr_start v popv name key)) p = (if p = Ready then {Ready, Provisioning} else {p})"
| "life_step (Api Mgr_stop) p = (if p = Provisioning then {Ready, Provisioning} else {p})"
| "life_step Teardown_due p = (if p = Provisioning then {Ready} else {p})"
| "life_step _ p = {p}"

lemma quiet_mgr: "quiet s s' \<Longrightarrow> mgr s' = mgr s"
  by (simp add: quiet_def statics_def)

lemma start_life:
  assumes "prog_inv E s" "config_ok E"
  shows "wp (network_prov_mgr_start_provisioning E v popv name key)
    (\<lambda>_ s'. phase (mgr s') \<in> life_step (Api (Mgr_start v popv name key)) (phase (mgr s))) s"
proof (cases "\<not> started (mgr s) \<and> inited (mgr s)")
  case True
  with assms have "wp (network_prov_mgr_start_provisioning E v popv name key) (start_result E v popv s) s"
    by (intro start_spec) (auto simp: prog_inv_def idle_def)
  then show ?thesis
    by (rule wp_mono) (use True in \<open>auto simp: phase_def start_result_def split: if_splits\<close>)
next
  case False
  then show ?thesis by (auto simp: network_prov_mgr_start_provisioning_def phase_def)
qed

lemma api_life:
  assumes "prog_inv E s" "config_ok E"
  shows "wp (api_run E c) (\<lambda>_ s'. phase (mgr s') \<in> life_step (Api c) (phase (mgr s))) s"
proof -
  have si: "started (mgr s) \<longrightarrow> inited (mgr s)" using assms(1) by (auto simp: prog_inv_def mgr_ok_def)
  have td: "wp (do_teardown E) (\<lambda>_ s'. \<not> started (mgr s') \<and> inited (mgr s') = inited (mgr s)) (s\<lparr>hist := h\<rparr>)"
    if "blocks h = blocks (hist s)" for h
    using wp_mono [OF teardown_inv [of E "s\<lparr>hist := h\<rparr>"]] assms that by (simp add: prog_inv_hist)
  have q: "wp m (\<lambda>_. quiet s) s \<Longrightarrow> wp m (\<lambda>_ s'. phase (mgr s') = phase (mgr s)) s" for m :: "'a prog"
    by (erule wp_mono) (simp add: quiet_mgr)
  show ?thesis
  proof (cases c)
    case (Mgr_start v popv name key)
    then show ?thesis using start_life [OF assms] by simp
  next
    case Mgr_stop
    then show ?thesis using si
      by (auto simp: network_prov_mgr_stop_provisioning_def phase_def intro!: wp_mono [OF td])
  next
    case Mgr_deinit
    then show ?thesis using si
      by (auto simp: network_prov_mgr_deinit_def phase_def intro!: wp_mono [OF td])
  next
    case (Mgr_init x)
    then show ?thesis using si by (auto simp: network_prov_mgr_init_def phase_def)
  next
    case Mgr_reset_provisioning
    then show ?thesis using q [OF quiet_ops(8)] by (auto simp: network_prov_mgr_reset_wifi_provisioning_def)
  next
    case (Mgr_is_provisioned ptr)
    then show ?thesis using q [OF is_provisioned_quiet] by simp
  next
    case (Mgr_configure_wifi_sta a b)
    then show ?thesis using q [OF quiet_ops(9)] by (auto simp: network_prov_mgr_configure_wifi_sta_def)
  next
    case Mgr_reset_on_failure
    then show ?thesis using q [OF quiet_ops(4)] q [OF quiet_ops(7)]
      by (auto simp: network_prov_mgr_reset_wifi_sm_state_on_failure_def net_config_reset_def)
  next
    case Mgr_reset_for_reprovision
    then show ?thesis using q [OF quiet_ops(4)] q [OF quiet_ops(7)]
      by (auto simp: network_prov_mgr_reset_wifi_sm_state_for_reprovision_def net_config_reset_def)
  qed (auto simp: network_prov_mgr_disable_auto_stop_def network_prov_mgr_set_app_info_def phase_def Let_def
      network_prov_mgr_endpoint_create_def network_prov_mgr_endpoint_register_def network_prov_mgr_endpoint_unregister_def
      network_prov_scheme_ble_set_service_uuid_def network_prov_scheme_ble_set_mfg_data_def split: option.split)
qed

lemma event_life:
  assumes "prog_inv E s" "config_ok E" "buffer_laws E" "enabled ev s"
  shows "wp (event_run E ev) (\<lambda>_ s'. phase (mgr s') \<in> life_step ev (phase (mgr s))) s"
proof (cases ev)
  case (Api c)
  then show ?thesis using api_life [OF assms(1,2)] by simp
next
  case (Shell ep n hex)
  then show ?thesis using wp_mono [OF shell_inv [OF assms(1,3), of ep n hex]] by simp
next
  case (Http c)
  with assms show ?thesis by simp (rule wp_mono [OF http_inv], auto)
next
  case (Gatt g)
  with assms show ?thesis by simp (rule wp_mono [OF gatt_inv], auto)
next
  case Teardown_due
  have si: "started (mgr s) \<longrightarrow> inited (mgr s)" using assms(1) by (auto simp: prog_inv_def mgr_ok_def)
  show ?thesis
    unfolding Teardown_due event_run.simps teardown_work_fn_def wp_bind wp_ext_call
    by (rule wp_mono [OF teardown_inv]) (use si assms(1) in \<open>auto simp: phase_def prog_inv_hist\<close>)
next
  case (Own_call c)
  with assms(4) own_call_quiet [of c s] show ?thesis by (simp add: quiet_mgr)
qed (auto simp: quiet_mgr intro!: wp_mono [OF quiet_ops(1)] wp_mono [OF quiet_ops(2)]
      wp_mono [OF quiet_ops(3)] wp_mono [OF quiet_ops(5)] wp_mono [OF quiet_ops(6)] wp_mono [OF quiet_ops(10)])

section \<open>Properties\<close>

text \<open>A concrete service over the console: two steps from boot.\<close>

definition demo_config :: network_prov_mgr_config where
  "demo_config = \<lparr>cf_scheme = Some network_prov_scheme_console, cf_event_cb = True, cf_wifi_conn_attempts = 2\<rparr>"

definition demo_ready :: world where
  "demo_ready = snd (run_state (event_run demo_env (Api (Mgr_init demo_config))) (boot_world demo_env))"

definition demo_service :: world where
  "demo_service = snd (run_state (event_run demo_env (Api (Mgr_start NETWORK_PROV_SECURITY_1 None None None))) demo_ready)"

lemma demo_env_config: "config_ok demo_env"
  by (simp add: config_ok_def demo_env_laws)

lemma demo_reachable: "reachable demo_env demo_ready" "reachable demo_env demo_service"
proof -
  have step: "reachable E s \<Longrightarrow> enabled ev s \<Longrightarrow> reachable E (snd (run_state (event_run E ev) s))" for E s ev
    by (rule reachable.step, assumption, rule prog_step.intros, assumption) (simp add: prod_eq_iff)
  show "reachable demo_env demo_ready"
    unfolding demo_ready_def by (rule step) (simp_all add: reachable.boot)
  then show "reachable demo_env demo_service"
    unfolding demo_service_def by (rule step) simp
qed

lemma demo_ready_mgr: "inited (mgr demo_ready)" "scheme (mgr demo_ready) = Some network_prov_scheme_console" "\<not> started (mgr demo_ready)"
  "event_cb (mgr demo_ready)" "auto_stop (mgr demo_ready)"
proof -
  have "wp (event_run demo_env (Api (Mgr_init demo_config))) (\<lambda>_ s'. inited (mgr s') \<and>
      scheme (mgr s') = Some network_prov_scheme_console \<and> \<not> started (mgr s') \<and> event_cb (mgr s') \<and> auto_stop (mgr s')) (boot_world demo_env)"
    by (simp add: network_prov_mgr_init_def demo_config_def demo_env_def ok_env_def ok_kern_def boot_world_def mgr_zero_def)
  then show "inited (mgr demo_ready)" "scheme (mgr demo_ready) = Some network_prov_scheme_console" "\<not> started (mgr demo_ready)"
    "event_cb (mgr demo_ready)" "auto_stop (mgr demo_ready)"
    by (simp_all add: demo_ready_def wp_sel)
qed

lemma demo_service_started: "started (mgr demo_service)"
proof -
  have "wp (do { network_prov_mgr_init demo_env demo_config;
      network_prov_mgr_start_provisioning demo_env NETWORK_PROV_SECURITY_1 None None None }) (\<lambda>_ s'. started (mgr s')) (boot_world demo_env)"
    by (simp add: network_prov_mgr_init_def demo_config_def demo_env_def ok_env_def ok_kern_def ok_cfg_def boot_world_def mgr_zero_def
        network_prov_mgr_start_provisioning_def protocomm_new_def build_version_json_def Let_def start_service_def
        protocomm_set_version_def protocomm_set_security_def add_ep_def find_ep_def empty_protocomm_def net_endpoints_init_def
        network_prov_wifi_scan_init_def network_prov_wifi_config_init_def protocomm_add_endpoint_def no_custom_def
        console_scheme_start_def network_prov_console_start_def upt_rec numeral_3_eq_3 strncpy_z_def)
  then show ?thesis by (simp add: demo_service_def demo_ready_def forget_def wp_sel split_def)
qed

text \<open>C2. The program is memory safe and does not leak, over any run of calls of the application, requests of clients,
  network events, work items and failures of the stacks, with one exception: a Bluetooth callback that comes while the
  Bluetooth transport still holds the instance of a start that failed. A run without such a callback, and every run when
  the Bluetooth stack gets each start through, dereferences no wrong object; while a service runs, the heap holds the
  instance of the service and what the session of the instance owns, and nothing else; when no service runs the heap is
  empty and no instance exists. (The heap blocks of answers that are handed to the transports are freed by them within
  the step. What happens in the exception is the property of failed Bluetooth starts below.)\<close>

theorem program_safe:
  assumes "program_run E tr s" and "config_ok E" and "buffer_laws E"
    and "ble_up E \<or> (\<forall>g t. (Gatt g, t) \<in> set tr \<longrightarrow> \<not> ble_stale t)"
  shows "\<not> fault s \<and>
     (if started (mgr s)
      then \<exists>p c. mgr_pc (mgr s) = Some p \<and> pcs s = [p \<mapsto> c] \<and> pc_inv ctx_sig c \<and>
        blocks (hist s) = 1 + ctx_owned ctx_sig (sec_ctx c)
      else mgr_pc (mgr s) = None \<and> pcs s = (\<lambda>_. None) \<and> blocks (hist s) = 0)"
  using reachable_inv [OF run_reachable [OF assms] assms(2,3)]
proof (cases rule: prog_invE)
  case stopped
  then show ?thesis by (simp add: idle_def)
next
  case (running p)
  then obtain c where c: "pcs s p = Some c" "pc_inv ctx_sig c" by (auto simp: running_def pc_live_def)
  with running have "pcs s = [p \<mapsto> c]" by (auto simp: running_def fun_eq_iff)
  with c running show ?thesis by (auto simp: running_def balance_def)
qed

theorem program_safe_witness: "\<not> fault demo_service \<and> (\<exists>p c. pcs demo_service = [p \<mapsto> c] \<and> mgr_pc (mgr demo_service) = Some p)"
proof -
  have step: "program_run E tr s \<Longrightarrow> can_occur ev s \<Longrightarrow> program_run E ((ev, s) # tr) (snd (run_state (event_run E ev) s))" for E tr s ev
    by (erule program_run.step) (simp_all add: prod_eq_iff)
  have "program_run demo_env [(Api (Mgr_init demo_config), boot_world demo_env)] demo_ready"
    unfolding demo_ready_def by (rule step) (simp_all add: program_run.boot)
  then have "program_run demo_env [(Api (Mgr_start NETWORK_PROV_SECURITY_1 None None None), demo_ready),
      (Api (Mgr_init demo_config), boot_world demo_env)] demo_service"
    unfolding demo_service_def by (rule step) simp
  moreover have "ble_up demo_env" by (simp add: ble_up_def demo_env_def ok_env_def ok_transp_def)
  ultimately show ?thesis
    using program_safe [OF _ demo_env_config demo_running_live(2)] demo_service_started by fastforce
qed

text \<open>C8. The manager implements its life cycle Down, Ready, Provisioning: only a successful init leaves
  Down, only a successful start leaves Ready for Provisioning, only a stop, the teardown work item or a
  deinit ends Provisioning (a stop with a cleanup delay leaves it to the work item), deinit always ends in
  Down, and every other step of the program, each of the transport and network callbacks included, leaves
  the phase as it is.\<close>

theorem mgr_life_cycle:
  assumes "reachable E s" and "config_ok E" and "buffer_laws E" and "enabled ev s"
  shows "phase (mgr (snd (run_state (event_run E ev) s))) \<in> life_step ev (phase (mgr s))"
  using event_life [OF reachable_inv [OF assms(1-3)] assms(2-4)] by (simp add: wp_sel)

theorem mgr_life_cycle_witness:
  "phase (mgr (snd (run_state (event_run demo_env Teardown_due) demo_service))) = Ready"
  using mgr_life_cycle [OF demo_reachable(2) demo_env_config demo_running_live(2), of Teardown_due] demo_service_started
  by (simp add: phase_def)

text \<open>C24. Auto-stop: when the connection succeeds while a service runs, the teardown is scheduled unless
  the application opted out, and when the kernel runs it the service ends: the manager is idle, the
  application gets END, the instance and every heap block are gone and the transport holds no pointer.\<close>

theorem mgr_auto_stop:
  assumes "reachable E s" and "config_ok E" and "buffer_laws E" and "started (mgr s)"
  shows "wp (network_prov_emit_event E NETWORK_PROV_CRED_SUCCESS)
      (\<lambda>_ s'. armed Teardown_work (hist s') = (auto_stop (mgr s) \<or> armed Teardown_work (hist s))) s \<and>
    wp (teardown_work_fn E) (\<lambda>_ s'. \<not> started (mgr s') \<and> mgr_pc (mgr s') = None \<and> pcs s' = (\<lambda>_. None) \<and>
      blocks (hist s') = 0 \<and> scheme_bound (scheme (mgr s)) s' = None \<and>
      (event_cb (mgr s) \<longrightarrow> (\<exists>es. app_events (hist s') = NETWORK_PROV_END # es))) s"
proof
  show "wp (network_prov_emit_event E NETWORK_PROV_CRED_SUCCESS)
      (\<lambda>_ s'. armed Teardown_work (hist s') = (auto_stop (mgr s) \<or> armed Teardown_work (hist s))) s"
    using assms(4) by simp
  let ?s = "s\<lparr>hist := Kern (K_work_run Teardown_work) # hist s\<rparr>"
  have "prog_inv E ?s" using reachable_inv [OF assms(1-3)] by (simp add: prog_inv_hist)
  then show "wp (teardown_work_fn E) (\<lambda>_ s'. \<not> started (mgr s') \<and> mgr_pc (mgr s') = None \<and> pcs s' = (\<lambda>_. None) \<and>
      blocks (hist s') = 0 \<and> scheme_bound (scheme (mgr s)) s' = None \<and>
      (event_cb (mgr s) \<longrightarrow> (\<exists>es. app_events (hist s') = NETWORK_PROV_END # es))) s"
  proof (cases rule: prog_invE)
    case (running p)
    then have p: "mgr_pc (mgr ?s) = Some p" "pc_live E p ?s" "scheme_bound (scheme (mgr ?s)) ?s = Some p" "balance p ?s = 1"
      "\<forall>q. q \<noteq> p \<longrightarrow> pcs s q = None" "real_scheme (scheme (mgr ?s))"
      by (auto simp: running_def mgr_ok_def)
    have gone: "(pcs s)(p := None) = (\<lambda>_. None)" using p(5) by (auto simp: fun_eq_iff)
    show ?thesis
      unfolding teardown_work_fn_def wp_bind wp_ext_call
      by (rule wp_mono [OF teardown_spec [OF running(1) p(1,2,6,3) running(4)]]) (use p(4) gone in simp)
  qed (use assms(4) in simp)
qed

theorem mgr_auto_stop_witness:
  "wp (teardown_work_fn demo_env) (\<lambda>_ s'. \<not> started (mgr s') \<and> blocks (hist s') = 0) demo_service"
  using mgr_auto_stop [OF demo_reachable(2) demo_env_config demo_running_live(2) demo_service_started]
  by (auto elim!: wp_mono)

text \<open>\<open>network_prov_mgr_wait\<close> returns once a success was reported: right after a successful init it
  blocks, and after any CRED_SUCCESS event it returns, also when the event came before the call; a second
  wait blocks again.\<close>

theorem mgr_wait_returns:
  assumes "sem_law E"
  shows "wp (network_prov_mgr_init E c) (\<lambda>r s'. r = 0 \<longrightarrow> network_prov_mgr_wait E s' = None) s \<and>
    wp (network_prov_emit_event E NETWORK_PROV_CRED_SUCCESS) (\<lambda>_ s'. \<exists>s''. network_prov_mgr_wait E s' = Some s'' \<and>
      network_prov_mgr_wait E s'' = None) s"
  using assms
  by (auto simp: network_prov_mgr_init_def network_prov_mgr_wait_def sem_law_def event_calls_def)

theorem mgr_wait_returns_witness:
  "\<exists>s. network_prov_mgr_wait (ok_env\<lparr>kern := ok_kern\<lparr>sem_take := \<lambda>h m. if sem_given m h then 0 else - 11\<rparr>\<rparr>) s \<noteq> None"
proof -
  let ?E = "ok_env\<lparr>kern := ok_kern\<lparr>sem_take := \<lambda>h m. if sem_given m h then 0 else - 11\<rparr>\<rparr>"
  have "sem_law ?E" by (simp add: sem_law_def)
  from mgr_wait_returns [OF this, of demo_config "boot_world ?E"] show ?thesis
    by (auto simp: wp_sel)
qed

text \<open>An environment in which everything works but advertising, and a manager that is ready to start over Bluetooth.\<close>

definition adv_fails_env :: env where
  "adv_fails_env = demo_env\<lparr>transp := ok_transp\<lparr>bt_le_adv_start_ret := \<lambda>_. - 5\<rparr>\<rparr>"

definition ble_ready :: world where
  "ble_ready = snd (run_state (event_run adv_fails_env
     (Api (Mgr_init (demo_config\<lparr>cf_scheme := Some network_prov_scheme_ble\<rparr>)))) (boot_world adv_fails_env))"

text \<open>C37. The exception to the safety above, a defect of the Bluetooth transport. In every reachable state in which the manager
  is ready to start over Bluetooth and the heap has room for the instance, and for all arguments of the start: a central
  that connects after the start makes the program use freed memory if and only if the start failed. A failed start frees
  its instance, but the transport keeps the pointer. A start fails whenever Bluetooth cannot be enabled, the service
  cannot be registered or advertising cannot be started. (For Wi-Fi, where a start always reaches the transport.)\<close>

theorem failed_ble_start_dangles:
  assumes "reachable E s" and "config_ok E" and "buffer_laws E"
    and "inited (mgr s)" and "\<not> started (mgr s)" and "scheme (mgr s) = Some network_prov_scheme_ble"
    and "\<not> NETWORK_TYPE_THREAD (cfg E)" and "malloc_ok (kern E) (hist s) (sizeof_protocomm (cfg E))"
  shows "wp (do { r \<leftarrow> network_prov_mgr_start_provisioning E security popv name key; ble_connected E 0; ret r })
    (\<lambda>r s'. (fault s' \<longleftrightarrow> r \<noteq> 0) \<and>
      (r \<noteq> 0 \<longrightarrow> \<not> started (mgr s') \<and> pcs s' = (\<lambda>_. None) \<and> ble_pc (ble s') \<noteq> None) \<and> (ble_down E \<longrightarrow> r \<noteq> 0)) s"
  (is "wp _ ?Q s")
proof -
  have inv: "prog_inv E s" by (rule reachable_inv [OF assms(1-3)])
  have "wp (network_prov_mgr_start_provisioning E security popv name key) (start_result E security popv s) s"
    using inv assms(2,4,5) by (intro start_spec) (auto simp: prog_inv_def idle_def)
  then have start: "wp (network_prov_mgr_start_provisioning E security popv name key)
      (\<lambda>r t. start_result E security popv s r t \<and> prog_inv E t) s"
    using start_inv [OF inv assms(2), of security popv name key] by (rule wp_conj)
  show ?thesis
    unfolding wp_bind [of "network_prov_mgr_start_provisioning _ _ _ _ _"]
  proof (rule wp_mono [OF start])
    fix r t
    assume t: "start_result E security popv s r t \<and> prog_inv E t"
    then have b: "ble_pc (ble t) \<noteq> None" "ble_down E \<longrightarrow> r \<noteq> 0"
      using assms(6-8) by (auto simp: start_result_def ble_start_result_def ble_result_def)
    show "wp (do { ble_connected E 0; ret r }) ?Q t"
    proof (cases "r = 0")
      case True
      with t assms(6) have "started (mgr t) \<and> scheme (mgr t) = Some network_prov_scheme_ble" by (auto simp: start_result_def)
      then have "wp (ble_event_run E (Ev_connected 0)) (\<lambda>_ s'. prog_inv E s' \<and> mgr s' = mgr t) t"
        using t assms(3) by (intro gatt_inv) auto
      with True b show ?thesis by (auto elim!: wp_mono simp: prog_inv_def)
    next
      case False
      with t b assms(5) show ?thesis
        by (auto simp: start_result_def ble_connected_def protocomm_open_session_def)
    qed
  qed
qed

theorem failed_ble_start_dangles_witness:
  "wp (do { r \<leftarrow> network_prov_mgr_start_provisioning adv_fails_env NETWORK_PROV_SECURITY_1 None (Some ''PROV'') None;
      ble_connected adv_fails_env 0; ret r })
    (\<lambda>r s'. r \<noteq> 0 \<and> pcs s' = (\<lambda>_. None) \<and> ble_pc (ble s') \<noteq> None \<and> fault s') ble_ready"
proof -
  let ?E = adv_fails_env
  have "prog_step ?E (boot_world ?E) ble_ready"
    unfolding ble_ready_def
    by (rule prog_step.intros [of "Api (Mgr_init (demo_config\<lparr>cf_scheme := Some network_prov_scheme_ble\<rparr>))"]) (simp_all add: prod_eq_iff)
  then have r: "reachable ?E ble_ready" by (rule reachable.step [OF reachable.boot])
  have "wp (event_run ?E (Api (Mgr_init (demo_config\<lparr>cf_scheme := Some network_prov_scheme_ble\<rparr>)))) (\<lambda>_ s'. inited (mgr s') \<and>
      scheme (mgr s') = Some network_prov_scheme_ble \<and> \<not> started (mgr s')) (boot_world ?E)"
    by (simp add: network_prov_mgr_init_def demo_config_def adv_fails_env_def demo_env_def ok_env_def ok_kern_def boot_world_def mgr_zero_def)
  then have m: "inited (mgr ble_ready)" "\<not> started (mgr ble_ready)" "scheme (mgr ble_ready) = Some network_prov_scheme_ble"
    by (simp_all add: ble_ready_def wp_sel)
  have e: "config_ok ?E" "buffer_laws ?E" "\<not> NETWORK_TYPE_THREAD (cfg ?E)"
    "malloc_ok (kern ?E) (hist ble_ready) (sizeof_protocomm (cfg ?E))" "ble_down ?E"
    using demo_env_config demo_running_live(2)
    by (simp_all add: adv_fails_env_def config_ok_def buffer_laws_def responses_nonempty_def app_nonempty_def ble_down_def)
      (simp_all add: demo_env_def ok_env_def ok_kern_def ok_cfg_def)
  show ?thesis
    by (rule wp_mono [OF failed_ble_start_dangles [OF r e(1,2) m e(3,4)]]) (use e(5) in simp)
qed

end
