(* ===== verification/Stability.thy ===== *)
theory Stability
  imports Service
begin

text \<open>
  Predicates on the program state that survive whole requests. The locale \<open>pc_stable\<close> asks of a predicate
  that it reads neither the protocomm instances nor the transports and none of the calls that sessions and
  transports make; the locale \<open>request_stable\<close> adds that the endpoint handlers keep it. From the former it
  follows that sessions, starts and stops of a transport keep it, from the latter that every request over
  every transport does. The program-wide invariants are instances of these locales.
\<close>

section \<open>Stable predicates\<close>

definition stable :: "('s \<Rightarrow> bool) \<Rightarrow> ('s, 'a) state \<Rightarrow> bool" where
  "stable I m \<longleftrightarrow> (\<forall>s. I s \<longrightarrow> wp m (\<lambda>_. I) s)"

lemma stableI: "(\<And>s. I s \<Longrightarrow> wp m (\<lambda>_. I) s) \<Longrightarrow> stable I m"
  by (simp add: stable_def)

lemma stableD: "stable I m \<Longrightarrow> I s \<Longrightarrow> wp m (\<lambda>_. I) s"
  by (simp add: stable_def)

lemma stable_ret [intro!]: "stable I (ret a)"
  by (simp add: stable_def)

lemma stable_gets [intro!]: "stable I (gets f)"
  by (simp add: stable_def)

lemma stable_bind [intro!]:
  assumes "stable I m" "\<And>a. stable I (f a)"
  shows "stable I (State_Monad.bind m f)"
  using assms by (auto simp: stable_def elim!: wp_mono)

lemma stable_bindD: "stable I m \<Longrightarrow> I s \<Longrightarrow> (\<And>a t. I t \<Longrightarrow> wp (f a) Q t) \<Longrightarrow> wp (State_Monad.bind m f) Q s"
  by (auto simp: stable_def intro: wp_mono)

lemma stable_if [intro!]: "(b \<Longrightarrow> stable I m) \<Longrightarrow> (\<not> b \<Longrightarrow> stable I n) \<Longrightarrow> stable I (if b then m else n)"
  by simp

lemma stable_case_option [intro!]:
  "(x = None \<Longrightarrow> stable I m) \<Longrightarrow> (\<And>y. x = Some y \<Longrightarrow> stable I (f y)) \<Longrightarrow> stable I (case x of None \<Rightarrow> m | Some y \<Rightarrow> f y)"
  by (simp split: option.split)

lemma stable_if_do [intro!]: "(b \<Longrightarrow> stable I m) \<Longrightarrow> stable I (if_do b m)"
  by (simp add: stable_def)

lemma stable_for_each [intro!]: "(\<And>x. x \<in> set xs \<Longrightarrow> stable I (f x)) \<Longrightarrow> stable I (for_each f xs)"
  by (induction xs) auto

section \<open>Sessions and transports\<close>

text \<open>The calls of sessions and transports: the heap, PSA, the radio of the access point, Bluetooth, HTTP,
  the shell and the application's endpoint handlers.\<close>

fun silent :: "call \<Rightarrow> bool" where
  "silent (Kern (K_malloc n ok)) = True"
| "silent (Kern K_free) = True"
| "silent (Psa c) = True"
| "silent (Trans c) = True"
| "silent (App (App_endpoint f x b)) = True"
| "silent (Wifi (Wifi_ap_enable i p)) = True"
| "silent (Wifi (Wifi_ap_disable i)) = True"
| "silent (Wifi (Net_set_ap_address i)) = True"
| "silent (Wifi (Dhcp_server_start i)) = True"
| "silent (Wifi (Dhcp_server_stop i)) = True"
| "silent _ = False"

locale pc_stable =
  fixes I :: "world \<Rightarrow> bool"
  assumes silent_law: "silent c \<Longrightarrow> I (s\<lparr>hist := c # h\<rparr>) = I (s\<lparr>hist := h\<rparr>)"
    and object_law: "I (s\<lparr>pcs := x\<rparr>) = I s" "I (s\<lparr>fault := b\<rparr>) = I s"
    and transport_law: "I (s\<lparr>con := c1\<rparr>) = I s" "I (s\<lparr>sap := c2\<rparr>) = I s" "I (s\<lparr>ble := c3\<rparr>) = I s"
begin

lemma stable_calls [intro!]:
  "silent c \<Longrightarrow> stable I (ext_call c)" "stable I set_fault" "stable I (k_malloc E n)" "stable I (k_free y)"
  "stable I (upd_pc p f)" "stable I (upd_con f1)" "stable I (upd_sap f2)" "stable I (upd_ble f3)"
  "stable I (modify (\<lambda>s. s\<lparr>pcs := g s\<rparr>))"
  by (auto simp: stable_def silent_law object_law transport_law split: option.split)

lemma stable_ask [intro!]: "(\<And>r. silent (c r)) \<Longrightarrow> stable I (ask q c)"
  by (simp add: stable_def silent_law)

lemma stable_with_pc: "(\<And>c. stable I (f c)) \<Longrightarrow> stable I (with_pc p d f)"
  unfolding with_pc_def by (auto split: option.split)

lemma stable_pb [intro!]: "stable I (network_prov_pb_encode E c m)"
  unfolding network_prov_pb_encode_def by (auto split: option.split)

lemma stable_as_sec1: "(\<And>c. stable I (f c)) \<Longrightarrow> stable I (as_sec1 x d f)"
  unfolding as_sec1_def by (auto split: session_ctx.split)

lemma stable_sec1:
  "stable I (sec1_init E pp)" "stable I (sec1_cleanup x)" "stable I (sec1_encrypt E y b)" "stable I (sec1_handshake E y b)"
proof -
  have derive: "stable I (derive_session_key E c)" for c
    unfolding derive_session_key_def mix_pop_def import_session_key_def arm_cipher_def Let_def
    by (auto split: option.split)
  have xform: "stable I (ctr_xform E c b)" for c b
    unfolding ctr_xform_def Let_def by auto
  have cmds: "stable I (handle_cmd0 E c p)" "stable I (handle_cmd1 E c p)" for c p
    unfolding handle_cmd0_def handle_cmd1_def build_resp0_def build_resp1_def Let_def by (auto intro!: derive xform)
  show "stable I (sec1_handshake E y b)"
    unfolding sec1_handshake_def sec1_dispatch_def
    by (auto intro!: stable_as_sec1 cmds split: option.split SecSchemeVersion.split SessionProto.split Sec1MsgType.split)
  show "stable I (sec1_init E pp)" unfolding sec1_init_def Let_def by auto
  show "stable I (sec1_cleanup x)" unfolding sec1_cleanup_def by (auto intro!: stable_as_sec1)
  show "stable I (sec1_encrypt E y b)"
    unfolding sec1_encrypt_def by (auto intro!: stable_as_sec1 xform split: option.split)
qed

lemma stable_vtable:
  "sec_init (prog_vtable E v) = Some f \<Longrightarrow> stable I (f pp)"
  "sec_cleanup (prog_vtable E v) = Some g \<Longrightarrow> stable I (g y)"
  "sec_handshake (prog_vtable E v) = Some hs \<Longrightarrow> stable I (hs x b)"
  "stable I (sec_encrypt (prog_vtable E v) x b)" "stable I (sec_decrypt (prog_vtable E v) x b)"
  by (cases v; auto simp: security0_vtable_def security1_vtable_def sec0_init_def sec0_cleanup_def sec0_passthrough_def
      sec0_handshake_def stable_sec1 split: option.split)+

lemma stable_close [intro!]: "stable I (protocomm_close_session (prog_link E) pc)"
  unfolding protocomm_close_session_def
  by (auto split: option.split intro!: stable_with_pc) (erule stable_vtable)+

lemma stable_session [intro!]:
  "stable I (protocomm_open_session (prog_link E) pc)" "stable I (protocomm_delete (prog_link E) pc)"
proof -
  show "stable I (protocomm_open_session (prog_link E) pc)"
    unfolding protocomm_open_session_def
    by (auto split: option.split intro!: stable_with_pc) (erule stable_vtable)+
  show "stable I (protocomm_delete (prog_link E) pc)"
    unfolding protocomm_delete_def by (auto split: option.split)
qed

lemma stable_registry [intro!]:
  "stable I (add_ep pc n ty h pr)" "stable I (protocomm_add_endpoint pc n h pr)" "stable I (protocomm_set_version pc n v)"
  "stable I (protocomm_set_security pc n sv popv)" "stable I (protocomm_new E)" "stable I (add_custom pc is)"
proof -
  show ep: "stable I (add_ep pc n ty h pr)" for pc n ty h pr
    unfolding add_ep_def by (auto split: option.split intro!: stable_with_pc)
  show add: "stable I (protocomm_add_endpoint pc n h pr)" for pc n h pr
    unfolding protocomm_add_endpoint_def by (rule ep)
  show "stable I (protocomm_set_version pc n v)" "stable I (protocomm_set_security pc n sv popv)" "stable I (protocomm_new E)"
    unfolding protocomm_set_version_def protocomm_set_security_def protocomm_new_def by (auto intro!: ep split: option.split)
  show "stable I (add_custom pc is)"
    by (induction "is") (auto simp: chk_def intro!: add)
qed

lemma stable_start [intro!]: "stable I (scheme_start E x pc name key)"
proof -
  have svc: "stable I build_service"
    unfolding build_service_def name_endpoint_def protocomm_endpoint_count_def protocomm_endpoint_name_def Let_def
    by (auto split: option.split intro!: stable_with_pc)
  have adv: "stable I (build_adv E name)" "stable I (ble_adv_start E)"
    unfolding build_adv_def ble_adv_start_def by auto
  show ?thesis
    by (cases "(E, x, pc, name, key)" rule: scheme_start.cases)
      (auto simp: ble_scheme_start_def network_prov_ble_start_def network_prov_softap_start_def softap_ap_start_def
        network_prov_softap_http_start_def console_scheme_start_def network_prov_console_start_def Let_def
        intro!: svc adv split: option.split)
qed

lemma stable_gatt:
  "stable I (write_answer E i n r)" "stable I (ble_adv_start E)" "stable I (for_each (\<lambda>i. set_resp i []) xs)"
  unfolding write_answer_def set_resp_def ble_adv_start_def Let_def by auto

lemma gatt_null_stable:
  assumes "I s" "ble_pc (ble s) = None"
  shows "wp (ble_event_run E ev) (\<lambda>_. I) s"
  using assms by (cases ev)
      (auto simp: ble_connected_def ble_disconnected_def ble_recycled_def write_ep_def protocomm_open_session_def
        protocomm_close_session_def protocomm_req_handle_def simp del: upt_Suc for_each.simps
        intro!: stableD [OF stable_gatt(1)] stableD [OF stable_gatt(2)] stableD [OF stable_gatt(3)])

lemma stable_stop [intro!]: "stable I (scheme_stop E x)"
  by (cases "(E, x)" rule: scheme_stop.cases)
    (auto simp: network_prov_ble_stop_def network_prov_softap_stop_def network_prov_softap_http_stop_def softap_ap_stop_def
      network_prov_console_stop_def split: option.split)

end

section \<open>Requests\<close>

text \<open>A live instance together with a predicate.\<close>

definition live_and :: "env \<Rightarrow> (world \<Rightarrow> bool) \<Rightarrow> nat \<Rightarrow> world \<Rightarrow> bool" where
  "live_and E I p s \<longleftrightarrow> I s \<and> pc_live E p s"

locale request_stable = pc_stable I for I +
  fixes E :: env
  assumes handler_law: "callable E h pr \<Longrightarrow> stable I (prog_handler E h pr b)"
begin

lemma live_and_simps [simp]:
  "silent c \<Longrightarrow> live_and E I p (s\<lparr>hist := c # h\<rparr>) = live_and E I p (s\<lparr>hist := h\<rparr>)"
  "live_and E I p (s\<lparr>con := c1\<rparr>) = live_and E I p s" "live_and E I p (s\<lparr>sap := c2\<rparr>) = live_and E I p s"
  "live_and E I p (s\<lparr>ble := c3\<rparr>) = live_and E I p s"
  by (simp_all add: live_and_def silent_law transport_law)

lemma data_stable:
  assumes "\<And>h. ep_handler ep = Some h \<Longrightarrow> callable E h (ep_priv ep)"
  shows "stable I (handle_data E (prog_link E) p v ep b)"
proof -
  have crypt: "stable I (crypt p f x)" if "\<And>c y. stable I (f c y)" for f x
    unfolding crypt_def by (auto intro!: that stable_with_pc)
  have enc: "stable I (encrypt_response E (prog_vtable E v) p raw)" for raw
    unfolding encrypt_response_def by (auto split: option.split intro!: crypt stable_vtable(4))
  show ?thesis
    unfolding handle_data_def decrypt_request_def run_endpoint_def
    using assms by (auto split: option.split sum.split intro!: handler_law crypt enc stable_vtable(5))
qed

lemma request_live:
  assumes "live_and E I p s" and laws: "buffer_laws E"
  shows "wp (protocomm_req_handle E (prog_link E) (Some p) (Some n) b) (\<lambda>_ s'. live_and E I p s' \<and> statics s' = statics s) s"
proof -
  from assms(1) have I: "I s" and live: "pc_live E p s" by (simp_all add: live_and_def)
  from live obtain c where c: "pcs s p = Some c"
    "\<And>ep h. ep \<in> set (endpoints c) \<Longrightarrow> ep_handler ep = Some h \<Longrightarrow> callable E h (ep_priv ep)"
    by (auto simp: pc_live_def)
  have ver: "stable I (handle_version E p)"
    unfolding handle_version_def by (auto split: option.split intro!: stable_with_pc)
  have hs: "stable I (do { rx \<leftarrow> f x y; upd_pc p (g rx); ret (fst rx) })"
    if "sec_handshake (prog_vtable E v) = Some f" for f x y v g
    using stable_vtable(3) [OF that] by auto
  have ep: "wp (handle_data E (prog_link E) p v ep b) (\<lambda>_. I) s" if "find_ep c n = Some ep" for ep v
    using that by (intro stableD [OF data_stable I] c(2)) (auto simp: find_ep_def dest: find_ep_list_Some)
  have "wp (protocomm_req_handle E (prog_link E) (Some p) (Some n) b) (\<lambda>_. I) s"
    unfolding protocomm_req_handle_def using I c(1) stableD [OF ver I] stableD [OF hs I]
    by (auto split: option.split ep_type.split intro!: ep simp del: wp_bind)
  from wp_conj [OF this live_request [OF live laws]] show ?thesis
    by (rule wp_mono) (auto simp: live_and_def live_step_def)
qed

lemma session_live:
  assumes "live_and E I p s"
  shows "wp (protocomm_open_session (prog_link E) (Some p)) (\<lambda>_ s'. live_and E I p s' \<and> statics s' = statics s) s"
    "wp (protocomm_close_session (prog_link E) (Some p)) (\<lambda>_ s'. live_and E I p s' \<and> statics s' = statics s) s"
proof -
  from assms have I: "I s" and live: "pc_live E p s" by (simp_all add: live_and_def)
  show "wp (protocomm_open_session (prog_link E) (Some p)) (\<lambda>_ s'. live_and E I p s' \<and> statics s' = statics s) s"
    by (rule wp_mono [OF wp_conj [OF stableD [OF stable_session(1) I] live_open [OF live]]])
      (auto simp: live_and_def live_step_def)
  show "wp (protocomm_close_session (prog_link E) (Some p)) (\<lambda>_ s'. live_and E I p s' \<and> statics s' = statics s) s"
    by (rule wp_mono [OF wp_conj [OF stableD [OF stable_close I] live_close [OF live]]])
      (auto simp: live_and_def live_step_def)
qed

lemma shell_stable:
  assumes "live_and E I p s" "con_pc (con s) = Some p" and laws: "buffer_laws E"
  shows "wp (cmd_net_prov E ep n hex) (\<lambda>_. I) s"
proof -
  have I: "I s" using assms(1) by (simp add: live_and_def)
  have answer: "stable I (console_answer E r)" for r
    unfolding console_answer_def Let_def by auto
  have run: "wp (do { console_ensure_session E k; r \<leftarrow> protocomm_req_handle E (prog_link E) (Some p) (Some ep) x;
      k_free (Some x); console_answer E r }) (\<lambda>_. I) t"
    if "live_and E I p t" "con t = con s" for k x t
  proof -
    have ens: "wp (console_ensure_session E k) (\<lambda>_ s'. live_and E I p s') t"
      unfolding console_ensure_session_def using that assms(2)
      by (auto intro!: wp_mono [OF session_live(1)])
    show ?thesis
      unfolding wp_bind [of "console_ensure_session E k"] wp_bind [of "protocomm_req_handle E (prog_link E) (Some p) (Some ep) x"]
      by (rule wp_mono [OF ens], rule wp_mono [OF request_live [OF _ laws]], assumption)
        (auto simp: live_and_def silent_law intro!: stableD [OF answer])
  qed
  have read: "wp (console_read_request E hex) (\<lambda>_ s'. live_and E I p s' \<and> con s' = con s) s"
    using assms(1) by (auto simp: console_read_request_def Let_def)
  have rest: "wp (case rd of Inl e \<Rightarrow> ret e | Inr x \<Rightarrow> do { console_ensure_session E k;
      r \<leftarrow> protocomm_req_handle E (prog_link E) (Some p) (Some ep) x; k_free (Some x); console_answer E r }) (\<lambda>_. I) t"
    if "live_and E I p t \<and> con t = con s" for rd k t
    using that run [of t k] by (cases rd) (simp_all add: live_and_def del: wp_bind)
  show ?thesis
    unfolding cmd_net_prov_def using assms(2) I wp_mono [OF read rest]
    by (simp add: silent_law split: option.split)
qed

lemma http_stable:
  assumes "live_and E I p s" "sap_pc (sap s) = Some p" and laws: "buffer_laws E"
  shows "wp (http_callback_run E c) (\<lambda>_. I) s"
proof -
  have I: "I s" using assms(1) by (simp add: live_and_def)
  have respond: "stable I (http_respond r)" for r
    unfolding http_respond_def Let_def by auto
  have ens: "wp (ensure_session E) (\<lambda>_ s'. live_and E I p s' \<and> sap_pc (sap s') = Some p) t"
    if "live_and E I p t" "sap_pc (sap t) = Some p" for t
    unfolding ensure_session_def start_new_session_def using that
    by (auto simp: statics_def intro!: wp_mono [OF session_live(1)])
  have run: "wp (http_run E ep) (\<lambda>_. I) t" if "live_and E I p t" "sap_pc (sap t) = Some p" for ep t
    unfolding http_run_def wp_bind [of "ensure_session E"]
    by (rule wp_mono [OF ens [OF that]], simp, rule wp_mono [OF request_live [OF _ laws]])
      (auto simp: live_and_def transport_law intro!: stableD [OF respond])
  show ?thesis
    unfolding http_callback_run_def prov_http_handler_def request_reset_def latch_cookie_def Let_def
    using assms I by (auto simp: transport_law intro!: run split: option.split)
qed

lemma gatt_stable:
  assumes "live_and E I p s" "ble_pc (ble s) = Some p" and laws: "buffer_laws E"
  shows "wp (ble_event_run E ev) (\<lambda>_. I) s"
proof -
  have I: "I s" using assms(1) by (simp add: live_and_def)
  show ?thesis
  proof (cases ev)
    case (Ev_connected err)
    then show ?thesis using I assms
      by (auto simp: ble_connected_def live_and_def intro!: wp_mono [OF session_live(1)])
  next
    case Ev_disconnected
    then show ?thesis using assms
      by (auto simp: ble_disconnected_def live_and_def simp del: upt_Suc for_each.simps
          intro!: wp_mono [OF session_live(2)] stableD [OF stable_gatt(3)])
  next
    case Ev_recycled
    then show ?thesis using I by (auto simp: ble_recycled_def intro!: stableD [OF stable_gatt(2)])
  next
    case (Ev_write i buf off prep)
    then show ?thesis using I assms
      by (auto simp: write_ep_def live_and_def intro!: wp_mono [OF request_live [OF _ laws]] stableD [OF stable_gatt(1)])
  qed
qed

end

end
