(* ===== verification/Program_Types.thy ===== *)
theory Program_Types
  imports System Stability
begin

text \<open>
  The sizes of all static data of the program: every array keeps the size it is declared with and every
  length field stays inside its array, after any sequence of steps of the whole program.
\<close>

section \<open>Well-typed statics\<close>

definition tc_wf :: "thread_config_state \<Rightarrow> bool" where
  "tc_wf t \<longleftrightarrow> length (tc_mTlvs t) = OT_DATASET_MAX \<and> tc_mLength t \<le> OT_DATASET_MAX"

definition sc_wf :: "env \<Rightarrow> wifi_scan_state \<Rightarrow> bool" where
  "sc_wf E c \<longleftrightarrow> length (sc_entries c) \<le> SCAN_MAX_ENTRIES (cfg E) \<and>
     (\<forall>e \<in> set (sc_entries c). length (se_ssid e) \<le> WIFI_SSID_MAX_LEN \<and> length (se_bssid e) \<le> WIFI_MAC_ADDR_LEN)"

definition ts_wf :: "env \<Rightarrow> thread_scan_state \<Rightarrow> bool" where
  "ts_wf E t \<longleftrightarrow> length (ts_entries t) \<le> SCAN_MAX_ENTRIES (cfg E) \<and>
     (\<forall>e \<in> set (ts_entries t). length (te_ext_addr e) \<le> OT_EXT_ADDRESS_SIZE \<and>
       length (te_ext_pan_id e) \<le> OT_EXT_PAN_ID_SIZE \<and> length (te_network_name e) \<le> OT_NETWORK_NAME_MAX_SIZE)"

definition net_typed :: "env \<Rightarrow> world \<Rightarrow> bool" where
  "net_typed E s \<longleftrightarrow> wc_wf (wc s) \<and> tc_wf (tc s) \<and> sc_wf E (sc s) \<and> ts_wf E (ts s) \<and> length (version_json (mgr s)) < 448"

lemma net_typed_boot: "net_typed E (boot_world E)"
  by (simp add: net_typed_def boot_world_def wc_wf_def wc_zero_def tc_wf_def tc_zero_def sc_wf_def ts_wf_def ts_zero_def
      mgr_zero_def)

lemma net_typed_simps [simp]:
  "net_typed E (s\<lparr>hist := h\<rparr>) = net_typed E s" "net_typed E (s\<lparr>fault := b\<rparr>) = net_typed E s"
  "net_typed E (s\<lparr>pcs := x\<rparr>) = net_typed E s" "net_typed E (s\<lparr>con := c1\<rparr>) = net_typed E s"
  "net_typed E (s\<lparr>sap := c2\<rparr>) = net_typed E s" "net_typed E (s\<lparr>ble := c3\<rparr>) = net_typed E s"
  by (simp_all add: net_typed_def)

interpretation typed: pc_stable "net_typed E" for E
  by unfold_locales simp_all

lemma typed_ext [intro!]: "stable (net_typed E) (ext_call c)" "stable (net_typed E) (ask q f)"
  "stable (net_typed E) (network_prov_emit_event E ev)" "stable (net_typed E) (k_sem_take E sem t)"
  by (simp_all add: stable_def)

lemma typed_upd:
  "(\<And>w. wc_wf w \<Longrightarrow> wc_wf (f1 w)) \<Longrightarrow> stable (net_typed E) (upd_wc f1)"
  "(\<And>t. tc_wf t \<Longrightarrow> tc_wf (f2 t)) \<Longrightarrow> stable (net_typed E) (upd_tc f2)"
  "(\<And>c. sc_wf E c \<Longrightarrow> sc_wf E (f3 c)) \<Longrightarrow> stable (net_typed E) (upd_sc f3)"
  "(\<And>t. ts_wf E t \<Longrightarrow> ts_wf E (f4 t)) \<Longrightarrow> stable (net_typed E) (upd_ts f4)"
  "(\<And>m. length (version_json m) < 448 \<Longrightarrow> length (version_json (f5 m)) < 448) \<Longrightarrow> stable (net_typed E) (upd_mgr f5)"
  by (simp_all add: stable_def net_typed_def)

section \<open>The handlers\<close>

lemma typed_wifi:
  "stable (net_typed E) clear_inflight" "stable (net_typed E) (retry_work_handler E)"
  "stable (net_typed E) (wifi_config_mgmt_event E ev)" "stable (net_typed E) (network_prov_wifi_config_init n)"
  "stable (net_typed E) network_prov_wifi_config_deinit" "stable (net_typed E) network_prov_wifi_config_reset"
  "stable (net_typed E) (wifi_do_set_config cmd)" "stable (net_typed E) (wifi_do_apply_config E)"
  "stable (net_typed E) (network_prov_wifi_config_set_and_apply E ssid psk)"
  "stable (net_typed E) (network_prov_wifi_config_handler E b)" "stable (net_typed E) (network_prov_wifi_ctrl_handler E b)"
proof -
  have wf: "wc_wf w \<Longrightarrow> wc_wf (snapshot_inflight w)" for w by (rule snapshot_wf)
  have failed: "wc_wf (w\<lparr>sta_state := a, fail_reason := r\<rparr>) = wc_wf w" for w a r by (simp add: wc_wf_def)
  show clear: "stable (net_typed E) clear_inflight"
    unfolding clear_inflight_def by (rule typed_upd) (simp add: wc_wf_def)
  have conn: "stable (net_typed E) (connect_from_inflight E)" "stable (net_typed E) (cred_delete E ssid)" for ssid
    unfolding connect_from_inflight_def wifi_iface_def cred_delete_def by (auto split: option.split)
  have final: "stable (net_typed E) (final_failure E)"
    unfolding final_failure_def by (auto intro!: typed_upd clear conn simp: wc_wf_def)
  show "stable (net_typed E) (retry_work_handler E)"
    unfolding retry_work_handler_def by (auto intro!: conn final)
  show "stable (net_typed E) (wifi_config_mgmt_event E ev)"
    unfolding wifi_config_mgmt_event_def on_connect_result_def
    by (auto intro!: typed_upd clear final simp: wc_wf_def split: wifi_event.split)
  show "stable (net_typed E) (network_prov_wifi_config_init n)" "stable (net_typed E) network_prov_wifi_config_deinit"
    "stable (net_typed E) network_prov_wifi_config_reset"
    unfolding network_prov_wifi_config_init_def network_prov_wifi_config_deinit_def network_prov_wifi_config_reset_def
    by (auto intro!: typed_upd clear simp: wc_wf_def)
  show set: "stable (net_typed E) (wifi_do_set_config cmd)" for cmd
    unfolding wifi_do_set_config_def by (auto intro!: typed_upd simp: wc_wf_def length_memcpy_at)
  show app: "stable (net_typed E) (wifi_do_apply_config E)"
    unfolding wifi_do_apply_config_def wifi_iface_def
    by (auto intro!: typed_upd clear conn wf simp: failed split: option.split)
  show "stable (net_typed E) (network_prov_wifi_config_set_and_apply E ssid psk)"
    unfolding network_prov_wifi_config_set_and_apply_def Let_def
    by (auto intro!: typed_upd app simp: wc_wf_def length_memcpy_at split: option.split)
  have enc: "stable (net_typed E) (wifi_encode_get_status E)"
    unfolding wifi_encode_get_status_def fill_connected_state_def by (auto split: option.split)
  show "stable (net_typed E) (network_prov_wifi_config_handler E b)"
    unfolding network_prov_wifi_config_handler_def wifi_encode_simple_def
    by (auto intro!: set app enc split: option.split NetworkConfigMsgType.split)
  show "stable (net_typed E) (network_prov_wifi_ctrl_handler E b)"
    unfolding network_prov_wifi_ctrl_handler_def network_prov_wifi_config_reset_def
    by (auto intro!: typed_upd clear simp: wc_wf_def split: option.split NetworkCtrlMsgType.split)
qed

lemma typed_thread:
  "stable (net_typed E) (run_attach_timeout E)" "stable (net_typed E) (ot_state_changed E rc)"
  "stable (net_typed E) (network_prov_thread_config_init E)" "stable (net_typed E) network_prov_thread_config_deinit"
  "stable (net_typed E) (network_prov_thread_config_reset E)" "stable (net_typed E) (network_prov_thread_config_erase E)"
  "stable (net_typed E) (network_prov_thread_is_commissioned E)"
  "stable (net_typed E) (network_prov_thread_config_handler E b)" "stable (net_typed E) (network_prov_thread_ctrl_handler E b)"
proof -
  have att: "stable (net_typed E) (on_attached E)" "stable (net_typed E) (commit_dataset E)"
    unfolding on_attached_def claim_pending_def commit_dataset_def by (auto intro!: typed_upd simp: tc_wf_def)
  show "stable (net_typed E) (run_attach_timeout E)" "stable (net_typed E) (ot_state_changed E rc)"
    unfolding run_attach_timeout_def attach_timeout_fn_def claim_pending_def ot_state_changed_def
    by (auto intro!: typed_upd att simp: tc_wf_def)
  show reset: "stable (net_typed E) (network_prov_thread_config_reset E)"
    "stable (net_typed E) (network_prov_thread_config_init E)" "stable (net_typed E) network_prov_thread_config_deinit"
    "stable (net_typed E) (network_prov_thread_config_erase E)" "stable (net_typed E) (network_prov_thread_is_commissioned E)"
    unfolding network_prov_thread_config_init_def network_prov_thread_config_deinit_def network_prov_thread_config_reset_def
      network_prov_thread_config_erase_def network_prov_thread_is_commissioned_def
    by (auto intro!: typed_upd simp: tc_wf_def tc_zero_def)
  have ops: "stable (net_typed E) (thread_do_set_config ds)" "stable (net_typed E) (thread_do_apply_config E)"
    "stable (net_typed E) (thread_encode_get_status E)" for ds
    unfolding thread_do_set_config_def thread_do_apply_config_def thread_encode_get_status_def fill_attached_state_def
    by (auto intro!: typed_upd att simp: tc_wf_def length_memcpy_at)
  show "stable (net_typed E) (network_prov_thread_config_handler E b)"
    unfolding network_prov_thread_config_handler_def thread_encode_simple_def
    by (auto intro!: ops split: option.split NetworkConfigMsgType.split)
  show "stable (net_typed E) (network_prov_thread_ctrl_handler E b)"
    unfolding network_prov_thread_ctrl_handler_def by (auto intro!: reset split: option.split NetworkCtrlMsgType.split)
qed

lemma typed_scan:
  "stable (net_typed E) (wifi_scan_mgmt_event E ev)" "stable (net_typed E) network_prov_wifi_scan_init"
  "stable (net_typed E) network_prov_wifi_scan_deinit" "stable (net_typed E) (network_prov_wifi_scan_handler E b)"
proof -
  show ev: "stable (net_typed E) (wifi_scan_mgmt_event E ev)" for ev
  proof (cases ev)
    case (SCAN_RESULT r)
    have "length (se_ssid (scan_entry_of r)) \<le> 32" "length (se_bssid (scan_entry_of r)) \<le> 6"
      by (simp_all add: scan_entry_of_def)
    then show ?thesis
      by (auto simp: SCAN_RESULT wifi_scan_mgmt_event_def on_scan_result_def stable_def net_typed_def sc_wf_def)
  next
    case SCAN_DONE
    then show ?thesis by (auto simp: wifi_scan_mgmt_event_def sc_wf_def intro!: typed_upd)
  qed
  show "stable (net_typed E) network_prov_wifi_scan_init" "stable (net_typed E) network_prov_wifi_scan_deinit"
    unfolding network_prov_wifi_scan_init_def network_prov_wifi_scan_deinit_def by (auto intro!: typed_upd simp: sc_wf_def)
  have start: "stable (net_typed E) (wifi_scan_start E blocking)" for blocking
    unfolding wifi_scan_start_def wifi_do_scan_start_def wifi_scan_wait_def wifi_scan_encode_def
    by (auto intro!: typed_upd ev simp: sc_wf_def split: option.split)
  show "stable (net_typed E) (network_prov_wifi_scan_handler E b)"
    unfolding network_prov_wifi_scan_handler_def wifi_scan_encode_def
    by (auto intro!: start split: option.split NetworkScanMsgType.split)
qed

lemma typed_tscan:
  "stable (net_typed E) (discover_cb E r)" "stable (net_typed E) network_prov_thread_scan_init"
  "stable (net_typed E) network_prov_thread_scan_deinit" "stable (net_typed E) (network_prov_thread_scan_handler E b)"
proof -
  show cb: "stable (net_typed E) (discover_cb E r)" for r
  proof (cases r)
    case (Some x)
    have "length (te_ext_addr (thread_entry_of x)) \<le> OT_EXT_ADDRESS_SIZE" "length (te_ext_pan_id (thread_entry_of x)) \<le> OT_EXT_PAN_ID_SIZE"
      "length (te_network_name (thread_entry_of x)) \<le> OT_NETWORK_NAME_MAX_SIZE"
      by (simp_all add: thread_entry_of_def length_strncpy_z)
    then show ?thesis by (auto simp: Some discover_cb_def stable_def net_typed_def ts_wf_def)
  next
    case None
    then show ?thesis by (auto simp: discover_cb_def ts_wf_def intro!: typed_upd)
  qed
  show "stable (net_typed E) network_prov_thread_scan_init" "stable (net_typed E) network_prov_thread_scan_deinit"
    unfolding network_prov_thread_scan_init_def network_prov_thread_scan_deinit_def
    by (auto intro!: typed_upd simp: ts_wf_def ts_zero_def)
  have start: "stable (net_typed E) (thread_scan_start E blocking mask)" for blocking mask
    unfolding thread_scan_start_def thread_scan_start_state_def thread_do_scan_start_def thread_scan_wait_def
      thread_scan_encode_def
    by (auto intro!: typed_upd cb simp: ts_wf_def)
  show "stable (net_typed E) (network_prov_thread_scan_handler E b)"
    unfolding network_prov_thread_scan_handler_def thread_scan_encode_def
    by (auto intro!: start split: option.split NetworkScanMsgType.split NetworkScanUnion.split)
qed

lemma typed_handler: "stable (net_typed E) (prog_handler E h pr b)"
proof (cases h)
  case H_custom_trampoline
  then show ?thesis
    by (auto simp: custom_trampoline_def app_handler_def split: option.split)
qed (simp_all add: typed_wifi typed_thread typed_scan typed_tscan)

section \<open>The manager and all steps\<close>

lemma typed_manager:
  "stable (net_typed E) (do_teardown E)" "stable (net_typed E) (api_run E c)"
proof -
  have net: "stable (net_typed E) (net_endpoints_init E pc)" "stable (net_typed E) (net_endpoints_deinit E)"
    "stable (net_typed E) (net_config_reset E)" for pc
    unfolding net_endpoints_init_def net_endpoints_deinit_def net_config_reset_def chk_def
    by (auto intro!: typed_wifi typed_thread typed_scan typed_tscan)
  show tear: "stable (net_typed E) (do_teardown E)"
    unfolding do_teardown_def by (auto intro!: typed_upd net)
  have ver: "stable (net_typed E) (build_version_json E v popv)" for v popv
    unfolding build_version_json_def Let_def by (rule typed_upd) (simp add: snprintf_def)
  have start: "stable (net_typed E) (network_prov_mgr_start_provisioning E v popv name key)" for v popv name key
    unfolding network_prov_mgr_start_provisioning_def start_service_def chk_def by (auto intro!: typed_upd net ver)
  have upd: "stable (net_typed E) (network_prov_mgr_set_app_info l v cs k)" "stable (net_typed E) (network_prov_mgr_endpoint_create n)"
    "stable (net_typed E) (network_prov_mgr_endpoint_register n f x)" "stable (net_typed E) (network_prov_mgr_endpoint_unregister n)"
    for l v cs k n f x
    unfolding network_prov_mgr_set_app_info_def network_prov_mgr_endpoint_create_def network_prov_mgr_endpoint_register_def
      network_prov_mgr_endpoint_unregister_def Let_def
    by (auto intro!: typed_upd split: option.split)
  show "stable (net_typed E) (api_run E c)"
    by (cases c) (auto simp: forget_def network_prov_mgr_init_def network_prov_mgr_deinit_def chk_def
        network_prov_mgr_stop_provisioning_def network_prov_mgr_is_provisioned_def network_prov_mgr_disable_auto_stop_def
        network_prov_mgr_reset_wifi_provisioning_def network_prov_mgr_reset_wifi_sm_state_on_failure_def
        network_prov_mgr_reset_wifi_sm_state_for_reprovision_def network_prov_mgr_configure_wifi_sta_def
        network_prov_scheme_ble_set_service_uuid_def network_prov_scheme_ble_set_mfg_data_def
        intro!: typed_upd net start tear upd typed_wifi typed_thread split: option.split)
qed

text \<open>Every step of the program, on a state that satisfies the program invariant.\<close>

lemma live_running:
  assumes "prog_inv E s" "started (mgr s)" "I s"
  obtains p where "live_and E I p s" "scheme_bound (scheme (mgr s)) s = Some p" "transports_ok E (scheme (mgr s)) s"
  using assms(1) by (cases rule: prog_invE) (use assms(2,3) in \<open>auto simp: running_def live_and_def\<close>)

context request_stable
begin

lemma transport_events:
  assumes "prog_inv E s" "I s" "enabled ev s" "buffer_laws E"
  shows "ev = Shell ep n hex \<Longrightarrow> wp (event_run E ev) (\<lambda>_. I) s" "ev = Http c \<Longrightarrow> wp (event_run E ev) (\<lambda>_. I) s"
    "ev = Gatt g \<Longrightarrow> wp (event_run E ev) (\<lambda>_. I) s"
proof -
  show "wp (event_run E ev) (\<lambda>_. I) s" if "ev = Shell ep n hex"
  proof (cases "con_pc (con s)")
    case None
    with that assms(2) show ?thesis by (simp add: forget_def cmd_net_prov_def silent_law)
  next
    case (Some q)
    have st: "started (mgr s)" "scheme (mgr s) = Some network_prov_scheme_console"
      using assms(1) Some by (auto simp: prog_inv_def transports_ok_def split: if_splits)
    obtain p where "live_and E I p s" "scheme_bound (scheme (mgr s)) s = Some p"
      by (rule live_running [where I = I, OF assms(1) st(1) assms(2)])
    with st(2) that show ?thesis using wp_mono [OF shell_stable] assms(4) by (simp add: forget_def)
  qed
  show "wp (event_run E ev) (\<lambda>_. I) s" if "ev = Http c"
  proof -
    have st: "started (mgr s)" "scheme (mgr s) = Some network_prov_scheme_softap" using that assms(3) by simp_all
    obtain p where "live_and E I p s" "scheme_bound (scheme (mgr s)) s = Some p"
      by (rule live_running [where I = I, OF assms(1) st(1) assms(2)])
    with st(2) that show ?thesis by (simp add: http_stable assms(4))
  qed
  show "wp (event_run E ev) (\<lambda>_. I) s" if "ev = Gatt g"
  proof (cases "ble_pc (ble s)")
    case None
    with that assms(2) show ?thesis by (simp add: gatt_null_stable)
  next
    case (Some q)
    then have st: "started (mgr s)" "scheme (mgr s) = Some network_prov_scheme_ble" using that assms(3) by simp_all
    obtain p where "live_and E I p s" "scheme_bound (scheme (mgr s)) s = Some p"
      by (rule live_running [where I = I, OF assms(1) st(1) assms(2)])
    with st(2) that show ?thesis by (simp add: gatt_stable assms(4))
  qed
qed

end

interpretation typed_req: request_stable "net_typed E" E for E
  by unfold_locales (rule typed_handler)

lemma typed_event:
  assumes "prog_inv E s" "buffer_laws E" "enabled ev s" "net_typed E s"
  shows "wp (event_run E ev) (\<lambda>_. net_typed E) s"
proof (cases ev)
  case (Api c)
  then show ?thesis using assms(4) typed_manager(2) by (simp add: stableD)
next
  case Teardown_due
  then show ?thesis using assms(4) typed_manager(1) by (simp add: teardown_work_fn_def stableD)
qed (use assms(4) typed_req.transport_events [OF assms(1,4,3,2)] in
  \<open>auto intro!: stableD [OF typed_wifi(2)] stableD [OF typed_wifi(3)] stableD [OF typed_scan(1)]
    stableD [OF typed_thread(1)] stableD [OF typed_thread(2)] stableD [OF typed_tscan(1)]\<close>)

lemma reachable_typed:
  assumes "reachable E s" "config_ok E" "buffer_laws E"
  shows "net_typed E s"
  using assms(1)
proof induction
  case boot
  then show ?case by (rule net_typed_boot)
next
  case (step s s')
  from step(2) show ?case
    by (rule prog_stepE) (use wp_runD [OF typed_event [OF reachable_inv [OF step(1) assms(2,3)] assms(3) _ step(3)]] in auto)
qed

section \<open>Properties\<close>

text \<open>C6. The static data of the program stays well typed. After any sequence of application calls, client
  requests of any content, scan results, network events and work items, in any build: the staged and the
  in-flight Wi-Fi credentials fit their arrays (33, 64 and 6 bytes) and the lengths stay inside them; the Thread
  dataset fits its 254 bytes; the scan caches hold at most the configured number of entries with fields of
  their declared sizes; the version document and the application section are shorter than their arrays; the
  HTTP request buffer, the GATT responses, the service UUID and the manufacturer data fit theirs; and the
  application endpoints are as many as configured, with distinct names of at most 15 characters.\<close>

theorem program_typed:
  assumes "reachable E s" and "config_ok E" and "buffer_laws E"
  shows "wc_wf (wc s) \<and> tc_wf (tc s) \<and> sc_wf E (sc s) \<and> ts_wf E (ts s) \<and>
     length (version_json (mgr s)) < 448 \<and> length (app_info_json (mgr s)) < 256 \<and>
     length (req_buf (sap s)) \<le> REQ_BUF_LEN \<and> ble_inv E (ble s) \<and>
     length (custom (mgr s)) = MAX_CUSTOM_ENDPOINTS (cfg E) \<and>
     distinct (map ce_name (filter ce_created (custom (mgr s)))) \<and>
     (\<forall>e \<in> set (custom (mgr s)). ce_created e \<longrightarrow> length (ce_name e) < PROTOCOMM_EP_NAME_MAX)"
  using reachable_typed [OF assms] reachable_inv [OF assms]
  by (auto simp: net_typed_def prog_inv_def mgr_ok_def custom_ok_def transports_ok_def softap_inv_def)

theorem program_typed_witness: "wc_wf (wc demo_service) \<and> ble_inv demo_env (ble demo_service) \<and> started (mgr demo_service)"
  using program_typed [OF demo_reachable(2) demo_env_config demo_running_live(2)] demo_service_started by blast

end
