(* ===== verification/Event_Protocol.thy ===== *)
theory Event_Protocol
  imports Program_Types
begin

text \<open>
  What the application sees: the events that the manager delivers form runs of a small automaton. The proof
  composes the manager, the transports, the endpoint handlers and the callbacks of the network stacks: which
  of them can report, and in which phase.
\<close>

section \<open>The automaton\<close>

text \<open>The view that the application has of the manager; while a service runs, the number says how many
  received credentials have no outcome yet. A new Apply over Wi-Fi replaces the attempt under way, so that one
  outcome answers all credentials received before it; a Thread dataset that OpenThread refuses is answered at
  once, while the attach of an earlier dataset goes on and is answered separately.\<close>

datatype app_view = App_down | App_ready | App_provisioning nat

fun app_next :: "bool \<Rightarrow> network_prov_cb_event \<Rightarrow> app_view \<Rightarrow> app_view option" where
  "app_next thread NETWORK_PROV_INIT App_down = Some App_ready"
| "app_next thread NETWORK_PROV_START App_ready = Some (App_provisioning 0)"
| "app_next thread NETWORK_PROV_CRED_RECV (App_provisioning n) = Some (App_provisioning (Suc n))"
| "app_next thread (NETWORK_PROV_CRED_FAIL r) (App_provisioning (Suc n)) = Some (App_provisioning (if thread then n else 0))"
| "app_next thread NETWORK_PROV_CRED_SUCCESS (App_provisioning (Suc n)) = Some (App_provisioning (if thread then n else 0))"
| "app_next thread NETWORK_PROV_END (App_provisioning n) = Some App_ready"
| "app_next thread NETWORK_PROV_DEINIT App_ready = Some App_down"
| "app_next _ _ _ = None"

text \<open>The run of the automaton over the events, newest first.\<close>

fun app_run :: "bool \<Rightarrow> network_prov_cb_event list \<Rightarrow> app_view option" where
  "app_run thread [] = Some App_down"
| "app_run thread (e # es) = Option.bind (app_run thread es) (app_next thread e)"

section \<open>Lawful runs\<close>

text \<open>The kernel runs a work item only when it is scheduled, and OpenThread calls the state callback only
  while it is registered.\<close>

fun delivered :: "prog_event \<Rightarrow> world \<Rightarrow> bool" where
  "delivered (Thread_role_changed rc) s = tc_cb_registered (tc s)"
| "delivered Attach_due s = armed Attach_timeout (hist s)"
| "delivered _ s = True"

inductive lawful :: "env \<Rightarrow> world \<Rightarrow> bool" for E where
  boot: "lawful E (boot_world E)"
| step: "lawful E s \<Longrightarrow> enabled ev s \<Longrightarrow> delivered ev s \<Longrightarrow> run_state (event_run E ev) s = (u, s') \<Longrightarrow> lawful E s'"

lemma lawful_reachable: "lawful E s \<Longrightarrow> reachable E s"
  by (induction rule: lawful.induct) (auto intro: reachable.intros prog_step.intros)

section \<open>The invariant\<close>

text \<open>The automaton has accepted all events and is where it should be while a service runs, with or
  without an attempt under way; without a callback there are no events.\<close>

abbreviation app_view_of :: "env \<Rightarrow> history \<Rightarrow> app_view option" where
  "app_view_of E h \<equiv> app_run (NETWORK_TYPE_THREAD (cfg E)) (app_events h)"

definition prov_view :: "env \<Rightarrow> bool \<Rightarrow> bool \<Rightarrow> history \<Rightarrow> bool" where
  "prov_view E cb active h \<longleftrightarrow>
     (if cb then \<exists>n. app_view_of E h = Some (App_provisioning n) \<and> (active \<longrightarrow> 0 < n)
      else app_view_of E h = Some App_down)"

definition attempting :: "world \<Rightarrow> bool" where
  "attempting s \<longleftrightarrow> 0 < inflight_ssid_len (wc s) \<or> pending (tc s)"

text \<open>The handler of the other network type is never used.\<close>

definition one_network :: "env \<Rightarrow> world \<Rightarrow> bool" where
  "one_network E s \<longleftrightarrow> (if NETWORK_TYPE_THREAD (cfg E) then inflight_ssid_len (wc s) = 0
     else \<not> pending (tc s) \<and> \<not> tc_cb_registered (tc s) \<and> \<not> armed Attach_timeout (hist s))"

definition serving :: "env \<Rightarrow> world \<Rightarrow> bool" where
  "serving E s \<longleftrightarrow> started (mgr s) \<and> inited (mgr s) \<and> one_network E s \<and> prov_view E (event_cb (mgr s)) (attempting s) (hist s)"

text \<open>While no service runs, during a start and at the end of a service: no attempt is in flight and no
  timeout armed; \<open>P\<close> is what else is known of the Thread handler, \<open>ini\<close> whether the manager is initialised.\<close>

definition at_rest :: "env \<Rightarrow> (thread_config_state \<Rightarrow> bool) \<Rightarrow> world \<Rightarrow> bool" where
  "at_rest E P s \<longleftrightarrow> inflight_ssid_len (wc s) = 0 \<and> one_network E s \<and> \<not> armed Attach_timeout (hist s) \<and> P (tc s)"

definition resting :: "env \<Rightarrow> bool \<Rightarrow> (thread_config_state \<Rightarrow> bool) \<Rightarrow> world \<Rightarrow> bool" where
  "resting E ini P s \<longleftrightarrow> \<not> started (mgr s) \<and> inited (mgr s) = ini \<and> at_rest E P s \<and>
     app_view_of E (hist s) = Some (if event_cb (mgr s) \<and> ini then App_ready else App_down)"

definition closing :: "env \<Rightarrow> world \<Rightarrow> bool" where
  "closing E s \<longleftrightarrow> inited (mgr s) \<and> at_rest E (\<lambda>t. \<not> tc_cb_registered t) s \<and> prov_view E (event_cb (mgr s)) False (hist s)"

definition trace_inv :: "env \<Rightarrow> world \<Rightarrow> bool" where
  "trace_inv E s \<longleftrightarrow> (if started (mgr s) then serving E s else resting E (inited (mgr s)) (\<lambda>t. \<not> tc_cb_registered t) s)"

lemmas trace_defs = serving_def closing_def resting_def at_rest_def one_network_def attempting_def

lemma trace_inv_iff: "trace_inv E s \<longleftrightarrow> serving E s \<or> (\<exists>ini. resting E ini (\<lambda>t. \<not> tc_cb_registered t) s)"
  by (auto simp: trace_inv_def serving_def resting_def)

lemma prov_view_weaken: "prov_view E cb a h \<Longrightarrow> prov_view E cb False h"
  by (auto simp: prov_view_def)

lemma prov_view_recv: "prov_view E (event_cb m) a h \<Longrightarrow> prov_view E (event_cb m) b (event_calls E m NETWORK_PROV_CRED_RECV @ h)"
  by (auto simp: prov_view_def)

lemma prov_view_outcome:
  "is_outcome ev \<Longrightarrow> prov_view E (event_cb m) True h \<Longrightarrow> prov_view E (event_cb m) False (event_calls E m ev @ h)"
  by (cases ev) (auto simp: prov_view_def gr0_conv_Suc)

lemma prov_view_refused:
  "NETWORK_TYPE_THREAD (cfg E) \<Longrightarrow> prov_view E (event_cb m) a h \<Longrightarrow>
    prov_view E (event_cb m) a (event_calls E m (NETWORK_PROV_CRED_FAIL r) @ event_calls E m NETWORK_PROV_CRED_RECV @ h)"
  by (auto simp: prov_view_def)

lemma prov_view_calls [simp]:
  "prov_view E cb a (Wifi c1 # h) = prov_view E cb a h" "prov_view E cb a (Kern c2 # h) = prov_view E cb a h"
  "prov_view E cb a (Ot c3 # h) = prov_view E cb a h" "prov_view E cb a (connect_calls F s @ h) = prov_view E cb a h"
  by (simp_all add: prov_view_def)

lemma silent_readings: "silent c \<Longrightarrow> app_events (c # h) = app_events h \<and> armed w (c # h) = armed w h"
  by (cases c rule: silent.cases) simp_all

lemma trace_silent [simp]:
  assumes "silent c"
  shows "serving E (s\<lparr>hist := c # h\<rparr>) = serving E (s\<lparr>hist := h\<rparr>)"
    "resting E ini P (s\<lparr>hist := c # h\<rparr>) = resting E ini P (s\<lparr>hist := h\<rparr>)"
    "closing E (s\<lparr>hist := c # h\<rparr>) = closing E (s\<lparr>hist := h\<rparr>)"
  using assms by (simp_all add: trace_defs prov_view_def silent_readings)

text \<open>Sessions and transports keep each of the three.\<close>

interpretation serving: pc_stable "serving E" for E
  by unfold_locales (simp_all, simp_all add: trace_defs)

interpretation resting: pc_stable "resting E ini P" for E ini P
  by unfold_locales (simp_all, simp_all add: trace_defs)

interpretation closing: pc_stable "closing E" for E
  by unfold_locales (simp_all, simp_all add: trace_defs)

section \<open>The network handlers while a service runs\<close>

lemma serving_retry: "stable (serving E) (retry_work_handler E)"
proof (rule stableI)
  fix s assume s: "serving E s"
  have fail: "wp (final_failure E) (\<lambda>_. serving E) (s\<lparr>hist := h\<rparr>)"
    if "0 < inflight_ssid_len (wc s)" "prov_view E (event_cb (mgr s)) True h"
      "armed Attach_timeout h = armed Attach_timeout (hist s)" for h
    using s that by (auto simp: final_failure_def trace_defs intro!: prov_view_outcome split: if_splits)
  show "wp (retry_work_handler E) (\<lambda>_. serving E) s"
    using s by (auto simp: retry_work_handler_def intro!: fail) (auto simp: trace_defs)
qed

lemma serving_connect_result: "stable (serving E) (wifi_config_mgmt_event E ev)"
  by (rule stableI)
    (auto simp: wifi_config_mgmt_event_def on_connect_result_def final_failure_def trace_defs
      intro!: prov_view_outcome split: wifi_event.split if_splits)

lemma serving_calls [intro!]:
  "stable (serving E) (ext_call (Ot c))" "stable (serving E) (ask q (\<lambda>_. Ot c))" "stable (serving E) (ask r (\<lambda>_. Wifi w))"
  "stable (serving E) (ext_call (Kern (K_sem_reset m)))" "stable (serving E) (k_sem_take E m t)"
  "stable (serving E) (upd_sc f)" "stable (serving E) (upd_ts g)" "stable (serving E) (wifi_scan_mgmt_event E ev)"
  "stable (serving E) (discover_cb E d)"
  by (auto simp: stable_def trace_defs wifi_scan_mgmt_event_def on_scan_result_def discover_cb_def
      split: wifi_scan_event.split option.split)

lemma serving_wifi:
  assumes "\<not> NETWORK_TYPE_THREAD (cfg E)"
  shows "stable (serving E) (network_prov_wifi_config_reset)" "stable (serving E) (wifi_do_set_config cmd)"
    "stable (serving E) (wifi_do_apply_config E)" "stable (serving E) (network_prov_wifi_config_set_and_apply E ssid psk)"
    "stable (serving E) (network_prov_wifi_config_handler E b)" "stable (serving E) (network_prov_wifi_ctrl_handler E b)"
    "stable (serving E) (network_prov_wifi_scan_handler E b)"
proof -
  show reset: "stable (serving E) network_prov_wifi_config_reset"
    using assms by (auto simp: stable_def network_prov_wifi_config_reset_def trace_defs dest: prov_view_weaken)
  show set: "stable (serving E) (wifi_do_set_config cmd)" for cmd
    by (auto simp: stable_def wifi_do_set_config_def trace_defs)
  show app: "stable (serving E) (wifi_do_apply_config E)"
    using assms by (auto simp: stable_def wifi_do_apply_config_def trace_defs snapshot_inflight_def
        intro!: prov_view_recv prov_view_outcome split: option.split)
  show "stable (serving E) (network_prov_wifi_config_set_and_apply E ssid psk)"
  proof -
    have "stable (serving E) (upd_wc (\<lambda>w. w\<lparr>wc_ssid := a, wc_ssid_len := n, wc_pass := b, wc_pass_len := m,
        wc_has_bssid := False, wc_channel := 0\<rparr>))" for a b m n
      by (simp add: stable_def trace_defs)
    with app show ?thesis
      unfolding network_prov_wifi_config_set_and_apply_def Let_def by (auto split: option.split)
  qed
  have status: "stable (serving E) (wifi_encode_get_status E)"
    unfolding wifi_encode_get_status_def fill_connected_state_def by auto
  show "stable (serving E) (network_prov_wifi_config_handler E b)"
    unfolding network_prov_wifi_config_handler_def wifi_encode_simple_def
    by (auto intro!: set app status split: NetworkConfigMsgType.split)
  show "stable (serving E) (network_prov_wifi_ctrl_handler E b)"
    unfolding network_prov_wifi_ctrl_handler_def by (auto intro!: reset split: NetworkCtrlMsgType.split)
  show "stable (serving E) (network_prov_wifi_scan_handler E b)"
    unfolding network_prov_wifi_scan_handler_def wifi_scan_start_def wifi_do_scan_start_def wifi_scan_wait_def
      wifi_scan_encode_def
    by (auto split: NetworkScanMsgType.split)
qed

lemma serving_thread:
  assumes "NETWORK_TYPE_THREAD (cfg E)"
  shows "stable (serving E) (network_prov_thread_config_reset E)" "stable (serving E) (network_prov_thread_config_erase E)"
    "stable (serving E) (ot_state_changed E rc)" "stable (serving E) (run_attach_timeout E)"
    "stable (serving E) (network_prov_thread_config_handler E b)" "stable (serving E) (network_prov_thread_ctrl_handler E b)"
    "stable (serving E) (network_prov_thread_scan_handler E b)"
proof -
  show reset: "stable (serving E) (network_prov_thread_config_reset E)"
    "stable (serving E) (network_prov_thread_config_erase E)"
    by (auto simp: stable_def network_prov_thread_config_reset_def network_prov_thread_config_erase_def trace_defs
        dest: prov_view_weaken split: if_splits)
  show "stable (serving E) (ot_state_changed E rc)" "stable (serving E) (run_attach_timeout E)"
    using assms by (auto simp: stable_def ot_state_changed_def on_attached_def run_attach_timeout_def attach_timeout_fn_def
        claim_pending_def trace_defs intro!: prov_view_outcome)
  have set: "stable (serving E) (thread_do_set_config ds)" for ds
    by (auto simp: stable_def thread_do_set_config_def trace_defs)
  have commit: "stable (serving E) (commit_dataset E)"
    unfolding commit_dataset_def by auto
  have refused: "stable (serving E) (do {
      upd_tc (\<lambda>t. t\<lparr>tc_state := Thread_AttachingFailed, tc_fail_reason := DatasetInvalid\<rparr>);
      network_prov_emit_event E NETWORK_PROV_CRED_RECV;
      network_prov_emit_event E (NETWORK_PROV_CRED_FAIL NETWORK_PROV_WIFI_AUTH_ERROR); ret Status_Success })"
    using assms by (auto simp: stable_def trace_defs intro: prov_view_refused)
  have joined: "stable (serving E) (do { network_prov_emit_event E NETWORK_PROV_CRED_RECV;
      upd_tc (\<lambda>t. t\<lparr>tc_state := Thread_Attaching, pending := True\<rparr>); ext_call (Ot Ot_mutex_lock);
      role \<leftarrow> ask (otThreadGetDeviceRole (ot E)) (\<lambda>_. Ot Ot_query); ext_call (Ot Ot_mutex_unlock);
      (if role_is_attached role then on_attached E else ext_call (Kern (K_work_reschedule Attach_timeout ATTACH_TIMEOUT_MS)));
      ret Status_Success })"
    using assms by (auto simp: stable_def on_attached_def claim_pending_def trace_defs intro!: prov_view_outcome intro: prov_view_recv)
  have app: "stable (serving E) (thread_do_apply_config E)"
    unfolding thread_do_apply_config_def by (intro stable_bind stable_if stable_gets stable_ret commit refused joined)
  have status: "stable (serving E) (thread_encode_get_status E)"
    unfolding thread_encode_get_status_def fill_attached_state_def by auto
  show "stable (serving E) (network_prov_thread_config_handler E b)"
    unfolding network_prov_thread_config_handler_def thread_encode_simple_def
    by (auto intro!: set app status split: NetworkConfigMsgType.split)
  show "stable (serving E) (network_prov_thread_ctrl_handler E b)"
    unfolding network_prov_thread_ctrl_handler_def by (auto intro!: reset split: NetworkCtrlMsgType.split)
  show "stable (serving E) (network_prov_thread_scan_handler E b)"
    unfolding network_prov_thread_scan_handler_def thread_scan_start_def thread_scan_start_state_def
      thread_do_scan_start_def thread_scan_wait_def thread_scan_encode_def
    by (auto split: NetworkScanMsgType.split NetworkScanUnion.split)
qed

lemma serving_handler:
  assumes "callable E h pr"
  shows "stable (serving E) (prog_handler E h pr b)"
proof (cases h)
  case H_custom_trampoline
  then show ?thesis by (auto simp: custom_trampoline_def app_handler_def)
qed (use assms serving_wifi serving_thread in \<open>auto simp: callable_def\<close>)

interpretation serving_req: request_stable "serving E" E for E
  by unfold_locales (rule serving_handler)

section \<open>Start and end of a service\<close>

text \<open>The registration of the network handlers.\<close>

lemma resting_simps [simp]:
  "resting E ini P (s\<lparr>pcs := x\<rparr>) = resting E ini P s"
  by (simp add: trace_defs)

lemma resting_mono: "resting E ini P s \<Longrightarrow> (P (tc s) \<Longrightarrow> Q (tc s)) \<Longrightarrow> resting E ini Q s"
  by (auto simp: resting_def at_rest_def)

lemma resting_net_init:
  assumes "resting E ini (\<lambda>_. True) s"
  shows "wp (net_endpoints_init E pc) (\<lambda>r s'. resting E ini (\<lambda>t. r = 0 \<longrightarrow> \<not> pending t) s') s"
proof (cases "NETWORK_TYPE_THREAD (cfg E)")
  case False
  have upd: "stable (resting E ini (\<lambda>_. True)) network_prov_wifi_scan_init"
    "stable (resting E ini (\<lambda>_. True)) (network_prov_wifi_config_init n)" for n
    using False by (auto simp: stable_def network_prov_wifi_scan_init_def network_prov_wifi_config_init_def trace_defs)
  have "stable (resting E ini (\<lambda>_. True)) (net_endpoints_init E pc)"
    unfolding net_endpoints_init_def chk_def using False by (auto intro!: upd)
  from stableD [OF this assms] show ?thesis
    by (rule wp_mono) (use False in \<open>auto simp: resting_def at_rest_def one_network_def\<close>)
next
  case True
  have scan: "stable (resting E ini (\<lambda>_. True)) network_prov_thread_scan_init"
    by (auto simp: stable_def network_prov_thread_scan_init_def trace_defs)
  have cfg: "wp (network_prov_thread_config_init E) (\<lambda>r s'. resting E ini (\<lambda>t. \<not> pending t) s') t"
    if "resting E ini (\<lambda>_. True) t" for t
    using that True by (auto simp: network_prov_thread_config_init_def trace_defs tc_zero_def)
  have tail: "stable (resting E ini (\<lambda>t. \<not> pending t)) (chk (protocomm_add_endpoint pc a b c) (protocomm_add_endpoint pc d e f))" for a b c d e f
    unfolding chk_def by auto
  have weak: "resting E ini (\<lambda>t. \<not> pending t) t \<Longrightarrow> resting E ini (\<lambda>t. r = 0 \<longrightarrow> \<not> pending t) t"
    "resting E ini (\<lambda>_. True) t \<Longrightarrow> r \<noteq> 0 \<Longrightarrow> resting E ini (\<lambda>t. r = 0 \<longrightarrow> \<not> pending t) t" for r :: int and t
    by (auto elim: resting_mono)
  let ?Q = "\<lambda>(r :: int) s'. resting E ini (\<lambda>t. r = 0 \<longrightarrow> \<not> pending t) s'"
  have conf: "wp (chk (network_prov_thread_config_init E) (chk (protocomm_add_endpoint pc a b c)
      (protocomm_add_endpoint pc d e f))) ?Q t" if "resting E ini (\<lambda>_. True) t" for a b c d e f t
    unfolding wp_chk [of "network_prov_thread_config_init E"]
    by (rule wp_mono [OF cfg [OF that]]) (auto simp del: wp_chk intro!: weak(1) wp_mono [OF stableD [OF tail] weak(1)] elim: resting_mono)
  have first: "wp (chk (protocomm_add_endpoint pc a b c) n) ?Q t"
    if "resting E ini (\<lambda>_. True) t" "\<And>t. resting E ini (\<lambda>_. True) t \<Longrightarrow> wp n ?Q t" for a b c n t
    unfolding wp_chk by (rule wp_mono [OF stableD [OF resting.stable_registry(2) that(1)]]) (auto intro: weak(2) that(2))
  show ?thesis
    unfolding net_endpoints_init_def if_P [OF True] wp_chk [of network_prov_thread_scan_init]
    by (rule wp_mono [OF stableD [OF scan assms]]) (auto simp del: wp_chk intro: weak(2) intro!: first conf)
qed

text \<open>The clean-up of the network handlers, after a start that failed and at the end of a service.\<close>

lemma resting_net_deinit:
  assumes "resting E ini (\<lambda>_. True) s"
  shows "wp (net_endpoints_deinit E) (\<lambda>_. resting E ini (\<lambda>t. \<not> tc_cb_registered t)) s"
  using assms
  by (auto simp: net_endpoints_deinit_def network_prov_thread_scan_deinit_def network_prov_thread_config_deinit_def
      network_prov_wifi_scan_deinit_def network_prov_wifi_config_deinit_def trace_defs)

lemma closing_net_deinit:
  assumes "serving E s"
  shows "wp (net_endpoints_deinit E) (\<lambda>_. closing E) s"
  using assms
  by (auto simp: net_endpoints_deinit_def network_prov_thread_scan_deinit_def network_prov_thread_config_deinit_def
      network_prov_wifi_scan_deinit_def network_prov_wifi_config_deinit_def trace_defs dest: prov_view_weaken)

lemma start_service_trace:
  assumes "resting E ini (\<lambda>_. True) s"
  shows "wp (start_service E v popv name key pc) (\<lambda>r. resting E ini (\<lambda>t. r = 0 \<longrightarrow> \<not> pending t)) s"
proof -
  let ?Q = "\<lambda>(r :: int) s'. resting E ini (\<lambda>t. r = 0 \<longrightarrow> \<not> pending t) s'"
  have tail: "stable (resting E ini (\<lambda>t. \<not> pending t)) (chk (add_custom pc is) (scheme_start E x pc name key))" for "is" x
    unfolding chk_def by auto
  have net: "wp (chk (net_endpoints_init E pc) (chk (add_custom pc is) (scheme_start E x pc name key))) ?Q t"
    if "resting E ini (\<lambda>_. True) t" for "is" x t
    unfolding wp_chk [of "net_endpoints_init E pc"]
    by (rule wp_mono [OF resting_net_init [OF that]])
      (auto simp del: wp_chk intro!: wp_mono [OF stableD [OF tail]] elim: resting_mono)
  have first: "wp (chk m n) ?Q t"
    if "resting E ini (\<lambda>_. True) t" "\<And>t. resting E ini (\<lambda>_. True) t \<Longrightarrow> wp n ?Q t" "stable (resting E ini (\<lambda>_. True)) m" for m n t
    unfolding wp_chk by (rule wp_mono [OF stableD [OF that(3,1)]]) (auto intro: that(2) elim: resting_mono)
  show ?thesis
    unfolding start_service_def wp_bind wp_gets
    by (intro first net assms resting.stable_registry)
qed

lemma start_trace:
  assumes "trace_inv E s"
  shows "wp (network_prov_mgr_start_provisioning E v popv name key) (\<lambda>_. trace_inv E) s"
proof (cases "started (mgr s) \<or> \<not> inited (mgr s)")
  case True
  with assms show ?thesis by (auto simp: network_prov_mgr_start_provisioning_def)
next
  case False
  have upd: "stable (resting E True P) (upd_mgr (\<lambda>m. m\<lparr>mgr_pc := x\<rparr>))" "stable (resting E True P) (build_version_json E v popv)" for P x
    by (auto simp: stable_def build_version_json_def Let_def trace_defs)
  have undo: "wp (do { net_endpoints_deinit E; protocomm_delete (prog_link E) pc; upd_mgr (\<lambda>m. m\<lparr>mgr_pc := None\<rparr>); ret r })
      (\<lambda>_. trace_inv E) t" if "resting E True (\<lambda>_. True) t" for pc r t
  proof -
    have "stable (resting E True (\<lambda>t. \<not> tc_cb_registered t)) (do { protocomm_delete (prog_link E) pc; upd_mgr (\<lambda>m. m\<lparr>mgr_pc := None\<rparr>); ret r })"
      by (intro stable_bind stable_ret upd resting.stable_session)
    then show ?thesis
      unfolding wp_bind [of "net_endpoints_deinit E"]
      by (auto simp del: wp_bind simp: trace_inv_def resting_def intro!: wp_mono [OF resting_net_deinit [OF that]] elim!: stableD [THEN wp_mono])
  qed
  have go: "wp (do { r \<leftarrow> start_service E v popv name key pc;
      if r \<noteq> 0 then do { net_endpoints_deinit E; protocomm_delete (prog_link E) pc; upd_mgr (\<lambda>m. m\<lparr>mgr_pc := None\<rparr>); ret r }
      else do { upd_mgr (\<lambda>m. m\<lparr>started := True\<rparr>); network_prov_emit_event E NETWORK_PROV_START; ret 0 } })
      (\<lambda>_. trace_inv E) t" if "resting E True (\<lambda>_. True) t" for pc t
    unfolding wp_bind [of "start_service _ _ _ _ _ _"]
  proof (rule wp_mono [OF start_service_trace [OF that]])
    fix r :: int and u
    assume u: "resting E True (\<lambda>t. r = 0 \<longrightarrow> \<not> pending t) u"
    show "wp (if r \<noteq> 0 then do { net_endpoints_deinit E; protocomm_delete (prog_link E) pc; upd_mgr (\<lambda>m. m\<lparr>mgr_pc := None\<rparr>); ret r }
      else do { upd_mgr (\<lambda>m. m\<lparr>started := True\<rparr>); network_prov_emit_event E NETWORK_PROV_START; ret 0 })
      (\<lambda>_. trace_inv E) u"
    proof (cases "r = 0")
      case True
      with u show ?thesis by (auto simp: trace_inv_def trace_defs prov_view_def)
    next
      case False
      have "resting E True (\<lambda>_. True) u" using u by (rule resting_mono) simp
      from undo [OF this] False show ?thesis by (simp del: wp_bind)
    qed
  qed
  have rest: "resting E True (\<lambda>t. \<not> tc_cb_registered t) s"
    using assms False by (auto simp: trace_inv_def)
  show ?thesis
    unfolding network_prov_mgr_start_provisioning_def using False
    by (simp del: wp_bind add: wp_bind [of "gets _"])
      (rule stable_bindD [OF resting.stable_registry(5) rest], rule stable_bindD [OF upd(1)], assumption,
        auto simp del: wp_bind simp: trace_inv_iff intro!: stable_bindD [OF upd(2)] go elim!: resting_mono)
qed

lemma teardown_trace:
  assumes "trace_inv E s"
  shows "wp (do_teardown E) (\<lambda>_ s'. trace_inv E s' \<and> \<not> started (mgr s') \<and> inited (mgr s') = inited (mgr s)) s"
proof (cases "started (mgr s)")
  case False
  with assms show ?thesis by (simp add: do_teardown_def)
next
  case True
  with assms have serv: "serving E s" by (simp add: trace_inv_def)
  then have "inited (mgr s)" by (simp add: serving_def)
  have fin: "wp (do { protocomm_delete (prog_link E) pc; upd_mgr (\<lambda>m. m\<lparr>mgr_pc := None\<rparr>); upd_mgr (\<lambda>m. m\<lparr>started := False\<rparr>);
      network_prov_emit_event E NETWORK_PROV_END }) (\<lambda>_ s'. trace_inv E s' \<and> \<not> started (mgr s') \<and> inited (mgr s')) t"
    if "closing E t" for pc t
    unfolding wp_bind by (rule wp_mono [OF stableD [OF closing.stable_session(2) that]])
      (auto simp: trace_inv_def trace_defs prov_view_def)
  show ?thesis
    unfolding do_teardown_def using True \<open>inited (mgr s)\<close>
    by (simp del: wp_bind add: wp_bind [of "gets _"])
      (rule stable_bindD [OF serving.stable_stop serv], unfold wp_bind [of "net_endpoints_deinit E"],
        rule wp_mono [OF closing_net_deinit], assumption, rule fin)
qed

section \<open>All steps\<close>

lemma trace_stable:
  assumes "stable (serving E) m" "\<And>ini. stable (resting E ini (\<lambda>t. \<not> tc_cb_registered t)) m"
  shows "stable (trace_inv E) m"
  using assms unfolding stable_def trace_inv_iff by (blast intro: wp_mono)

text \<open>Updates that touch neither the phase nor the callback, and calls that report nothing.\<close>

lemma trace_quiet [intro!]:
  "(\<And>m. started (f m) = started m \<and> inited (f m) = inited m \<and> event_cb (f m) = event_cb m) \<Longrightarrow> stable (trace_inv E) (upd_mgr f)"
  "stable (trace_inv E) (upd_ble g)" "stable (trace_inv E) (ext_call (Ot a))" "stable (trace_inv E) (ask r (\<lambda>_. Ot a))"
  "stable (trace_inv E) (ask q (\<lambda>_. Wifi w))" "stable (trace_inv E) (ext_call (Kern (K_sem_take m t)))"
  "stable (trace_inv E) (ext_call (Kern (K_work_cancel Teardown_work)))" "stable (trace_inv E) (ext_call (Kern (K_work_cancel_sync Teardown_work)))"
  "stable (trace_inv E) (ext_call (Kern (K_work_schedule Teardown_work n)))" "stable (trace_inv E) (ext_call (Kern (K_work_run Teardown_work)))"
  by (simp_all add: stable_def trace_inv_def trace_defs)

lemma trace_erase: "stable (trace_inv E) (network_prov_thread_config_erase E)" if "NETWORK_TYPE_THREAD (cfg E)"
  by (rule trace_stable [OF serving_thread(2) [OF that]])
    (auto simp: stable_def network_prov_thread_config_erase_def trace_defs)

lemma trace_reset: "serving E s \<Longrightarrow> wp (net_config_reset E) (\<lambda>_. trace_inv E) s"
  by (auto simp: net_config_reset_def trace_inv_iff intro!: wp_mono [OF stableD [OF serving_wifi(1)]]
      wp_mono [OF stableD [OF serving_thread(1)]])

lemma trace_init: "trace_inv E s \<Longrightarrow> wp (network_prov_mgr_init E c) (\<lambda>_. trace_inv E) s"
  by (auto simp: network_prov_mgr_init_def trace_inv_def trace_defs prov_view_def)

lemma trace_api:
  assumes "trace_inv E s"
  shows "wp (api_run E c) (\<lambda>_. trace_inv E) s"
proof -
  have st: "started (mgr s) \<Longrightarrow> serving E s" using assms by (simp add: trace_inv_def)
  have tear: "stable (trace_inv E) (do_teardown E)"
    by (rule stableI, rule wp_mono [OF teardown_trace]) simp_all
  have deinit: "trace_inv E (t\<lparr>mgr := (mgr t)\<lparr>inited := False\<rparr>, hist := event_calls E ((mgr t)\<lparr>inited := False\<rparr>) NETWORK_PROV_DEINIT @ hist t\<rparr>)"
    if "trace_inv E t" "\<not> started (mgr t)" "inited (mgr t)" for t
    using that by (auto simp: trace_inv_def trace_defs)
  show ?thesis
  proof (cases c)
    case (Mgr_init x)
    then show ?thesis using trace_init [OF assms] by simp
  next
    case (Mgr_start v popv name key)
    then show ?thesis using start_trace [OF assms] by simp
  next
    case Mgr_deinit
    let ?s = "s\<lparr>hist := Kern (K_work_cancel_sync Teardown_work) # hist s\<rparr>"
    have "trace_inv E ?s" using stableD [OF trace_quiet(8) assms] by simp
    then show ?thesis unfolding Mgr_deinit using assms
      by (auto simp: network_prov_mgr_deinit_def intro!: wp_mono [OF teardown_trace] deinit deinit [of ?s, simplified])
  next
    case Mgr_reset_provisioning
    then show ?thesis using assms stableD [OF trace_erase] stableD [OF trace_quiet(5)]
      by (auto simp: network_prov_mgr_reset_wifi_provisioning_def)
  next
    case (Mgr_configure_wifi_sta a b)
    then show ?thesis using assms wp_mono [OF stableD [OF serving_wifi(4) st]]
      by (auto simp: network_prov_mgr_configure_wifi_sta_def trace_inv_iff)
  next
    case Mgr_reset_on_failure
    then show ?thesis using assms trace_reset [OF st] by (auto simp: network_prov_mgr_reset_wifi_sm_state_on_failure_def)
  next
    case Mgr_reset_for_reprovision
    then show ?thesis using assms trace_reset [OF st] by (auto simp: network_prov_mgr_reset_wifi_sm_state_for_reprovision_def)
  qed (rule stableD [where I = "trace_inv E", OF _ assms], (auto simp: forget_def network_prov_mgr_is_provisioned_def network_prov_thread_is_commissioned_def
      network_prov_mgr_disable_auto_stop_def network_prov_mgr_set_app_info_def network_prov_mgr_endpoint_create_def
      network_prov_mgr_endpoint_register_def network_prov_mgr_endpoint_unregister_def Let_def
      network_prov_scheme_ble_set_service_uuid_def network_prov_scheme_ble_set_mfg_data_def
      network_prov_mgr_stop_provisioning_def intro!: tear)[1])+
qed

lemma trace_idle_events [intro!]:
  "stable (trace_inv E) (wifi_scan_mgmt_event E sv)" "stable (trace_inv E) (discover_cb E d)"
  "own_call c \<Longrightarrow> stable (trace_inv E) (ext_call c)" "stable (trace_inv E) (wifi_config_mgmt_event E ev)"
  "stable (trace_inv E) (retry_work_handler E)"
proof -
  show "stable (trace_inv E) (wifi_scan_mgmt_event E sv)" "stable (trace_inv E) (discover_cb E d)"
    by (auto simp: stable_def trace_inv_def trace_defs wifi_scan_mgmt_event_def on_scan_result_def discover_cb_def
        split: wifi_scan_event.split option.split)
  show "stable (trace_inv E) (ext_call c)" if "own_call c"
    using that by (cases c rule: own_call.cases) (auto simp: stable_def trace_inv_def trace_defs prov_view_def)
  show "stable (trace_inv E) (wifi_config_mgmt_event E ev)"
    by (rule trace_stable [OF serving_connect_result])
      (auto simp: stable_def wifi_config_mgmt_event_def on_connect_result_def resting_def at_rest_def split: wifi_event.split)
  show "stable (trace_inv E) (retry_work_handler E)"
    by (rule trace_stable [OF serving_retry]) (auto simp: stable_def retry_work_handler_def resting_def at_rest_def)
qed

lemma trace_transport:
  assumes "trace_inv E s" "prog_inv E s" "buffer_laws E" "enabled ev s" "ev = Shell a b c \<or> ev = Http d \<or> ev = Gatt g"
  shows "wp (event_run E ev) (\<lambda>_. trace_inv E) s"
proof (cases "serving E s")
  case True
  with assms(5) serving_req.transport_events [OF assms(2) True assms(4,3)] show ?thesis
    by (auto simp: trace_inv_iff simp del: event_run.simps intro: wp_mono)
next
  case False
  then obtain ini where r: "resting E ini (\<lambda>t. \<not> tc_cb_registered t) s" using assms(1) by (auto simp: trace_inv_iff)
  then have "\<not> started (mgr s)" by (simp add: resting_def)
  with assms(2) have con: "con_pc (con s) = None" by (auto simp: prog_inv_def transports_ok_def)
  have shell: "wp (cmd_net_prov E a b c) (\<lambda>_. trace_inv E) s"
    using con r by (auto simp: cmd_net_prov_def trace_inv_iff)
  have gatt: "ble_pc (ble s) = None \<Longrightarrow> wp (ble_event_run E g) (\<lambda>_. trace_inv E) s"
    by (rule wp_mono [OF resting.gatt_null_stable [OF r]]) (auto simp: trace_inv_iff)
  from assms(4,5) \<open>\<not> started (mgr s)\<close> shell gatt show ?thesis by auto
qed

lemma trace_event:
  assumes "trace_inv E s" "prog_inv E s" "buffer_laws E" "enabled ev s" "delivered ev s"
  shows "wp (event_run E ev) (\<lambda>_. trace_inv E) s"
proof -
  have serve: "wp m (\<lambda>_. trace_inv E) s" if "stable (serving E) m" "serving E s" for m :: "unit prog"
    by (rule wp_mono [OF stableD [OF that]]) (simp add: trace_inv_iff)
  have thread: "serving E s \<and> NETWORK_TYPE_THREAD (cfg E)" if "tc_cb_registered (tc s) \<or> armed Attach_timeout (hist s)"
    using assms(1) that by (auto simp: trace_inv_iff trace_defs split: if_splits)
  show ?thesis
  proof (cases ev)
    case (Api c)
    then show ?thesis using trace_api [OF assms(1)] by simp
  next
    case Teardown_due
    have "trace_inv E (s\<lparr>hist := Kern (K_work_run Teardown_work) # hist s\<rparr>)"
      using trace_quiet(10) [of E] assms(1) by (simp add: stable_def)
    then show ?thesis unfolding Teardown_due by (auto simp: teardown_work_fn_def intro!: wp_mono [OF teardown_trace])
  next
    case (Thread_role_changed rc)
    with assms(5) thread show ?thesis by (simp add: serve serving_thread(3))
  next
    case Attach_due
    with assms(5) thread show ?thesis by (simp add: serve serving_thread(4))
  next
    case (Own_call c)
    then have "stable (trace_inv E) (ext_call c)" using assms(4) by auto
    from stableD [OF this assms(1)] Own_call show ?thesis by simp
  qed (use trace_transport [OF assms(1-4)] assms(1) trace_idle_events in
    \<open>auto simp del: event_run.simps(3-5) simp: stable_def\<close>)
qed

lemma lawful_trace:
  assumes "lawful E s" "config_ok E" "buffer_laws E"
  shows "trace_inv E s"
  using assms(1)
proof induction
  case boot
  then show ?case by (simp add: trace_inv_def trace_defs boot_world_def mgr_zero_def wc_zero_def tc_zero_def)
next
  case (step s ev u s')
  have "prog_inv E s" by (rule reachable_inv [OF lawful_reachable [OF step(1)] assms(2,3)])
  from wp_runD [OF trace_event [OF step(5) this assms(3) step(2,3)] step(4)] show ?case .
qed

section \<open>Properties\<close>

text \<open>C4. The application sees a well-formed stream of events. Whatever the clients send and in whatever order
  the stacks call back, the events delivered to the application's callback are a run of the automaton:
  INIT, then any number of services from START to END, then DEINIT; CRED_RECV, CRED_FAIL and CRED_SUCCESS only
  come inside a service; every outcome is preceded by a CRED_RECV that it answers, and over Wi-Fi no second
  outcome comes before new credentials were received. After any history the automaton is in the state of the
  manager: down, ready or provisioning, and while an attempt is under way an outcome is still owed.\<close>

theorem app_event_protocol:
  assumes "lawful E s" and "config_ok E" and "buffer_laws E"
  shows "\<exists>v. app_run (NETWORK_TYPE_THREAD (cfg E)) (app_events (hist s)) = Some v \<and>
     (if event_cb (mgr s)
      then case phase (mgr s) of Down \<Rightarrow> v = App_down | Ready \<Rightarrow> v = App_ready
        | Provisioning \<Rightarrow> \<exists>n. v = App_provisioning n \<and> (0 < inflight_ssid_len (wc s) \<or> pending (tc s) \<longrightarrow> 0 < n)
      else v = App_down)"
  using lawful_trace [OF assms]
  by (auto simp: trace_inv_iff trace_defs phase_def prov_view_def split: if_splits)

lemma demo_lawful: "lawful demo_env demo_service"
proof -
  have step: "lawful E s \<Longrightarrow> enabled ev s \<Longrightarrow> delivered ev s \<Longrightarrow> lawful E (snd (run_state (event_run E ev) s))" for E s ev
    by (rule lawful.step, assumption+) (simp add: prod_eq_iff)
  have "lawful demo_env demo_ready"
    unfolding demo_ready_def by (rule step) (simp_all add: lawful.boot)
  then show ?thesis unfolding demo_service_def by (rule step) simp_all
qed

theorem app_event_protocol_witness: "\<exists>v. app_run False (app_events (hist demo_service)) = Some v"
  using app_event_protocol [OF demo_lawful demo_env_config demo_running_live(2)] by (auto simp: demo_env_laws(4))

end
