(* ===== verification/Samples.thy ===== *)
theory Samples
  imports Event_Protocol "HOL-Library.Extended_Nat" "HOL-Library.Sublist"
begin

text \<open>
  The sample applications (\<^verbatim>\<open>src/samples/*/src/main.c\<close>): what a device does from boot to the end of
  provisioning. Three samples provision Wi-Fi, over the console, over Bluetooth and over an access point; they
  share the code that reconnects with stored credentials. One sample provisions Thread over Bluetooth. Their
  theorems compose the library below: a sample is one client of it, and everything that is proved of the
  library over all clients holds for the samples.
\<close>

section \<open>The state of a sample, and calls into the library\<close>

text \<open>The static variables of a sample beside the state of the library; the semaphore and the registered
  callback are in the history.\<close>

record app_state =
  lib_state :: world
  conn_result_status :: int

type_synonym 'a app = "(app_state, 'a) state"

definition lib :: "'a prog \<Rightarrow> 'a app" where
  "lib m = State (\<lambda>s. case run_state m (lib_state s) of (a, w) \<Rightarrow> (a, s\<lparr>lib_state := w\<rparr>))"

text \<open>A call during which the manager may call the application's event callback \<open>cb\<close>, in the order of the events.
  The callbacks of the samples act on START only, which the manager reports as the last action of a start, so
  that they are run after the call here; on every other event they write log messages.\<close>

definition call_lib :: "(network_prov_cb_event \<Rightarrow> unit app) \<Rightarrow> 'a prog \<Rightarrow> 'a app" where
  "call_lib cb m = do {
     old \<leftarrow> gets (\<lambda>s. app_events (hist (lib_state s)));
     r \<leftarrow> lib m;
     new \<leftarrow> gets (\<lambda>s. app_events (hist (lib_state s)));
     for_each cb (rev (take (length new - length old) new));
     ret r }"

definition app_boot :: "env \<Rightarrow> app_state" where
  "app_boot E = \<lparr>lib_state = boot_world E, conn_result_status = 0\<rparr>"

lemma wp_lib [wp, simp]: "wp (lib m) Q s = wp m (\<lambda>a w. Q a (s\<lparr>lib_state := w\<rparr>)) (lib_state s)"
  by (simp add: lib_def wp_def split: prod.split)

section \<open>The custom endpoint\<close>

text \<open>The handler of the endpoint \<open>custom-data\<close>; the history stands for the state of the heap.\<close>

definition app_custom_handler :: "env \<Rightarrow> history \<Rightarrow> bytes \<Rightarrow> int \<times> bytes option" where
  "app_custom_handler E h inbuf =
    (if length inbuf = 0 then (0, None)
     else if \<not> malloc_ok (kern E) h (length inbuf) then (- ENOMEM, None)
     else (0, Some inbuf))"

text \<open>The environment of the library in a sample: the application's handler is that function (function pointer
  0); the rest stays a parameter.\<close>

definition sample_env :: "env \<Rightarrow> env" where
  "sample_env E = E\<lparr>kern := (kern E)\<lparr>app_endpoint := \<lambda>h f ctx b. app_custom_handler E h b\<rparr>\<rparr>"

definition prov_event :: "network_prov_cb_event \<Rightarrow> unit app" where
  "prov_event e = (case e of
     NETWORK_PROV_START \<Rightarrow> do {
       _ \<leftarrow> lib (network_prov_mgr_endpoint_register (Some ''custom-data'') (Some 0) 0);
       ret () }
   | _ \<Rightarrow> ret ())"

text \<open>The callback of the samples that have no custom endpoint: it writes log messages only.\<close>

definition prov_event_log :: "network_prov_cb_event \<Rightarrow> unit app" where
  "prov_event_log e = ret ()"

section \<open>Reconnecting with stored credentials\<close>

abbreviation (input) SAVED_CONN_ATTEMPTS :: nat where "SAVED_CONN_ATTEMPTS \<equiv> 5"
abbreviation (input) SAVED_CONN_TIMEOUT_S :: nat where "SAVED_CONN_TIMEOUT_S \<equiv> 45"
abbreviation (input) SAVED_CONN_BACKOFF_MAX :: nat where "SAVED_CONN_BACKOFF_MAX \<equiv> 16"

definition conn_mgmt_event :: "wifi_event \<Rightarrow> unit app" where
  "conn_mgmt_event ev = (case ev of
     NET_EVENT_WIFI_CONNECT_RESULT status \<Rightarrow> do {
       modify (\<lambda>s. s\<lparr>conn_result_status := status\<rparr>);
       lib (ext_call (Kern (K_sem_give Conn_result_sem))) }
   | wifi_event_other \<Rightarrow> ret ())"

text \<open>The connect results that arrive while the thread of the application sleeps: the callback runs for all of them. A
  thread that waits for the semaphore continues with the first result, which gives it; what the driver reports
  after that arrives later.\<close>

definition deliver_results :: "int list \<Rightarrow> unit app" where
  "deliver_results rs = for_each (\<lambda>r. conn_mgmt_event (NET_EVENT_WIFI_CONNECT_RESULT r)) rs"

definition connect_results_arrive :: "env \<Rightarrow> unit app" where
  "connect_results_arrive E = do {
     rs \<leftarrow> gets (\<lambda>s. connect_results (wifi E) (hist (lib_state s)));
     deliver_results rs }"

definition first_result_arrives :: "env \<Rightarrow> unit app" where
  "first_result_arrives E = do {
     rs \<leftarrow> gets (\<lambda>s. connect_results (wifi E) (hist (lib_state s)));
     deliver_results (take 1 rs) }"

record saved_ssid =
  ss_ssid :: bytes
  ss_len :: nat
  ss_found :: bool

definition no_ssid :: saved_ssid where
  "no_ssid = \<lparr>ss_ssid = zeros (WIFI_SSID_MAX_LEN + 1), ss_len = 0, ss_found = False\<rparr>"

definition pick_ssid :: "saved_ssid \<Rightarrow> bytes \<Rightarrow> saved_ssid" where
  "pick_ssid s ssid =
    (if ss_found s then s
     else let len = min (length ssid) (length (ss_ssid s) - 1)
       in s\<lparr>ss_len := len, ss_ssid := (memcpy (ss_ssid s) (take len ssid))[len := 0], ss_found := True\<rparr>)"

text \<open>The request; a password of length 0 is a NULL pointer, and the address is copied when the flag is set.\<close>

definition saved_params :: "saved_ssid \<Rightarrow> stored_credential \<Rightarrow> wifi_connect_req_params" where
  "saved_params s v = \<lparr>
     cp_ssid = take (ss_len s) (ss_ssid s),
     cp_psk = (if length (sv_password v) > 0 then Some (sv_password v) else None),
     cp_security = sv_security v,
     cp_channel = (if sv_channel v > 0 then sv_channel v else WIFI_CHANNEL_ANY),
     cp_band = WIFI_FREQ_BAND_UNKNOWN,
     cp_bssid = (if sv_flags v AND WIFI_CREDENTIALS_FLAG_BSSID \<noteq> 0
       then memcpy (zeros WIFI_MAC_ADDR_LEN) (take WIFI_MAC_ADDR_LEN (sv_bssid v)) else zeros WIFI_MAC_ADDR_LEN)\<rparr>"

text \<open>\<open>net_mgmt(NET_REQUEST_WIFI_CONNECT, iface, ...)\<close>; the sample does not check the interface.\<close>

definition connect_request :: "env \<Rightarrow> iface option \<Rightarrow> wifi_connect_req_params \<Rightarrow> int app" where
  "connect_request E i p = lib (case i of
     None \<Rightarrow> ask (\<lambda>h. wifi_connect_no_iface_ret (wifi E) h p) (\<lambda>_. Wifi (Wifi_connect_no_iface p))
   | Some ifc \<Rightarrow> ask (\<lambda>h. wifi_connect_ret (wifi E) h ifc p) (\<lambda>_. Wifi (Wifi_connect ifc p)))"

text \<open>The second half of \<open>connect_saved_once\<close>: the request, and the wait for its result.\<close>

definition connect_and_wait :: "env \<Rightarrow> iface option \<Rightarrow> wifi_connect_req_params \<Rightarrow> int app" where
  "connect_and_wait E iface params = do {
     lib (ext_call (Kern (K_sem_reset Conn_result_sem)));
     r \<leftarrow> connect_request E iface params;
     if r \<noteq> 0 then ret r
     else do {
       first_result_arrives E;
       t \<leftarrow> lib (k_sem_take E Conn_result_sem (K_MSEC (SAVED_CONN_TIMEOUT_S * 1000)));
       if t \<noteq> 0 then ret (- ETIMEDOUT)
       else do {
         st \<leftarrow> gets conn_result_status;
         ret (if st \<noteq> 0 then - EIO else 0) } } }"

definition connect_saved_once :: "env \<Rightarrow> int app" where
  "connect_saved_once E = do {
     ssids \<leftarrow> gets (\<lambda>s. wifi_credentials_for_each_ssid (wifi E) (hist (lib_state s)));
     let s = foldl pick_ssid no_ssid ssids;
     if \<not> ss_found s then ret (- ENOENT)
     else do {
       rv \<leftarrow> gets (\<lambda>t. wifi_credentials_get_by_ssid_personal (wifi E) (hist (lib_state t)) (take (ss_len s) (ss_ssid s)));
       if fst rv \<noteq> 0 then ret (fst rv)
       else do {
         iface \<leftarrow> lib (wifi_iface E);
         connect_and_wait E iface (saved_params s (snd rv)) } } }"

text \<open>The loop over the attempts; between two of them the thread sleeps.\<close>

definition retry_sleep :: "env \<Rightarrow> nat \<Rightarrow> unit app" where
  "retry_sleep E backoff = do {
     lib (ext_call (Kern (K_sleep (backoff * 1000))));
     connect_results_arrive E }"

function connect_attempts :: "env \<Rightarrow> nat \<Rightarrow> nat \<Rightarrow> bool app" where
  "connect_attempts E attempt backoff =
    (if attempt \<le> SAVED_CONN_ATTEMPTS
     then do {
       r \<leftarrow> connect_saved_once E;
       if r = 0 then ret True
       else if r = - ENOENT then ret False
       else if attempt < SAVED_CONN_ATTEMPTS
       then do {
         retry_sleep E backoff;
         connect_attempts E (attempt + 1) (min (backoff * 2) SAVED_CONN_BACKOFF_MAX) }
       else connect_attempts E (attempt + 1) backoff }
     else ret False)"
  by pat_completeness auto

termination by (relation "measure (\<lambda>(E, attempt, backoff). Suc SAVED_CONN_ATTEMPTS - attempt)") auto

declare connect_attempts.simps [simp del]

definition connect_saved :: "env \<Rightarrow> bool app" where
  "connect_saved E = do {
     lib (ext_call (Wifi (Net_add_event_callback Conn_cb)));
     connected \<leftarrow> connect_attempts E 1 2;
     lib (ext_call (Wifi (Net_del_event_callback Conn_cb)));
     ret connected }"

section \<open>Provisioning, and \<open>main\<close>\<close>

abbreviation (input) PROV_POP :: cstr where "PROV_POP \<equiv> Some ''abcd1234''"

text \<open>What differs between the samples.\<close>

record sample =
  sm_scheme :: scheme_ref
  sm_event_cb :: "network_prov_cb_event \<Rightarrow> unit app"
  sm_conn_attempts :: u32
  sm_service_name :: cstr
  sm_service_key :: cstr

text \<open>While \<open>main\<close> waits, the program handles whatever the clients, the stacks and the work queue do. The wait is
  given these events; an event that cannot occur in the state at hand is left out. The calls of the application
  itself are not among them.\<close>

fun from_outside :: "prog_event \<Rightarrow> bool" where
  "from_outside (Api c) = False"
| "from_outside (Own_call c) = False"
| "from_outside _ = True"

definition occur :: "env \<Rightarrow> sample \<Rightarrow> prog_event \<Rightarrow> unit app" where
  "occur E sm ev = do {
     s \<leftarrow> gets lib_state;
     if_do (from_outside ev \<and> enabled ev s \<and> delivered ev s) (call_lib (sm_event_cb sm) (event_run E ev)) }"

text \<open>None: the wait never returned, and \<open>main\<close> is still blocked in it.\<close>

definition run_provisioning :: "sample \<Rightarrow> env \<Rightarrow> prog_event list \<Rightarrow> int option app" where
  "run_provisioning sm E evs = do {
     r \<leftarrow> call_lib (sm_event_cb sm) (network_prov_mgr_start_provisioning E NETWORK_PROV_SECURITY_1 PROV_POP
       (sm_service_name sm) (sm_service_key sm));
     if r \<noteq> 0 then ret (Some r)
     else do {
       for_each (occur E sm) evs;
       s \<leftarrow> gets lib_state;
       (case network_prov_mgr_wait E s of
          None \<Rightarrow> ret None
        | Some s' \<Rightarrow> do { modify (\<lambda>t. t\<lparr>lib_state := s'\<rparr>); ret (Some 0) }) } }"

definition mgr_init :: "sample \<Rightarrow> env \<Rightarrow> int app" where
  "mgr_init sm E = call_lib (sm_event_cb sm) (network_prov_mgr_init E
     \<lparr>cf_scheme = Some (sm_scheme sm), cf_event_cb = True, cf_wifi_conn_attempts = sm_conn_attempts sm\<rparr>)"

definition is_provisioned :: "env \<Rightarrow> bool app" where
  "is_provisioned E = do {
     rp \<leftarrow> lib (network_prov_mgr_is_provisioned E True);
     ret (case snd rp of None \<Rightarrow> False | Some provisioned \<Rightarrow> provisioned) }"

text \<open>The end of \<open>main\<close> in the Wi-Fi samples, from the question whether the device is provisioned.\<close>

definition connect_or_provision :: "sample \<Rightarrow> env \<Rightarrow> prog_event list \<Rightarrow> int option app" where
  "connect_or_provision sm E evs = do {
     provisioned \<leftarrow> is_provisioned E;
     connected \<leftarrow> (if provisioned then connect_saved E else ret False);
     if connected then ret (Some 0)
     else do {
       r \<leftarrow> run_provisioning sm E evs;
       ret (map_option (\<lambda>_. 0) r) } }"

definition wifi_prov_console :: sample where
  "wifi_prov_console = \<lparr>sm_scheme = network_prov_scheme_console, sm_event_cb = prov_event, sm_conn_attempts = 5,
     sm_service_name = Some ''PROV_ZEPHYR'', sm_service_key = None\<rparr>"

definition wifi_prov_console_main :: "env \<Rightarrow> prog_event list \<Rightarrow> int option app" where
  "wifi_prov_console_main E evs = do {
     r \<leftarrow> mgr_init wifi_prov_console E;
     if r \<noteq> 0 then ret (Some 0)
     else do {
       _ \<leftarrow> lib (network_prov_mgr_endpoint_create (Some ''custom-data''));
       _ \<leftarrow> lib (network_prov_mgr_set_app_info (Some ''wifi_prov_console'') (Some ''1.0'') (Some [Some ''sample'']) 1);
       connect_or_provision wifi_prov_console E evs } }"

definition wifi_prov_ble :: sample where
  "wifi_prov_ble = \<lparr>sm_scheme = network_prov_scheme_ble, sm_event_cb = prov_event, sm_conn_attempts = 5,
     sm_service_name = Some ''PROV_ZEPHYR'', sm_service_key = None\<rparr>"

definition wifi_prov_ble_main :: "env \<Rightarrow> prog_event list \<Rightarrow> int option app" where
  "wifi_prov_ble_main E evs = do {
     r \<leftarrow> mgr_init wifi_prov_ble E;
     if r \<noteq> 0 then ret (Some 0)
     else do {
       _ \<leftarrow> lib (network_prov_mgr_endpoint_create (Some ''custom-data''));
       _ \<leftarrow> lib (network_prov_mgr_set_app_info (Some ''wifi_prov_ble'') (Some ''1.0'') (Some [Some ''sample'']) 1);
       connect_or_provision wifi_prov_ble E evs } }"

definition wifi_prov_softap :: sample where
  "wifi_prov_softap = \<lparr>sm_scheme = network_prov_scheme_softap, sm_event_cb = prov_event_log, sm_conn_attempts = 5,
     sm_service_name = Some ''PROV_ZEPHYR'', sm_service_key = None\<rparr>"

definition wifi_prov_softap_main :: "env \<Rightarrow> prog_event list \<Rightarrow> int option app" where
  "wifi_prov_softap_main E evs = do {
     r \<leftarrow> mgr_init wifi_prov_softap E;
     if r \<noteq> 0 then ret (Some 0) else connect_or_provision wifi_prov_softap E evs }"

definition thread_prov_ble :: sample where
  "thread_prov_ble = \<lparr>sm_scheme = network_prov_scheme_ble, sm_event_cb = prov_event_log, sm_conn_attempts = 0,
     sm_service_name = Some ''PROV_ZEPHYR'', sm_service_key = None\<rparr>"

definition thread_prov_ble_main :: "env \<Rightarrow> prog_event list \<Rightarrow> int option app" where
  "thread_prov_ble_main E evs = do {
     r \<leftarrow> mgr_init thread_prov_ble E;
     if r \<noteq> 0 then ret (Some 0)
     else do {
       _ \<leftarrow> lib (network_prov_mgr_set_app_info (Some ''thread_prov_ble'') (Some ''1.0'') (Some [Some ''sample'']) 1);
       provisioned \<leftarrow> is_provisioned E;
       if provisioned
       then do {
         _ \<leftarrow> lib (ask (openthread_run_ret (ot E)) (\<lambda>_. Ot Ot_run));
         ret (Some 0) }
       else do {
         r \<leftarrow> run_provisioning thread_prov_ble E evs;
         ret (map_option (\<lambda>_. 0) r) } } }"

section \<open>Reading the history\<close>

text \<open>The sleeps (milliseconds) and the time that a thread can spend blocked.\<close>

fun sleeps :: "history \<Rightarrow> nat list" where
  "sleeps [] = []"
| "sleeps (Kern (K_sleep n) # h) = n # sleeps h"
| "sleeps (c # h) = sleeps h"

fun wait_ms :: "history \<Rightarrow> enat" where
  "wait_ms [] = 0"
| "wait_ms (Kern (K_sleep n) # h) = enat n + wait_ms h"
| "wait_ms (Kern (K_sem_take m (K_MSEC n)) # h) = enat n + wait_ms h"
| "wait_ms (Kern (K_sem_take m K_FOREVER) # h) = \<infinity>"
| "wait_ms (c # h) = wait_ms h"

fun store_change :: "call \<Rightarrow> bool" where
  "store_change (Wifi (Cred_delete_by_ssid b)) = True"
| "store_change (Wifi (Cred_set_personal c)) = True"
| "store_change (Wifi Cred_delete_all) = True"
| "store_change (Ot (Ot_dataset_set_active b)) = True"
| "store_change (Ot Ot_erase_persistent_info) = True"
| "store_change _ = False"

lemma readings_append [simp]:
  "conn_requests (h @ h') = conn_requests h @ conn_requests h'" "sleeps (h @ h') = sleeps h @ sleeps h'"
  "wait_ms (h @ h') = wait_ms h + wait_ms h'"
proof -
  show "conn_requests (h @ h') = conn_requests h @ conn_requests h'" by (induction h rule: conn_requests.induct) simp_all
  show "sleeps (h @ h') = sleeps h @ sleeps h'" by (induction h rule: sleeps.induct) simp_all
  show "wait_ms (h @ h') = wait_ms h + wait_ms h'" by (induction h rule: wait_ms.induct) (simp_all add: add.assoc)
qed

text \<open>What a program of the application adds to the history, depending on its result.\<close>

definition makes :: "('a \<Rightarrow> history \<Rightarrow> bool) \<Rightarrow> 'a app \<Rightarrow> bool" where
  "makes P m \<longleftrightarrow> (\<forall>s. wp m (\<lambda>a s'. \<exists>new. hist (lib_state s') = new @ hist (lib_state s) \<and> P a new) s)"

lemma makesD: "makes P m \<Longrightarrow> wp m (\<lambda>a s'. \<exists>new. hist (lib_state s') = new @ hist (lib_state s) \<and> P a new) s"
  by (simp add: makes_def)

lemma makes_ret: "P a [] \<Longrightarrow> makes P (ret a)"
  by (simp add: makes_def)

lemma makes_gets: "(\<And>a. P a []) \<Longrightarrow> makes P (gets f)"
  by (simp add: makes_def)

lemma makes_call: "P () [c] \<Longrightarrow> makes P (lib (ext_call c))"
  by (simp add: makes_def)

lemma makes_ask: "(\<And>r. P r [c r]) \<Longrightarrow> makes P (lib (ask q c))"
  by (simp add: makes_def)

lemma makes_bind:
  assumes "makes P m" "\<And>a old. P a old \<Longrightarrow> makes (\<lambda>b new. Q b (new @ old)) (f a)"
  shows "makes Q (State_Monad.bind m f)"
  unfolding makes_def wp_bind
proof
  fix s
  show "wp m (\<lambda>a. wp (f a) (\<lambda>b s'. \<exists>new. hist (lib_state s') = new @ hist (lib_state s) \<and> Q b new)) s"
    by (rule wp_mono, rule spec [OF assms(1) [unfolded makes_def]], elim exE conjE,
        rule wp_mono, rule spec [OF assms(2) [unfolded makes_def]], assumption)
      (metis append_assoc)
qed

lemma makes_mono: "makes P m \<Longrightarrow> (\<And>a new. P a new \<Longrightarrow> Q a new) \<Longrightarrow> makes Q m"
  unfolding makes_def by (blast intro: wp_mono)

section \<open>The reconnect loop\<close>

text \<open>\<open>n\<close> requests at most; the sleeps are a beginning of \<open>ws\<close>; each request waits 45 s at most; the stored credentials are
  left alone.\<close>

definition reconnect_spec :: "nat \<Rightarrow> nat list \<Rightarrow> history \<Rightarrow> bool" where
  "reconnect_spec n ws new \<longleftrightarrow> length (conn_requests new) \<le> n \<and> prefix (rev (sleeps new)) ws \<and>
     wait_ms new \<le> enat (n * 45000 + sum_list ws) \<and> list_all (\<lambda>c. \<not> store_change c) new"

abbreviation results_only :: "history \<Rightarrow> bool" where
  "results_only new \<equiv> \<exists>k. new = replicate k (Kern (K_sem_give Conn_result_sem))"

lemma results_only_readings:
  "results_only new \<Longrightarrow> conn_requests new = [] \<and> sleeps new = [] \<and> wait_ms new = 0 \<and> list_all (\<lambda>c. \<not> store_change c) new"
proof -
  have "conn_requests (replicate k (Kern (K_sem_give Conn_result_sem))) = [] \<and> sleeps (replicate k (Kern (K_sem_give Conn_result_sem))) = [] \<and>
      wait_ms (replicate k (Kern (K_sem_give Conn_result_sem))) = 0" for k
    by (induction k) simp_all
  then show "results_only new \<Longrightarrow> conn_requests new = [] \<and> sleeps new = [] \<and> wait_ms new = 0 \<and> list_all (\<lambda>c. \<not> store_change c) new"
    by (auto simp: list_all_iff)
qed

lemma wp_deliver [wp, simp]:
  "wp (deliver_results rs) Q s =
     Q () (s\<lparr>lib_state := (lib_state s)\<lparr>hist := replicate (length rs) (Kern (K_sem_give Conn_result_sem)) @ hist (lib_state s)\<rparr>,
       conn_result_status := last (conn_result_status s # rs)\<rparr>)"
  unfolding deliver_results_def
  by (induction rs arbitrary: s) (simp_all add: conn_mgmt_event_def replicate_app_Cons_same)

lemma results_make: "makes (\<lambda>_. results_only) (connect_results_arrive E)" "makes (\<lambda>_. results_only) (first_result_arrives E)"
  by (auto simp: makes_def connect_results_arrive_def first_result_arrives_def)

lemma wait_makes: "makes (\<lambda>_ new. reconnect_spec (Suc 0) [] new \<and> conn_requests new = [p]) (connect_and_wait E i p)"
proof -
  have wait: "makes (\<lambda>_ new. conn_requests new = [] \<and> sleeps new = [] \<and> wait_ms new \<le> 45000 \<and> list_all (\<lambda>c. \<not> store_change c) new)
    (do { first_result_arrives E;
      t \<leftarrow> lib (k_sem_take E Conn_result_sem (K_MSEC (SAVED_CONN_TIMEOUT_S * 1000)));
      if t \<noteq> 0 then ret (- ETIMEDOUT)
      else do { st \<leftarrow> gets conn_result_status; ret (if st \<noteq> 0 then - EIO else 0) } })"
    by (rule makes_bind [OF results_make(2)], drule results_only_readings)
      (simp add: makes_def numeral_eq_enat)
  have req: "makes (\<lambda>_ new. conn_requests new = [p] \<and> sleeps new = [] \<and> wait_ms new = 0 \<and> list_all (\<lambda>c. \<not> store_change c) new)
      (connect_request E i p)"
    by (cases i) (simp_all add: connect_request_def makes_def)
  show ?thesis
    unfolding connect_and_wait_def
    by (rule makes_bind [OF makes_call [where P = "\<lambda>_ new. new = [Kern (K_sem_reset Conn_result_sem)]"]], simp,
        rule makes_bind [OF req])
      (auto simp: reconnect_spec_def numeral_eq_enat intro!: makes_ret makes_mono [OF wait [simplified, unfolded numeral_eq_enat]])
qed

lemma once_makes: "makes (\<lambda>_. reconnect_spec (Suc 0) []) (connect_saved_once E)"
proof -
  have "reconnect_spec (Suc 0) [] []" by (simp add: reconnect_spec_def)
  then show ?thesis
    by (auto simp: connect_saved_once_def Let_def makes_def intro!: wp_mono [OF makesD [OF wait_makes]])
qed

lemma sleep_makes:
  "makes (\<lambda>_ new. conn_requests new = [] \<and> sleeps new = [b * 1000] \<and> wait_ms new = enat (b * 1000) \<and>
      list_all (\<lambda>c. \<not> store_change c) new) (retry_sleep E b)"
  unfolding retry_sleep_def
  by (rule makes_bind [OF makes_call [where P = "\<lambda>_ new. new = [Kern (K_sleep (b * 1000))]"]], simp,
      rule makes_mono [OF results_make(1)], drule results_only_readings) simp

lemma attempts_end: "makes (\<lambda>_. reconnect_spec (Suc 0) []) (connect_attempts E SAVED_CONN_ATTEMPTS b)"
  unfolding connect_attempts.simps [of E SAVED_CONN_ATTEMPTS b] 
  by (simp, rule makes_bind [OF once_makes]) (auto simp: connect_attempts.simps [of E 6] intro!: makes_ret)

lemma attempts_step:
  assumes "attempt < SAVED_CONN_ATTEMPTS"
    and "makes (\<lambda>_. reconnect_spec n ws) (connect_attempts E (Suc attempt) (min (b * 2) SAVED_CONN_BACKOFF_MAX))"
  shows "makes (\<lambda>_. reconnect_spec (Suc n) (b * 1000 # ws)) (connect_attempts E attempt b)"
proof -
  have weak: "reconnect_spec (Suc 0) [] old \<Longrightarrow> reconnect_spec (Suc n) (b * 1000 # ws) old" for old
    by (auto simp: reconnect_spec_def elim!: order_trans)
  have join: "reconnect_spec (Suc n) (b * 1000 # ws) (late @ slept @ old)"
    if "reconnect_spec n ws late" "reconnect_spec (Suc 0) [] old" "conn_requests slept = []" "sleeps slept = [b * 1000]"
      "wait_ms slept = enat (b * 1000)" "list_all (\<lambda>c. \<not> store_change c) slept" for late slept old
  proof -
    have "wait_ms late + (enat (b * 1000) + wait_ms old) \<le> enat (n * 45000 + sum_list ws) + (enat (b * 1000) + enat 45000)"
      using that by (intro add_mono) (auto simp: reconnect_spec_def)
    with that show ?thesis by (auto simp: reconnect_spec_def algebra_simps)
  qed
  show ?thesis
    unfolding connect_attempts.simps [of E attempt]
    using assms(1)
    by (simp, intro makes_bind [OF once_makes])
      (auto intro!: makes_ret makes_bind [OF sleep_makes] makes_mono [OF assms(2)] intro: weak join)
qed

lemma attempts_make: "makes (\<lambda>_. reconnect_spec 5 [2000, 4000, 8000, 16000]) (connect_attempts E 1 2)"
proof -
  note step = attempts_step [where E = E, simplified]
  have "makes (\<lambda>_. reconnect_spec (Suc (Suc 0)) [16000]) (connect_attempts E 4 16)"
    using step [of 4 "Suc 0" "[]" 16] attempts_end [of E 16] by simp
  then have "makes (\<lambda>_. reconnect_spec (Suc (Suc (Suc 0))) [8000, 16000]) (connect_attempts E 3 8)"
    using step [of 3 _ _ 8] by simp
  then have "makes (\<lambda>_. reconnect_spec (Suc (Suc (Suc (Suc 0)))) [4000, 8000, 16000]) (connect_attempts E 2 4)"
    using step [of 2 _ _ 4] by simp
  then show ?thesis using step [of 1 4 "[4000, 8000, 16000]" 2] by (simp flip: One_nat_def)
qed

lemma saved_makes:
  assumes "makes P (connect_attempts E 1 2)"
  shows "makes (\<lambda>r new. \<exists>mid. new = Wifi (Net_del_event_callback Conn_cb) # mid @ [Wifi (Net_add_event_callback Conn_cb)] \<and> P r mid)
    (connect_saved E)"
  unfolding connect_saved_def
  by (rule makes_bind [OF makes_call [where P = "\<lambda>_ new. new = [Wifi (Net_add_event_callback Conn_cb)]"]], simp,
      rule makes_bind [OF assms]) (simp add: makes_def)

text \<open>The requests of the loop.\<close>

lemma attempts_requests:
  assumes "makes (\<lambda>_ new. set (conn_requests new) \<subseteq> A) (connect_saved_once E)"
  shows "makes (\<lambda>_ new. set (conn_requests new) \<subseteq> A) (connect_attempts E attempt b)"
  using assms
proof (induction E attempt b rule: connect_attempts.induct)
  case (1 E attempt b)
  have ih: "attempt < SAVED_CONN_ATTEMPTS \<Longrightarrow> makes (\<lambda>_ new. set (conn_requests new) \<subseteq> A)
      (connect_attempts E (attempt + 1) (min (b * 2) SAVED_CONN_BACKOFF_MAX))"
    "attempt = SAVED_CONN_ATTEMPTS \<Longrightarrow> makes (\<lambda>_ new. set (conn_requests new) \<subseteq> A) (connect_attempts E (attempt + 1) b)"
    using 1(1,2) [of 1] 1(3) by simp_all
  show ?case
    unfolding connect_attempts.simps [of E attempt]
    by (auto intro!: makes_bind [OF 1(3)] makes_ret makes_bind [OF sleep_makes] makes_mono [OF ih(1) [simplified]]
        makes_mono [OF ih(2) [simplified]]) blast
qed

lemma found_stays: "ss_found s \<Longrightarrow> foldl pick_ssid s ssids = s"
  by (induction ssids) (simp_all add: pick_ssid_def)

lemma first_ssid_picked:
  assumes "length ssid \<le> WIFI_SSID_MAX_LEN"
  shows "ss_found (foldl pick_ssid no_ssid (ssid # ssids))"
    "take (ss_len (foldl pick_ssid no_ssid (ssid # ssids))) (ss_ssid (foldl pick_ssid no_ssid (ssid # ssids))) = ssid"
proof -
  have "ss_found (pick_ssid no_ssid ssid)" by (simp add: pick_ssid_def no_ssid_def Let_def)
  note eq = found_stays [OF this, of ssids]
  show "ss_found (foldl pick_ssid no_ssid (ssid # ssids))" using eq by (simp add: pick_ssid_def no_ssid_def Let_def)
  show "take (ss_len (foldl pick_ssid no_ssid (ssid # ssids))) (ss_ssid (foldl pick_ssid no_ssid (ssid # ssids))) = ssid"
    using eq assms by (simp add: pick_ssid_def no_ssid_def memcpy_at_def min_def Let_def)
qed

text \<open>The hypothesis on the credential store: it holds what was stored (documented behaviour of
  \<open>wifi_credentials_set_personal\<close> and its readers).\<close>

definition stored_as :: "wifi_credential \<Rightarrow> stored_credential \<Rightarrow> bool" where
  "stored_as c v \<longleftrightarrow> sv_security v = cr_security c \<and> sv_password v = cr_password c \<and> sv_flags v = cr_flags c \<and>
     sv_channel v = cr_channel c \<and> (\<forall>b. cr_bssid c = Some b \<longrightarrow> sv_bssid v = b)"

lemma saved_params_of_command:
  assumes "cmd_valid cmd" "stored_as (credential_of cmd) v" "ssids = cmd_ssid cmd # rest"
  shows "saved_params (foldl pick_ssid no_ssid ssids) v = request_of cmd"
  using assms first_ssid_picked(2) [of "cmd_ssid cmd" rest]
  by (simp add: saved_params_def request_of_def stored_as_def credential_of_def cmd_valid_def memcpy_full word_gt_0)


section \<open>The outcome of the reconnect loop\<close>

text \<open>What the driver reports after a request: nothing within the timeout, or results of which the first one counts.\<close>

definition reported_success :: "int list \<Rightarrow> bool" where
  "reported_success rs \<longleftrightarrow> rs \<noteq> [] \<and> hd rs = 0"

text \<open>A driver over which the samples reconnect: it accepts requests on the interface, and \<open>outcome n\<close> are the
  results that it reports during the wait after the request with number \<open>n\<close>. What it reports while the
  application sleeps is not restricted.\<close>

definition driver_reports :: "env \<Rightarrow> (nat \<Rightarrow> int list) \<Rightarrow> bool" where
  "driver_reports E outcome \<longleftrightarrow> (\<forall>h. wifi_iface_of E h \<noteq> None) \<and> (\<forall>h i p. wifi_connect_ret (wifi E) h i p = 0) \<and>
     (\<forall>h i p. connect_results (wifi E) (Wifi (Wifi_connect i p) # h) = outcome (length (conn_requests h)))"

definition store_readable :: "env \<Rightarrow> bool" where
  "store_readable E \<longleftrightarrow> (\<forall>h. wifi_credentials_for_each_ssid (wifi E) h \<noteq> []) \<and>
     (\<forall>h b. fst (wifi_credentials_get_by_ssid_personal (wifi E) h b) = 0)"

lemma some_ssid_picked: "ssids \<noteq> [] \<Longrightarrow> ss_found (foldl pick_ssid no_ssid ssids)"
  by (cases ssids) (simp_all add: found_stays pick_ssid_def no_ssid_def Let_def)

lemma sem_given_results [simp]:
  "sem_given Conn_result_sem (replicate k (Kern (K_sem_give Conn_result_sem)) @ h) \<longleftrightarrow> 0 < k \<or> sem_given Conn_result_sem h"
  by (induction k) auto

lemma requests_results [simp]: "conn_requests (replicate k (Kern (K_sem_give Conn_result_sem))) = []"
  using results_only_readings by blast

lemma once_outcome:
  assumes "sem_law E" "store_readable E" "driver_reports E outcome"
  shows "wp (connect_saved_once E) (\<lambda>r s'. (r = 0 \<longleftrightarrow> reported_success (outcome (length (conn_requests (hist (lib_state s)))))) \<and>
     r \<noteq> - ENOENT \<and> length (conn_requests (hist (lib_state s'))) = Suc (length (conn_requests (hist (lib_state s))))) s"
proof -
  obtain i where i: "wifi_iface_of E (hist (lib_state s)) = Some i" using assms(3) unfolding driver_reports_def by blast
  have found: "ss_found (foldl pick_ssid no_ssid (wifi_credentials_for_each_ssid (wifi E) (hist (lib_state s))))"
    using assms(2) by (simp add: store_readable_def some_ssid_picked)
  show ?thesis
    using assms i found
    by (cases "outcome (length (conn_requests (hist (lib_state s))))")
      (auto simp: connect_saved_once_def connect_and_wait_def connect_request_def first_result_arrives_def Let_def sem_law_def
        store_readable_def driver_reports_def reported_success_def)
qed

lemma attempts_outcome:
  assumes "sem_law E" "store_readable E" "driver_reports E outcome" "n = length (conn_requests (hist (lib_state s)))"
  shows "wp (connect_attempts E attempt b) (\<lambda>r s'. r \<longleftrightarrow> (\<exists>k. attempt + k \<le> SAVED_CONN_ATTEMPTS \<and> reported_success (outcome (n + k)))) s"
  using assms
proof (induction E attempt b arbitrary: n s rule: connect_attempts.induct)
  case (1 E attempt b)
  let ?P = "\<lambda>(k :: nat). attempt + k \<le> SAVED_CONN_ATTEMPTS \<and> reported_success (outcome (n + k))"
  have shift: "(\<exists>k. ?P k) \<longleftrightarrow> ?P 0 \<or> (\<exists>k. ?P (Suc k))" by (metis nat.exhaust)
  have ih: "wp (connect_attempts E (attempt + 1) (min (b * 2) SAVED_CONN_BACKOFF_MAX)) (\<lambda>r s'. r \<longleftrightarrow> (\<exists>k. ?P (Suc k))) t"
    if "attempt < SAVED_CONN_ATTEMPTS" "Suc n = length (conn_requests (hist (lib_state t)))" for t
    using 1(1) [OF _ _ _ that(1) 1(3,4,5) that(2), of 1] that(1) by simp
  show ?case
  proof (cases "attempt \<le> SAVED_CONN_ATTEMPTS")
    case False
    then show ?thesis by (simp add: connect_attempts.simps [of E attempt])
  next
    case True
    show ?thesis
      unfolding connect_attempts.simps [of E attempt] if_P [OF True] wp_bind [of "connect_saved_once E"]
    proof (rule wp_mono [OF once_outcome [OF 1(3,4,5)]])
      fix r and s' :: app_state
      assume "(r = 0 \<longleftrightarrow> reported_success (outcome (length (conn_requests (hist (lib_state s)))))) \<and>
     r \<noteq> - ENOENT \<and> length (conn_requests (hist (lib_state s'))) = Suc (length (conn_requests (hist (lib_state s))))"
      then show "wp (if r = 0 then ret True else if r = - ENOENT then ret False
          else if attempt < SAVED_CONN_ATTEMPTS
          then do { retry_sleep E b; connect_attempts E (attempt + 1) (min (b * 2) SAVED_CONN_BACKOFF_MAX) }
          else connect_attempts E (attempt + 1) b) (\<lambda>r s'. r \<longleftrightarrow> (\<exists>k. ?P k)) s'"
        unfolding shift using True
        by (auto simp: 1(6) [symmetric] retry_sleep_def connect_results_arrive_def connect_attempts.simps [of E 6] intro!: ih [simplified])
    qed
  qed
qed


section \<open>Properties\<close>

text \<open>C12. Reconnecting ends. With whatever answers of the driver, the credential store and the kernel,
  \<open>connect_saved\<close> makes at most five connect requests, sleeps 2, 4, 8 and 16 seconds between them (or a beginning
  of that schedule), so that the device is back in its boot sequence after at most 255 seconds of waiting; no
  wait of it is without a timeout; and it neither writes nor erases stored credentials.\<close>

theorem reconnect_bounded:
  "wp (connect_saved E) (\<lambda>_ s'. \<exists>new. hist (lib_state s') = new @ hist (lib_state s) \<and>
     length (conn_requests new) \<le> SAVED_CONN_ATTEMPTS \<and> prefix (rev (sleeps new)) [2000, 4000, 8000, 16000] \<and>
     wait_ms new \<le> enat 255000 \<and> list_all (\<lambda>c. \<not> store_change c) new) s"
  by (rule wp_mono [OF makesD [OF saved_makes [OF attempts_make]]]) (auto simp: reconnect_spec_def)

text \<open>C13. Over a driver that accepts the requests, \<open>connect_saved\<close> returns true if and only if, for one of the first
  five requests, the first result that the driver reports after the request, within the 45 seconds of the wait, is a
  success. A further result within the same wait does not change the attempt, and a result that arrives while the
  application sleeps between two attempts counts for neither of them. (A result is not matched with its request: one for
  an earlier request that comes after the next request is the first result of that one.)\<close>

theorem reconnect_outcome:
  assumes "sem_law E" and "store_readable E" and "driver_reports E outcome"
  shows "wp (connect_saved E) (\<lambda>r s'. r \<longleftrightarrow>
     (\<exists>k < SAVED_CONN_ATTEMPTS. reported_success (outcome (length (conn_requests (hist (lib_state s))) + k)))) s"
  unfolding connect_saved_def
  by (simp, rule wp_mono [OF attempts_outcome [OF assms refl]]) (auto simp: less_eq_Suc_le)

text \<open>An environment whose network answers the third request, after a failure that is followed by a success and a timeout,
  and which delivers a late success during every sleep.\<close>

definition late_env :: env where
  "late_env = ok_env\<lparr>wifi := ok_wifi\<lparr>wifi_credentials_for_each_ssid := \<lambda>_. [[104, 111]],
     wifi_credentials_get_by_ssid_personal := \<lambda>_ _. (0, \<lparr>sv_security = WIFI_SECURITY_TYPE_PSK, sv_bssid = zeros 6,
       sv_password = [112], sv_flags = 0, sv_channel = 0\<rparr>),
     connect_results := \<lambda>h. case h of Wifi (Wifi_connect i p) # h' \<Rightarrow> [[2, 0], [], [0, 2]] ! (length (conn_requests h') mod 3)
       | _ \<Rightarrow> [0]\<rparr>\<rparr>"

theorem reconnect_outcome_witness: "wp (connect_saved late_env) (\<lambda>r s'. r) (app_boot late_env)"
proof -
  have "sem_law late_env" "store_readable late_env"
    by (simp_all add: sem_law_def store_readable_def late_env_def ok_env_def ok_kern_def)
  moreover have "driver_reports late_env (\<lambda>n. [[2, 0], [], [0, 2]] ! (n mod 3))"
    by (simp add: driver_reports_def late_env_def ok_env_def ok_wifi_def wifi_iface_of_def)
  ultimately show ?thesis
    by (rule wp_mono [OF reconnect_outcome])
      (simp_all add: app_boot_def boot_world_def reported_success_def, rule exI [of _ 2], simp)
qed

text \<open>C19. Provisioning and reboot agree: when the credential store holds the credentials that an Apply of the command
  \<open>cmd\<close> stored (first in its list), every connect request after the reboot is exactly the request that the Apply
  made, SSID, passphrase, security, channel and access point included; and at least one is made.\<close>

theorem reboot_reconnects_as_provisioned:
  assumes "cmd_valid cmd" and "\<And>h. \<exists>rest. wifi_credentials_for_each_ssid (wifi E) h = cmd_ssid cmd # rest"
    and "\<And>h. \<exists>v. wifi_credentials_get_by_ssid_personal (wifi E) h (cmd_ssid cmd) = (0, v) \<and> stored_as (credential_of cmd) v"
  shows "wp (connect_saved E) (\<lambda>_ s'. \<exists>new. hist (lib_state s') = new @ hist (lib_state s) \<and>
     set (conn_requests new) = {request_of cmd}) s"
proof -
  have once: "makes (\<lambda>_ new. conn_requests new = [request_of cmd]) (connect_saved_once E)"
    unfolding makes_def
  proof
    fix t :: app_state
    obtain rest v where v: "wifi_credentials_for_each_ssid (wifi E) (hist (lib_state t)) = cmd_ssid cmd # rest"
      "wifi_credentials_get_by_ssid_personal (wifi E) (hist (lib_state t)) (cmd_ssid cmd) = (0, v)" "stored_as (credential_of cmd) v"
      using assms(2,3) by meson
    note picked = first_ssid_picked [of "cmd_ssid cmd" rest] saved_params_of_command [OF assms(1) v(3) refl, of rest]
    show "wp (connect_saved_once E) (\<lambda>a s'. \<exists>new. hist (lib_state s') = new @ hist (lib_state t) \<and> conn_requests new = [request_of cmd]) t"
      using v(1,2) picked assms(1)
      by (auto simp: connect_saved_once_def Let_def cmd_valid_def simp del: foldl.simps intro!: wp_mono [OF makesD [OF wait_makes]])
  qed
  have more: "makes (\<lambda>_ new. set (conn_requests new) \<subseteq> {request_of cmd}) (connect_attempts E a b)" for a b
    by (rule attempts_requests [OF makes_mono [OF once]]) simp
  have "makes (\<lambda>_ new. set (conn_requests new) = {request_of cmd}) (connect_attempts E 1 2)"
    unfolding connect_attempts.simps [of E 1]
    by (simp, rule makes_bind [OF once])
      (auto intro!: makes_ret makes_bind [OF sleep_makes] makes_mono [OF more])
  from makesD [OF saved_makes [OF this]] show ?thesis by (rule wp_mono) auto
qed

text \<open>The store after an Apply of the command \<open>demo_cmd\<close>.\<close>

definition reboot_env :: env where
  "reboot_env = ok_env\<lparr>wifi := ok_wifi\<lparr>wifi_credentials_for_each_ssid := \<lambda>_. [cmd_ssid demo_cmd, [7]],
     wifi_credentials_get_by_ssid_personal := \<lambda>_ _. (0, \<lparr>sv_security = cr_security (credential_of demo_cmd),
       sv_bssid = cmd_bssid demo_cmd, sv_password = cr_password (credential_of demo_cmd),
       sv_flags = cr_flags (credential_of demo_cmd), sv_channel = cr_channel (credential_of demo_cmd)\<rparr>)\<rparr>\<rparr>"

theorem reboot_reconnects_as_provisioned_witness:
  "wp (connect_saved reboot_env) (\<lambda>_ s'. request_of demo_cmd \<in> set (conn_requests (hist (lib_state s')))) (app_boot reboot_env)"
proof -
  have "cmd_valid demo_cmd" by (simp add: demo_cmd_def cmd_valid_def)
  then show ?thesis
    by (rule wp_mono [OF reboot_reconnects_as_provisioned])
      (auto simp: reboot_env_def stored_as_def credential_of_def)
qed

end
