(* ===== verification/Sample_Runs.thy ===== *)
theory Sample_Runs
  imports Samples
begin

text \<open>
  Whole runs of the sample applications, from boot through the wait for provisioning. Every run is a run of the
  state machine of the library, so that what is proved there over all clients holds for the samples. The
  wait of \<open>main\<close> ends exactly with the first reported success, and the custom endpoint echoes over the encrypted
  channel.
\<close>

section \<open>Runs of the samples are runs of the library\<close>

abbreviation app_lawful :: "env \<Rightarrow> app_state \<Rightarrow> bool" where
  "app_lawful E s \<equiv> lawful E (lib_state s)"

lemma lawful_event:
  "lawful E w \<Longrightarrow> enabled ev w \<Longrightarrow> delivered ev w \<Longrightarrow> wp (event_run E ev) (\<lambda>_. lawful E) w"
  by (rule wp_runI) (rule lawful.step)

lemma lawful_api:
  assumes "lawful E w"
  shows "wp (network_prov_mgr_init E c) (\<lambda>_. lawful E) w"
    "wp (network_prov_mgr_start_provisioning E v popv name key) (\<lambda>_. lawful E) w"
    "wp (network_prov_mgr_is_provisioned E ptr) (\<lambda>_. lawful E) w"
    "wp (network_prov_mgr_endpoint_create cs) (\<lambda>_. lawful E) w"
    "wp (network_prov_mgr_endpoint_register cs f x) (\<lambda>_. lawful E) w"
    "wp (network_prov_mgr_set_app_info cs v' l n) (\<lambda>_. lawful E) w"
  using lawful_event [OF assms, of "Api (Mgr_init c)"] lawful_event [OF assms, of "Api (Mgr_start v popv name key)"]
    lawful_event [OF assms, of "Api (Mgr_is_provisioned ptr)"] lawful_event [OF assms, of "Api (Mgr_endpoint_create cs)"]
    lawful_event [OF assms, of "Api (Mgr_endpoint_register cs f x)"] lawful_event [OF assms, of "Api (Mgr_set_app_info cs v' l n)"]
  by (simp_all add: forget_def)

lemma lawful_own: "lawful E w \<Longrightarrow> own_call c \<Longrightarrow> lawful E (w\<lparr>hist := c # hist w\<rparr>)"
  using lawful_event [of E w "Own_call c"] by simp

lemma lawful_wait: "lawful E w \<Longrightarrow> network_prov_mgr_wait E w = Some w' \<Longrightarrow> lawful E w'"
  using lawful_event [of E w "Api Mgr_wait"] by (auto simp: network_prov_mgr_wait_def split: if_splits)

text \<open>A predicate on the state of the library that the calls of the application keep; the samples' own code keeps it.\<close>

locale app_stable =
  fixes E :: env and I :: "world \<Rightarrow> bool"
  assumes own_law: "I w \<Longrightarrow> own_call c \<Longrightarrow> I (w\<lparr>hist := c # hist w\<rparr>)"
    and register_law: "stable I (network_prov_mgr_endpoint_register cs f x)"
    and provisioned_law: "stable I (network_prov_mgr_is_provisioned E ptr)"
begin

abbreviation J :: "app_state \<Rightarrow> bool" where
  "J s \<equiv> I (lib_state s)"

lemma lib_stable: "stable I m \<Longrightarrow> stable J (lib m)"
  by (auto simp: stable_def)

lemma own_stable [intro!]: "own_call c \<Longrightarrow> stable J (lib (ext_call c))" "(\<And>r. own_call (d r)) \<Longrightarrow> stable J (lib (ask q d))"
  "stable J (lib (k_sem_take E Conn_result_sem t))"
  using own_law by (auto simp: stable_def)

lemma status_stable [intro!]: "stable J (modify (\<lambda>s. s\<lparr>conn_result_status := f s\<rparr>))"
  by (simp add: stable_def)

lemma call_stable:
  assumes "stable I m" "\<And>e. stable J (cb e)"
  shows "stable J (call_lib cb m)"
  unfolding call_lib_def using assms by (auto intro!: lib_stable)

lemma event_cb_stable: "stable J (prov_event e)" "stable J (prov_event_log e)"
  by (auto simp: prov_event_def prov_event_log_def intro!: lib_stable register_law split: network_prov_cb_event.split)

lemma results_stable [intro!]: "stable J (connect_results_arrive E)" "stable J (first_result_arrives E)"
  unfolding connect_results_arrive_def first_result_arrives_def deliver_results_def conn_mgmt_event_def by auto

lemma once_stable [intro!]: "stable J (connect_saved_once E)"
proof -
  have req: "stable J (connect_request E i p)" for i p
    unfolding connect_request_def by (cases i) auto
  have iface: "stable J (lib (wifi_iface E))"
    by (simp add: stable_def)
  show ?thesis
    unfolding connect_saved_once_def connect_and_wait_def Let_def by (auto intro!: req iface)
qed

lemma saved_stable: "stable J (connect_saved E)"
proof -
  have "stable J (connect_attempts F a b)" if "F = E" for F a b
    using that
  proof (induction F a b rule: connect_attempts.induct)
    case (1 F a b)
    have ih: "a < 5 \<Longrightarrow> stable J (connect_attempts E (a + 1) (min (b * 2) 16))" "a = 5 \<Longrightarrow> stable J (connect_attempts E (a + 1) b)"
      using 1(1,2) [of 1] 1(3) by simp_all
    show ?case
      unfolding 1(3) by (subst connect_attempts.simps) (use ih in \<open>auto simp: retry_sleep_def\<close>)
  qed
  then show ?thesis unfolding connect_saved_def by auto
qed

lemma provisioned_stable: "stable J (is_provisioned E)"
  unfolding is_provisioned_def by (auto intro!: lib_stable provisioned_law)

end

abbreviation sample_cb :: "sample \<Rightarrow> bool" where
  "sample_cb sm \<equiv> sm_event_cb sm = prov_event \<or> sm_event_cb sm = prov_event_log"

lemma sample_cbs:
  "sample_cb wifi_prov_console" "sample_cb wifi_prov_ble" "sample_cb wifi_prov_softap" "sample_cb thread_prov_ble"
  by (simp_all add: wifi_prov_console_def wifi_prov_ble_def wifi_prov_softap_def thread_prov_ble_def)

text \<open>The four programs.\<close>

datatype sample_program = Wifi_console | Wifi_ble | Wifi_softap | Thread_ble

fun sample_main :: "sample_program \<Rightarrow> env \<Rightarrow> prog_event list \<Rightarrow> int option app" where
  "sample_main Wifi_console = wifi_prov_console_main"
| "sample_main Wifi_ble = wifi_prov_ble_main"
| "sample_main Wifi_softap = wifi_prov_softap_main"
| "sample_main Thread_ble = thread_prov_ble_main"

text \<open>With the rest of the manager's interface and with the events during the wait, the whole programs keep the
  predicate.\<close>

locale app_client = app_stable E I for E I +
  fixes evs :: "prog_event list"
  assumes init_law: "stable I (network_prov_mgr_init E cf)"
    and start_law: "stable I (network_prov_mgr_start_provisioning E v popv name key)"
    and create_law: "stable I (network_prov_mgr_endpoint_create cs)"
    and info_law: "stable I (network_prov_mgr_set_app_info l ver caps n)"
    and wait_law: "I w \<Longrightarrow> network_prov_mgr_wait E w = Some w' \<Longrightarrow> I w'"
    and event_law: "ev \<in> set evs \<Longrightarrow> I w \<Longrightarrow> from_outside ev \<Longrightarrow> enabled ev w \<Longrightarrow> delivered ev w \<Longrightarrow> wp (event_run E ev) (\<lambda>_. I) w"
begin

lemma cb_stable: "sample_cb sm \<Longrightarrow> stable J (sm_event_cb sm e)"
  using event_cb_stable by auto

lemma provisioning_stable:
  assumes "sample_cb sm"
  shows "stable J (run_provisioning sm E evs)" "stable J (mgr_init sm E)"
proof -
  have occ: "stable J (occur E sm ev)" if "ev \<in> set evs" for ev
    unfolding stable_def occur_def using that cb_stable [OF assms]
    by (auto simp: call_lib_def intro!: wp_mono [OF event_law] stableD [OF stable_for_each])
  have wait: "stable J (do { s \<leftarrow> gets lib_state; (case network_prov_mgr_wait E s of None \<Rightarrow> ret None
      | Some s' \<Rightarrow> do { modify (\<lambda>t. t\<lparr>lib_state := s'\<rparr>); ret (Some 0) }) })"
    by (auto simp: stable_def intro: wait_law split: option.split)
  show "stable J (mgr_init sm E)"
    unfolding mgr_init_def by (intro call_stable init_law cb_stable assms)
  show "stable J (run_provisioning sm E evs)"
    unfolding run_provisioning_def
    by (intro stable_bind stable_if stable_ret call_stable start_law cb_stable assms wait stable_for_each occ)
qed

lemma main_stable: "stable J (sample_main k E evs)"
proof -
  note laws = sample_cbs provisioning_stable saved_stable provisioned_stable
  have api: "stable J (lib (network_prov_mgr_endpoint_create n))" "stable J (lib (network_prov_mgr_set_app_info a b c d))" for n a b c d
    by (intro lib_stable create_law info_law)+
  have cop: "stable J (connect_or_provision sm E evs)" if "sample_cb sm" for sm
    unfolding connect_or_provision_def using that by (auto intro!: laws)
  show ?thesis
    by (cases k) (auto simp: wifi_prov_console_main_def wifi_prov_ble_main_def wifi_prov_softap_main_def thread_prov_ble_main_def
        intro!: laws api cop)
qed

end

interpretation lawful_app: app_client E "lawful E" evs for E evs
  by unfold_locales (auto simp: stable_def lawful_own lawful_api lawful_wait lawful_event)

section \<open>What is reported while \<open>main\<close> waits\<close>

text \<open>What the events delivered so far and the semaphore of the wait say together: no service was started yet; or a
  service was started, and the semaphore stands for the success that was reported.\<close>

definition view :: "(network_prov_cb_event list \<Rightarrow> bool \<Rightarrow> bool) \<Rightarrow> world \<Rightarrow> bool" where
  "view P s \<longleftrightarrow> event_cb (mgr s) \<and> P (app_events (hist s)) (sem_given Mgr_done (hist s))"

abbreviation fresh :: "world \<Rightarrow> bool" where
  "fresh \<equiv> view (\<lambda>es given. es = [NETWORK_PROV_INIT] \<and> \<not> given)"

abbreviation just_started :: "world \<Rightarrow> bool" where
  "just_started \<equiv> view (\<lambda>es given. es = [NETWORK_PROV_START, NETWORK_PROV_INIT] \<and> \<not> given)"

abbreviation told :: "world \<Rightarrow> bool" where
  "told \<equiv> view (\<lambda>es given. NETWORK_PROV_START \<in> set es \<and> (given \<longleftrightarrow> NETWORK_PROV_CRED_SUCCESS \<in> set es))"

lemma view_silent [simp]: "silent c \<Longrightarrow> view P (s\<lparr>hist := c # h\<rparr>) = view P (s\<lparr>hist := h\<rparr>)"
  by (cases c rule: silent.cases) (simp_all add: view_def)

interpretation view: pc_stable "view P" for P
  by unfold_locales (simp_all, simp_all add: view_def)

lemma view_upd [intro!]:
  "stable (view P) (upd_wc f1)" "stable (view P) (upd_sc f2)" "stable (view P) (upd_tc f3)" "stable (view P) (upd_ts f4)"
  "(\<And>m. event_cb (f m) = event_cb m) \<Longrightarrow> stable (view P) (upd_mgr f)"
  by (simp_all add: stable_def view_def)

lemma view_calls [intro!]:
  "stable (view P) (ext_call (Wifi w))" "stable (view P) (ask q (\<lambda>_. Wifi w))" "stable (view P) (ext_call (Ot u))"
  "stable (view P) (ask q' (\<lambda>_. Ot u))" "m \<noteq> Mgr_done \<Longrightarrow> stable (view P) (k_sem_take E m t)"
  "m \<noteq> Mgr_done \<Longrightarrow> stable (view P) (ext_call (Kern (K_sem_reset m)))"
  "m \<noteq> Mgr_done \<Longrightarrow> stable (view P) (ext_call (Kern (K_sem_give m)))"
  "m \<noteq> Mgr_done \<Longrightarrow> stable (view P) (ext_call (Kern (K_sem_init m)))"
  "stable (view P) (ext_call (Kern (K_work_init x)))" "stable (view P) (ext_call (Kern (K_work_schedule x n)))"
  "stable (view P) (ext_call (Kern (K_work_reschedule x n)))" "stable (view P) (ext_call (Kern (K_work_cancel x)))"
  "stable (view P) (ext_call (Kern (K_work_cancel_sync x)))" "stable (view P) (ext_call (Kern (K_work_run x)))"
  by (simp_all add: stable_def view_def)

lemma told_emit [intro!]: "stable told (network_prov_emit_event E e)"
  by (cases e) (auto simp: stable_def view_def)

lemma told_network [intro!]:
  "stable told (wifi_config_mgmt_event E ev)" "stable told (retry_work_handler E)" "stable told (wifi_scan_mgmt_event E sv)"
  "stable told (ot_state_changed E rc)" "stable told (run_attach_timeout E)" "stable told (discover_cb E d)"
  by (auto simp: wifi_config_mgmt_event_def on_connect_result_def retry_work_handler_def connect_from_inflight_def wifi_iface_def
      final_failure_def cred_delete_def clear_inflight_def wifi_scan_mgmt_event_def on_scan_result_def ot_state_changed_def
      on_attached_def claim_pending_def run_attach_timeout_def attach_timeout_fn_def discover_cb_def
      split: wifi_event.split wifi_scan_event.split)

lemma told_wifi:
  "stable told (network_prov_wifi_config_handler E b)" "stable told (network_prov_wifi_scan_handler E b)"
  "stable told (network_prov_wifi_ctrl_handler E b)"
proof -
  show "stable told (network_prov_wifi_config_handler E b)"
    unfolding network_prov_wifi_config_handler_def wifi_encode_simple_def wifi_encode_get_status_def fill_connected_state_def
      wifi_do_set_config_def wifi_do_apply_config_def clear_inflight_def wifi_iface_def cred_delete_def connect_from_inflight_def
    by (auto split: NetworkConfigMsgType.split)
  show "stable told (network_prov_wifi_scan_handler E b)"
    unfolding network_prov_wifi_scan_handler_def wifi_scan_start_def wifi_do_scan_start_def wifi_scan_wait_def wifi_scan_encode_def
    by (auto split: NetworkScanMsgType.split)
  show "stable told (network_prov_wifi_ctrl_handler E b)"
    unfolding network_prov_wifi_ctrl_handler_def network_prov_wifi_config_reset_def clear_inflight_def
    by (auto split: NetworkCtrlMsgType.split)
qed

lemma told_thread:
  "stable told (network_prov_thread_config_handler E b)" "stable told (network_prov_thread_scan_handler E b)"
  "stable told (network_prov_thread_ctrl_handler E b)"
proof -
  show "stable told (network_prov_thread_config_handler E b)"
    unfolding network_prov_thread_config_handler_def thread_encode_simple_def thread_encode_get_status_def fill_attached_state_def
      thread_do_set_config_def thread_do_apply_config_def commit_dataset_def on_attached_def claim_pending_def
    by (auto split: NetworkConfigMsgType.split)
  show "stable told (network_prov_thread_scan_handler E b)"
    unfolding network_prov_thread_scan_handler_def thread_scan_start_def thread_scan_start_state_def
      thread_do_scan_start_def thread_scan_wait_def thread_scan_encode_def
    by (auto split: NetworkScanMsgType.split NetworkScanUnion.split)
  show "stable told (network_prov_thread_ctrl_handler E b)"
    unfolding network_prov_thread_ctrl_handler_def network_prov_thread_config_reset_def network_prov_thread_config_erase_def
    by (auto split: NetworkCtrlMsgType.split)
qed

interpretation told_req: request_stable told E for E
proof
  show "stable told (prog_handler E h pr b)" if "callable E h pr" for h pr b
    by (cases h) (auto simp: told_wifi told_thread custom_trampoline_def app_handler_def)
qed

lemma view_deinit [intro!]: "stable (view P) (net_endpoints_deinit E)"
  unfolding net_endpoints_deinit_def network_prov_wifi_scan_deinit_def network_prov_wifi_config_deinit_def
    network_prov_thread_scan_deinit_def network_prov_thread_config_deinit_def clear_inflight_def
  by auto

lemma told_teardown: "stable told (teardown_work_fn E)"
  unfolding teardown_work_fn_def do_teardown_def by auto

lemma told_event:
  assumes "lawful E s" "config_ok E" "buffer_laws E" "told s" "from_outside ev" "enabled ev s"
  shows "wp (event_run E ev) (\<lambda>_. told) s"
  using assms(4-6) told_req.transport_events [OF reachable_inv [OF lawful_reachable [OF assms(1)] assms(2,3)] assms(4,6,3)]
  by (cases ev) (auto intro!: stableD [OF told_teardown] stableD [where I = told])

lemma view_api:
  "stable (view P) (network_prov_mgr_endpoint_register n f x)" "stable (view P) (network_prov_mgr_is_provisioned E ptr)"
  "stable (view P) (network_prov_mgr_endpoint_create n)" "stable (view P) (network_prov_mgr_set_app_info l v cs k)"
  by (auto simp: network_prov_mgr_endpoint_register_def network_prov_mgr_is_provisioned_def network_prov_mgr_endpoint_create_def
      network_prov_mgr_set_app_info_def network_prov_thread_is_commissioned_def Let_def)

interpretation view_app: app_stable E "view P" for E P
proof
  show "view P (w\<lparr>hist := c # hist w\<rparr>)" if "view P w" "own_call c" for w c
    using that by (cases c rule: own_call.cases) (simp_all add: view_def)
qed (rule view_api)+

lemma start_view:
  assumes "fresh s"
  shows "wp (network_prov_mgr_start_provisioning E v popv name key) (\<lambda>r. if r = 0 then just_started else fresh) s"
proof -
  have net: "stable fresh (net_endpoints_init E pc)" for pc
    unfolding net_endpoints_init_def chk_def network_prov_wifi_scan_init_def network_prov_wifi_config_init_def
      network_prov_thread_scan_init_def network_prov_thread_config_init_def
    by auto
  have svc: "stable fresh (start_service E v popv name key pc)" for pc
    unfolding start_service_def chk_def by (auto intro!: net)
  have ver: "stable fresh (build_version_json E v popv)"
    unfolding build_version_json_def Let_def by auto
  have fin: "wp (if r \<noteq> 0 then do { net_endpoints_deinit E; protocomm_delete (prog_link E) pc; upd_mgr (\<lambda>m. m\<lparr>mgr_pc := None\<rparr>); ret r }
      else do { upd_mgr (\<lambda>m. m\<lparr>started := True\<rparr>); network_prov_emit_event E NETWORK_PROV_START; ret 0 })
      (\<lambda>r. if r = 0 then just_started else fresh) t" if "fresh t" for r pc t
  proof (cases "r = 0")
    case True
    with that show ?thesis by (simp add: view_def)
  next
    case False
    show ?thesis
      unfolding if_P [OF False]
      by (rule stable_bindD [OF view_deinit that], rule stable_bindD [OF view.stable_session(2)], assumption)
        (use False in \<open>simp add: view_def\<close>)
  qed
  show ?thesis
    unfolding network_prov_mgr_start_provisioning_def
    using assms
    by (simp del: wp_bind add: wp_bind [of "gets _"])
      (auto simp del: wp_bind intro!: stable_bindD [OF view.stable_registry(5)] stable_bindD [OF view_upd(5)]
        stable_bindD [OF ver] stable_bindD [OF svc] fin)
qed

lemma just_started_told: "just_started s \<Longrightarrow> told s"
  by (simp add: view_def)

section \<open>The wait of \<open>main\<close>\<close>

lemma call_lib_rule:
  assumes "wp m I (lib_state s)" "\<And>a e. stable (\<lambda>t. I a (lib_state t)) (cb e)"
  shows "wp (call_lib cb m) (\<lambda>a t. I a (lib_state t)) s"
  unfolding call_lib_def using assms
  by (auto elim!: wp_mono intro!: stableD [OF stable_for_each])

text \<open>The observation at the end: \<open>main\<close> is still blocked exactly when a service was started and no success was
  reported since.\<close>

definition waits_for_success :: "'a option \<Rightarrow> app_state \<Rightarrow> bool" where
  "waits_for_success r s \<longleftrightarrow> (r = None \<longleftrightarrow> NETWORK_PROV_START \<in> set (app_events (hist (lib_state s))) \<and>
     NETWORK_PROV_CRED_SUCCESS \<notin> set (app_events (hist (lib_state s))))"

lemma fresh_returned: "fresh (lib_state s) \<Longrightarrow> waits_for_success (Some r) s"
  by (simp add: view_def waits_for_success_def)

lemma cb_view:
  assumes "sample_cb sm"
  shows "stable (\<lambda>t. view P (lib_state t)) (sm_event_cb sm e)"
  using assms view_app.event_cb_stable by auto

lemma occur_told:
  assumes "sample_cb sm" "config_ok E" "buffer_laws E" "told (lib_state s)" "app_lawful E s"
  shows "wp (for_each (occur E sm) evs) (\<lambda>_ t. told (lib_state t) \<and> app_lawful E t) s"
proof (rule wp_for_each_inv)
  show "told (lib_state s) \<and> app_lawful E s" using assms by simp
  fix ev and t :: app_state
  assume t: "told (lib_state t) \<and> app_lawful E t"
  have "wp (occur E sm ev) (\<lambda>_ t. told (lib_state t)) t"
    unfolding occur_def using t assms(1-3)
    by (auto intro!: call_lib_rule told_event cb_view)
  moreover have "wp (occur E sm ev) (\<lambda>_. app_lawful E) t"
    unfolding occur_def using t lawful_event lawful_app.event_cb_stable assms(1)
    by (auto intro!: call_lib_rule)
  ultimately show "wp (occur E sm ev) (\<lambda>_ t. told (lib_state t) \<and> app_lawful E t) t" by (rule wp_conj)
qed

lemma run_provisioning_waits:
  assumes "sample_cb sm" "sem_law E" "config_ok E" "buffer_laws E" "fresh (lib_state s)" "app_lawful E s"
  shows "wp (run_provisioning sm E evs) waits_for_success s"
proof -
  have start: "wp (call_lib (sm_event_cb sm) (network_prov_mgr_start_provisioning E NETWORK_PROV_SECURITY_1 PROV_POP
      (sm_service_name sm) (sm_service_key sm))) (\<lambda>r t. (if r = 0 then told else fresh) (lib_state t) \<and> app_lawful E t) s"
  proof (rule wp_conj)
    show "wp (call_lib (sm_event_cb sm) (network_prov_mgr_start_provisioning E NETWORK_PROV_SECURITY_1 PROV_POP
      (sm_service_name sm) (sm_service_key sm))) (\<lambda>r t. (if r = 0 then told else fresh) (lib_state t)) s"
      by (rule call_lib_rule [OF wp_mono [OF start_view [OF assms(5)]]])
        (auto simp: cb_view [OF assms(1)] dest: just_started_told split: if_splits)
    show "wp (call_lib (sm_event_cb sm) (network_prov_mgr_start_provisioning E NETWORK_PROV_SECURITY_1 PROV_POP
      (sm_service_name sm) (sm_service_key sm))) (\<lambda>r. app_lawful E) s"
      by (rule stableD [OF lawful_app.call_stable assms(6)]) (auto intro: lawful_app.start_law lawful_app.cb_stable [OF assms(1)])
  qed
  have wait: "wp (do { s \<leftarrow> gets lib_state; (case network_prov_mgr_wait E s of None \<Rightarrow> ret None
      | Some s' \<Rightarrow> do { modify (\<lambda>t. t\<lparr>lib_state := s'\<rparr>); ret (Some 0) }) }) waits_for_success t" if "told (lib_state t)" for t
    using that assms(2)
    by (auto simp: network_prov_mgr_wait_def sem_law_def view_def waits_for_success_def)
  show ?thesis
    unfolding run_provisioning_def wp_bind [of "call_lib _ _"]
    by (rule wp_mono [OF start])
      (auto simp del: wp_bind simp: wp_bind [of "for_each _ _"] intro!: fresh_returned wp_mono [OF occur_told [OF assms(1,3,4)]] wait)
qed

abbreviation ready :: "env \<Rightarrow> app_state \<Rightarrow> bool" where
  "ready E s \<equiv> fresh (lib_state s) \<and> app_lawful E s"

lemma stable_conj: "stable I m \<Longrightarrow> stable J m \<Longrightarrow> stable (\<lambda>s. I s \<and> J s) m"
  by (simp add: stable_def wp_conj)

lemma init_ready:
  assumes "sample_cb sm"
  shows "wp (mgr_init sm E) (\<lambda>r s. if r = 0 then ready E s else app_events (hist (lib_state s)) = []) (app_boot E)"
proof -
  have init: "wp (network_prov_mgr_init E \<lparr>cf_scheme = Some (sm_scheme sm), cf_event_cb = True, cf_wifi_conn_attempts = sm_conn_attempts sm\<rparr>)
      (\<lambda>r w. if r = 0 then fresh w else app_events (hist w) = []) (lib_state (app_boot E))"
    by (auto simp: network_prov_mgr_init_def view_def app_boot_def boot_world_def event_calls_def mgr_zero_def)
  have cb: "stable (\<lambda>t. app_events (hist (lib_state t)) = []) (sm_event_cb sm e)" for e
    using assms by (auto simp: stable_def prov_event_def prov_event_log_def network_prov_mgr_endpoint_register_def
        split: network_prov_cb_event.split option.split)
  have cbs: "stable (\<lambda>t. if r = 0 then fresh (lib_state t) else app_events (hist (lib_state t)) = []) (sm_event_cb sm e)"
    for r :: int and e
    by (cases "r = 0") (simp_all add: cb cb_view [OF assms])
  have "wp (mgr_init sm E) (\<lambda>r s. if r = 0 then fresh (lib_state s) else app_events (hist (lib_state s)) = []) (app_boot E)"
    unfolding mgr_init_def
    by (rule call_lib_rule [OF init cbs])
  moreover have "wp (mgr_init sm E) (\<lambda>_. app_lawful E) (app_boot E)"
    by (rule stableD [OF lawful_app.provisioning_stable(2) [OF assms]]) (simp add: app_boot_def lawful.boot)
  ultimately show ?thesis by (rule wp_mono [OF wp_conj]) simp
qed

lemma ready_stable:
  "stable (ready E) (connect_saved E)" "stable (ready E) (is_provisioned E)"
  "stable (ready E) (lib (network_prov_mgr_endpoint_create n))" "stable (ready E) (lib (network_prov_mgr_set_app_info a b c d))"
  "stable (ready E) (lib (ask q (\<lambda>_. Ot Ot_run)))"
  by (auto intro!: stable_conj view_app.saved_stable lawful_app.saved_stable view_app.provisioned_stable lawful_app.provisioned_stable
      view_app.lib_stable view_api)
    (auto simp: stable_def lawful_api lawful_own)

lemma main_waits:
  assumes "sem_law E" "config_ok E" "buffer_laws E"
  shows "wp (sample_main k E evs) (\<lambda>r s. waits_for_success r s \<and> (r = None \<or> r = Some 0)) (app_boot E)"
proof -
  let ?Q = "\<lambda>r s. waits_for_success r s \<and> (r = None \<or> r = Some (0 :: int))"
  have run: "wp (do { r \<leftarrow> run_provisioning sm E evs; ret (map_option (\<lambda>_. 0) r) }) ?Q s" if "ready E s" "sample_cb sm" for sm s
    unfolding wp_bind by (rule wp_mono [OF run_provisioning_waits [OF that(2) assms]])
      (use that in \<open>auto simp: waits_for_success_def\<close>)
  have end_ready: "ready E s \<Longrightarrow> ?Q (Some 0) s" for s using fresh_returned [of s] by simp
  have conn: "wp (connect_or_provision sm E evs) ?Q s" if "ready E s" "sample_cb sm" for sm s
    unfolding connect_or_provision_def
    by (rule stable_bindD [OF ready_stable(2) that(1)], rule stable_bindD [where I = "ready E"])
      (use ready_stable(1) run that(2) end_ready in \<open>auto simp del: wp_bind\<close>)
  have rest: "wp (do { r \<leftarrow> mgr_init sm E; if r \<noteq> 0 then ret (Some 0) else m }) ?Q (app_boot E)"
    if "sample_cb sm" "\<And>s. ready E s \<Longrightarrow> wp m ?Q s" for sm m
    unfolding wp_bind by (rule wp_mono [OF init_ready [OF that(1)]])
      (use that(2) in \<open>auto simp: waits_for_success_def split: if_splits\<close>)
  have ot: "wp (do { _ \<leftarrow> lib (ask (openthread_run_ret (ot E)) (\<lambda>_. Ot Ot_run)); ret (Some 0) }) ?Q s" if "ready E s" for s
    by (rule stable_bindD [OF ready_stable(5) that]) (use end_ready in auto)
  note bind = stable_bindD [OF ready_stable(2)] stable_bindD [OF ready_stable(3)] stable_bindD [OF ready_stable(4)]
  show ?thesis
    by (cases k) (auto simp del: wp_bind simp: wifi_prov_console_main_def wifi_prov_ble_main_def wifi_prov_softap_main_def
        thread_prov_ble_main_def intro!: rest [OF sample_cbs(1)] rest [OF sample_cbs(2)] rest [OF sample_cbs(3)] rest [OF sample_cbs(4)]
        bind ot conn [OF _ sample_cbs(1)] conn [OF _ sample_cbs(2)] conn [OF _ sample_cbs(3)] run [OF _ sample_cbs(4)])
qed

section \<open>Properties of the runs\<close>

lemma sample_env_simps [simp]:
  "cfg (sample_env E) = cfg E" "nanopb (sample_env E) = nanopb E" "psa (sample_env E) = psa E" "wifi (sample_env E) = wifi E"
  "sem_law (sample_env E) = sem_law E" "config_ok (sample_env E) = config_ok E" "responses_nonempty (sample_env E) = responses_nonempty E"
  by (simp_all add: sample_env_def sem_law_def config_ok_def responses_nonempty_def)

lemma sample_env_laws: "responses_nonempty E \<Longrightarrow> buffer_laws (sample_env E)"
  by (simp add: buffer_laws_def app_nonempty_def) (simp add: sample_env_def app_custom_handler_def)

text \<open>C17. The samples use the library as it is meant to be used, and are safe with it: a run of any of the four
  programs from boot, over whatever requests, network events and work items occur while it waits, dereferences nothing
  wrong, delivers a well-formed stream of events to the application, and leaves no heap block behind when no service runs.
  The library's condition on application handlers needs no hypothesis, since the echo handler of the samples meets it.\<close>

theorem samples_run_safely:
  assumes "config_ok E" and "responses_nonempty E"
  shows "wp (sample_main k (sample_env E) evs) (\<lambda>_ s. \<not> fault (lib_state s) \<and>
     (\<exists>v. app_run (NETWORK_TYPE_THREAD (cfg E)) (app_events (hist (lib_state s))) = Some v) \<and>
     (if started (mgr (lib_state s)) then \<exists>p. mgr_pc (mgr (lib_state s)) = Some p \<and> pc_live (sample_env E) p (lib_state s)
      else pcs (lib_state s) = (\<lambda>_. None) \<and> blocks (hist (lib_state s)) = 0)) (app_boot (sample_env E))"
proof (rule wp_mono [OF stableD [OF lawful_app.main_stable]])
  show "app_lawful (sample_env E) (app_boot (sample_env E))" by (simp add: app_boot_def lawful.boot)
  fix s
  assume s: "app_lawful (sample_env E) s"
  have laws: "config_ok (sample_env E)" "buffer_laws (sample_env E)" using assms sample_env_laws by simp_all
  have "prog_inv (sample_env E) (lib_state s)" by (rule reachable_inv [OF lawful_reachable [OF s] laws])
  moreover have "trace_inv (sample_env E) (lib_state s)" by (rule lawful_trace [OF s laws])
  ultimately show "\<not> fault (lib_state s) \<and>
     (\<exists>v. app_run (NETWORK_TYPE_THREAD (cfg E)) (app_events (hist (lib_state s))) = Some v) \<and>
     (if started (mgr (lib_state s)) then \<exists>p. mgr_pc (mgr (lib_state s)) = Some p \<and> pc_live (sample_env E) p (lib_state s)
      else pcs (lib_state s) = (\<lambda>_. None) \<and> blocks (hist (lib_state s)) = 0)"
    by (auto simp: prog_inv_def running_def idle_def trace_inv_iff trace_defs prov_view_def split: if_splits)
qed

theorem samples_run_safely_witness:
  "wp (sample_main Wifi_console (sample_env demo_env) [Shell ''custom-data'' ''1'' ''00'', Teardown_due])
     (\<lambda>_ s. \<not> fault (lib_state s)) (app_boot (sample_env demo_env))"
  by (rule wp_mono [OF samples_run_safely [OF demo_env_config demo_env_laws(1)]]) simp

text \<open>C18. \<open>main\<close> ends when it should: whatever occurs during the wait, each of the four programs is blocked exactly as long as
  it started a service and no success was reported; it returns 0 as soon as a success was reported, and also when
  the device was connected (or attached) with what it had stored, or when the service could not be started.\<close>

theorem sample_main_returns:
  assumes "sem_law E" and "config_ok E" and "responses_nonempty E"
  shows "wp (sample_main k (sample_env E) evs) (\<lambda>r s.
     r = (if NETWORK_PROV_START \<in> set (app_events (hist (lib_state s))) \<and>
             NETWORK_PROV_CRED_SUCCESS \<notin> set (app_events (hist (lib_state s))) then None else Some 0)) (app_boot (sample_env E))"
  by (rule wp_mono [OF main_waits]) (use assms sample_env_laws in \<open>auto simp: waits_for_success_def\<close>)

theorem sample_main_returns_witness:
  "wp (sample_main Wifi_console (sample_env demo_env) []) (\<lambda>r s.
     r = (if NETWORK_PROV_START \<in> set (app_events (hist (lib_state s))) \<and>
             NETWORK_PROV_CRED_SUCCESS \<notin> set (app_events (hist (lib_state s))) then None else Some 0)) (app_boot (sample_env demo_env))"
proof (rule sample_main_returns [OF _ demo_env_config demo_env_laws(1)])
  show "sem_law demo_env" by (simp add: sem_law_def demo_env_def ok_env_def ok_kern_def)
qed

text \<open>The stored credentials during boot.\<close>

definition kept :: "world \<Rightarrow> bool" where
  "kept s \<longleftrightarrow> list_all (\<lambda>c. \<not> store_change c) (hist s)"

interpretation kept: pc_stable kept
proof
  show "kept (s\<lparr>hist := c # h\<rparr>) = kept (s\<lparr>hist := h\<rparr>)" if "silent c" for c s h
    using that by (cases c rule: silent.cases) (simp_all add: kept_def)
qed (simp_all add: kept_def)

lemma kept_calls [intro!]:
  "\<not> store_change c \<Longrightarrow> stable kept (ext_call c)" "(\<And>r. \<not> store_change (d r)) \<Longrightarrow> stable kept (ask q d)"
  "stable kept (upd_wc f1)" "stable kept (upd_sc f2)" "stable kept (upd_tc f3)" "stable kept (upd_ts f4)" "stable kept (upd_mgr f)"
  "stable kept (network_prov_emit_event E e)"
  by (auto simp: stable_def kept_def event_calls_def)

interpretation kept_app: app_client E kept "[]" for E
proof
  have net: "stable kept (net_endpoints_init E pc)" "stable kept (net_endpoints_deinit E)" for pc
    unfolding net_endpoints_init_def chk_def network_prov_wifi_scan_init_def network_prov_wifi_config_init_def
      network_prov_thread_scan_init_def network_prov_thread_config_init_def net_endpoints_deinit_def network_prov_wifi_scan_deinit_def
      network_prov_wifi_config_deinit_def network_prov_thread_scan_deinit_def network_prov_thread_config_deinit_def clear_inflight_def
    by auto
  show "stable kept (network_prov_mgr_start_provisioning E v popv name key)" for v popv name key
    unfolding network_prov_mgr_start_provisioning_def start_service_def build_version_json_def chk_def Let_def by (auto intro!: net)
  show "stable kept (network_prov_mgr_init E cf)" for cf
    unfolding network_prov_mgr_init_def chk_def by auto
  show "kept (w\<lparr>hist := c # hist w\<rparr>)" if "kept w" "own_call c" for w c
    using that by (cases c rule: own_call.cases) (simp_all add: kept_def)
  show "kept w'" if "kept w" "network_prov_mgr_wait E w = Some w'" for w w'
    using that by (auto simp: network_prov_mgr_wait_def kept_def split: if_splits)
qed (auto simp: network_prov_mgr_endpoint_register_def network_prov_mgr_is_provisioned_def network_prov_mgr_endpoint_create_def
    network_prov_mgr_set_app_info_def network_prov_thread_is_commissioned_def Let_def)

text \<open>C21. Stored credentials are never erased automatically: whatever the driver, the store, OpenThread and the transports
  answer during boot, none of the four programs writes or erases a stored credential or dataset before its first
  client connects, not even when the stored network stays unreachable and the program falls back to provisioning.\<close>

theorem boot_keeps_credentials:
  "wp (sample_main k E []) (\<lambda>_ s. list_all (\<lambda>c. \<not> store_change c) (hist (lib_state s))) (app_boot E)"
  using stableD [OF kept_app.main_stable [of k E], of "app_boot E"] by (simp add: kept_def app_boot_def boot_world_def)

text \<open>A provisioned device that can reach its network offers no service: when credentials are stored and the driver
  reports success for at least one of five attempts, the three Wi-Fi programs return 0 without having started a
  service.\<close>

theorem provisioned_device_connects:
  assumes "sem_law E" and "store_readable E" and "driver_reports E outcome" and "\<And>n. \<exists>k < 5. reported_success (outcome (n + k))"
    and "\<And>h. \<not> cred_is_empty (wifi E) h" and "\<not> NETWORK_TYPE_THREAD (cfg E)" and "k \<noteq> Thread_ble"
  shows "wp (sample_main k E evs) (\<lambda>r s. r = Some 0 \<and> NETWORK_PROV_START \<notin> set (app_events (hist (lib_state s)))) (app_boot E)"
proof -
  let ?Q = "\<lambda>r s. r = Some (0 :: int) \<and> NETWORK_PROV_START \<notin> set (app_events (hist (lib_state s)))"
  have saved: "wp (connect_saved E) (\<lambda>r t. r \<and> ready E t) s" if "ready E s" for s
  proof (rule wp_conj [OF _ stableD [OF ready_stable(1) that]])
    have att: "wp (connect_attempts E 1 2) (\<lambda>r s'. r) t" for t
      using assms(4) [of "length (conn_requests (hist (lib_state t)))"]
      by (intro wp_mono [OF attempts_outcome [OF assms(1-3) refl]]) (auto simp: less_eq_Suc_le)
    show "wp (connect_saved E) (\<lambda>r _. r) s" by (auto simp: connect_saved_def intro!: wp_mono [OF att [simplified]])
  qed
  have conn: "wp (connect_or_provision sm E evs) ?Q s" if "ready E s" for sm s
    unfolding connect_or_provision_def is_provisioned_def network_prov_mgr_is_provisioned_def using assms(5,6) that
    by (auto simp: view_def intro!: wp_mono [OF saved])
  have rest: "wp (do { r \<leftarrow> mgr_init sm E; if r \<noteq> 0 then ret (Some 0) else m }) ?Q (app_boot E)"
    if "sample_cb sm" "\<And>s. ready E s \<Longrightarrow> wp m ?Q s" for sm m
    unfolding wp_bind by (rule wp_mono [OF init_ready [OF that(1)]]) (use that(2) in \<open>auto split: if_splits\<close>)
  show ?thesis
    using assms(7)
    by (cases k) (auto simp del: wp_bind simp: wifi_prov_console_main_def wifi_prov_ble_main_def wifi_prov_softap_main_def
        intro!: rest [OF sample_cbs(1)] rest [OF sample_cbs(2)] rest [OF sample_cbs(3)] stable_bindD [OF ready_stable(3)] stable_bindD [OF ready_stable(4)] conn)
qed

theorem provisioned_device_connects_witness:
  "wp (sample_main Wifi_softap (late_env\<lparr>wifi := (wifi late_env)\<lparr>cred_is_empty := \<lambda>_. False\<rparr>\<rparr>) []) (\<lambda>r s. r = Some 0)
     (app_boot (late_env\<lparr>wifi := (wifi late_env)\<lparr>cred_is_empty := \<lambda>_. False\<rparr>\<rparr>))"
proof -
  let ?E = "late_env\<lparr>wifi := (wifi late_env)\<lparr>cred_is_empty := \<lambda>_. False\<rparr>\<rparr>"
  have "sem_law ?E" "store_readable ?E" "driver_reports ?E (\<lambda>n. [[2, 0], [], [0, 2]] ! (n mod 3))" "\<not> NETWORK_TYPE_THREAD (cfg ?E)"
    by (simp_all add: sem_law_def store_readable_def driver_reports_def late_env_def ok_env_defs wifi_iface_of_def)
  moreover have "\<exists>k<5. reported_success ([[2, 0], [], [0, 2]] ! ((n + k) mod 3))" for n :: nat
  proof -
    have "\<exists>k<3. (n + k) mod 3 = 2" by presburger
    then obtain k where "k < 3" "(n + k) mod 3 = 2" by blast
    then show ?thesis by (intro exI [of _ k]) (simp add: reported_success_def)
  qed
  ultimately show ?thesis
    by (intro wp_mono [OF provisioned_device_connects [of ?E _ Wifi_softap]]) auto
qed

section \<open>The custom endpoint over the encrypted channel\<close>

text \<open>The instance \<open>p\<close> serves \<open>custom-data\<close> with the handler of the sample, entry \<open>i\<close> of the manager's table.\<close>

definition serves_custom :: "env \<Rightarrow> nat \<Rightarrow> nat \<Rightarrow> world \<Rightarrow> bool" where
  "serves_custom E p i s \<longleftrightarrow> i < MAX_CUSTOM_ENDPOINTS (cfg E) \<and> ce_handler (custom (mgr s) ! i) = Some 0 \<and>
     (\<exists>c. pcs s p = Some c \<and> sec c = Some network_prov_security1 \<and>
       find_ep c ''custom-data'' = Some (data_ep ''custom-data'' H_custom_trampoline (Some i)))"

definition session_at :: "nat \<Rightarrow> world \<Rightarrow> bytes \<Rightarrow> bytes \<Rightarrow> nat list \<Rightarrow> bool" where
  "session_at p s key iv ns \<longleftrightarrow> (\<exists>c x. pcs s p = Some c \<and> sec_ctx c = Some (Sec1_object x) \<and> established x (hist s) key iv ns)"

lemma serves_hist [simp]:
  "serves_custom E p i (s\<lparr>hist := h\<rparr>) = serves_custom E p i s"
  "session_at p (s\<lparr>hist := Kern c # h\<rparr>) = session_at p (s\<lparr>hist := h\<rparr>)"
  "session_at p (s\<lparr>hist := App a # h\<rparr>) = session_at p (s\<lparr>hist := h\<rparr>)"
  by (simp_all add: serves_custom_def session_at_def established_def fun_eq_iff)

lemma session_crypt:
  assumes "psa_laws E dh sha aes" "session_at p s key iv ns"
  shows "wp (crypt p (sec1_encrypt E) b) (\<lambda>r s'. r = (0, xor_bytes b (keystream aes key iv (sum_list ns) (length b))) \<and>
     session_at p s' key iv (length b # ns) \<and> (serves_custom F q i s \<longrightarrow> serves_custom F q i s')) s"
proof -
  obtain c x where c: "pcs s p = Some c" "sec_ctx c = Some (Sec1_object x)" "established x (hist s) key iv ns"
    using assms(2) by (auto simp: session_at_def)
  show ?thesis
    using c wp_conj [OF sec1_encrypt_established [OF assms(1) c(3), of b] sec1_encrypt_spec [of E x b s]]
    by (auto simp: crypt_def with_pc_def elim!: wp_mono only_histE)
      (auto simp: session_at_def serves_custom_def find_ep_def)
qed

lemma echo_run:
  assumes "psa_laws E dh sha aes" "\<And>h n. malloc_ok (kern E) h n" "msg \<noteq> []"
    and "serves_custom E p i t" "session_at p t key iv ns"
  shows "wp (run_endpoint (sample_env E) (prog_link (sample_env E)) p network_prov_security1
      (data_ep ''custom-data'' H_custom_trampoline (Some i)) (Some msg))
    (\<lambda>r _. r = (0, Some (xor_bytes msg (keystream aes key iv (sum_list ns) (length msg))))) t"
proof -
  have laws: "psa_laws (sample_env E) dh sha aes" using assms(1) by (simp add: psa_laws_def)
  have enc: "wp (encrypt_response (sample_env E) (security1_vtable (sample_env E)) p (Some msg))
      (\<lambda>r _. r = (0, Some (xor_bytes msg (keystream aes key iv (sum_list ns) (length msg))))) u"
    if "session_at p u key iv ns" for u
    using assms(2,3) that
    by (auto simp: encrypt_response_def security1_vtable_def sample_env_def [of E, THEN arg_cong, of kern]
        intro!: wp_mono [OF session_crypt [OF laws]])
  show ?thesis
    using assms(2-5)
    by (auto simp: run_endpoint_def data_ep_def prog_link_def custom_trampoline_def app_handler_def serves_custom_def
        sample_env_def [of E, THEN arg_cong, of kern] app_custom_handler_def intro!: enc)
qed

text \<open>C20. The custom endpoint of the samples echoes: over an established session, a client that encrypts a message with
  its place in the keystream and sends it to \<open>custom-data\<close> gets an answer that decrypts, with the next place in
  the keystream, to the same message.\<close>

theorem custom_data_echo:
  assumes "psa_laws E dh sha aes" and "\<And>h n. malloc_ok (kern E) h n" and "msg \<noteq> []"
    and "serves_custom E p i s" and "session_at p s key iv ns"
  shows "wp (protocomm_req_handle (sample_env E) (prog_link (sample_env E)) (Some p) (Some ''custom-data'')
      (xor_bytes msg (keystream aes key iv (sum_list ns) (length msg))))
    (\<lambda>r _. \<exists>reply. r = (0, Some reply) \<and>
       xor_bytes reply (keystream aes key iv (sum_list ns + length msg) (length msg)) = msg) s"
proof -
  let ?E = "sample_env E" and ?b = "xor_bytes msg (keystream aes key iv (sum_list ns) (length msg))"
  have laws: "psa_laws ?E dh sha aes" using assms(1) by (simp add: psa_laws_def)
  have b: "length ?b = length msg" "?b \<noteq> []" using assms(3) by (simp, metis length_0_conv length_xor_bytes length_keystream min.idem)
  have dec: "wp (decrypt_request ?E (security1_vtable ?E) p ?b) (\<lambda>d t. d = Inr (Some msg) \<and>
      session_at p t key iv (length msg # ns) \<and> serves_custom E p i t) s"
    unfolding decrypt_request_def
    using assms(2,4,5) b
    by (auto simp: security1_vtable_def xor_bytes_cancel sample_env_def [of E, THEN arg_cong, of kern]
        intro!: wp_mono [OF session_crypt [OF laws, where F = E and q = p and i = i]])
  have "wp (handle_data ?E (prog_link ?E) p network_prov_security1 (data_ep ''custom-data'' H_custom_trampoline (Some i)) ?b)
      (\<lambda>r _. r = (0, Some (xor_bytes msg (keystream aes key iv (length msg + sum_list ns) (length msg))))) s"
    unfolding handle_data_def wp_bind
    by (simp, rule wp_mono [OF dec]) (auto intro!: wp_mono [OF echo_run [OF assms(1-3)]])
  then show ?thesis
    using assms(4,5)
    by (auto simp: protocomm_req_handle_def serves_custom_def session_at_def data_ep_def xor_bytes_cancel add.commute elim!: wp_mono)
qed

text \<open>The session of the example: two messages were exchanged.\<close>

definition echo_world :: world where
  "echo_world = (boot_world demo_sec1_env)\<lparr>hist := [Psa (Psa_import_key [12] (Some 2))],
     mgr := (mgr_zero demo_sec1_env)\<lparr>custom := [\<lparr>ce_name = ''custom-data'', ce_handler = Some 0, ce_ctx = 0, ce_created = True\<rparr>]\<rparr>,
     pcs := [0 \<mapsto> \<lparr>endpoints = [data_ep ''custom-data'' H_custom_trampoline (Some 0)], sec = Some network_prov_security1, pop = None,
       sec_ctx = Some (Sec1_object (demo_ctx\<lparr>s1_state := SEC1_DONE, cipher := ctr_op 2 [3] [32, 32]\<rparr>)), version = None\<rparr>]\<rparr>"

theorem custom_data_echo_witness:
  "wp (protocomm_req_handle (sample_env demo_sec1_env) (prog_link (sample_env demo_sec1_env)) (Some 0) (Some ''custom-data'')
      (xor_bytes [1, 2] (keystream demo_aes [12] [3] (sum_list [32, 32]) (length [1, 2 :: byte]))))
    (\<lambda>r _. \<exists>reply. r = (0, Some reply) \<and>
       xor_bytes reply (keystream demo_aes [12] [3] (sum_list [32, 32] + length [1, 2 :: byte]) (length [1, 2 :: byte])) = [1, 2]) echo_world"
proof (rule custom_data_echo [OF demo_psa_laws])
  show "serves_custom demo_sec1_env 0 0 echo_world"
    by (simp add: serves_custom_def echo_world_def data_ep_def find_ep_def demo_sec1_env_def ok_env_def ok_cfg_def)
  show "session_at 0 echo_world [12] [3] [32, 32]"
    by (simp add: session_at_def echo_world_def established_def)
qed (simp_all add: demo_sec1_env_def ok_env_defs)

text \<open>The endpoint in the runs of the console and the Bluetooth program: created before the service starts, and bound to the
  handler in the callback for START.\<close>

definition prepared :: "env \<Rightarrow> world \<Rightarrow> bool" where
  "prepared E w \<longleftrightarrow> inited (mgr w) \<and> \<not> started (mgr w) \<and> custom (mgr w) =
     \<lparr>ce_name = ''custom-data'', ce_handler = None, ce_ctx = 0, ce_created = True\<rparr> # replicate (MAX_CUSTOM_ENDPOINTS (cfg E) - 1) no_custom"

interpretation prepared: app_stable F "prepared E" for F E
  by unfold_locales (auto simp: stable_def prepared_def network_prov_mgr_endpoint_register_def network_prov_mgr_is_provisioned_def
      network_prov_thread_is_commissioned_def)

lemma find_custom_data:
  assumes "prepared E w" "0 < MAX_CUSTOM_ENDPOINTS (cfg E)"
  shows "find_ep (service_pc E (mgr w) NETWORK_PROV_SECURITY_1 popv vj) ''custom-data'' =
    Some (data_ep ''custom-data'' H_custom_trampoline (Some 0))"
proof -
  have "[0..<MAX_CUSTOM_ENDPOINTS (cfg E)] = 0 # [1..<MAX_CUSTOM_ENDPOINTS (cfg E)]"
    using assms(2) by (simp add: upt_conv_Cons)
  then have "custom_eps (custom (mgr w)) [0..<MAX_CUSTOM_ENDPOINTS (cfg E)] =
      data_ep ''custom-data'' H_custom_trampoline (Some 0) # custom_eps (custom (mgr w)) [1..<MAX_CUSTOM_ENDPOINTS (cfg E)]"
    using assms(1) by (simp add: custom_eps_def prepared_def)
  then show ?thesis
    by (simp add: service_pc_def find_ep_def service_eps_def base_eps_def net_eps_def data_ep_def)
qed

lemma started_custom:
  assumes "prepared E (lib_state s)" "ready E s" "config_ok E" "buffer_laws E" "0 < MAX_CUSTOM_ENDPOINTS (cfg E)"
  shows "wp (call_lib prov_event (network_prov_mgr_start_provisioning E NETWORK_PROV_SECURITY_1 popv name key))
    (\<lambda>r t. r = 0 \<longrightarrow> (\<exists>p. mgr_pc (mgr (lib_state t)) = Some p \<and> serves_custom E p 0 (lib_state t))) s"
proof -
  let ?w = "lib_state s"
  have "prog_inv E ?w" by (rule reachable_inv [OF lawful_reachable assms(3,4)]) (use assms(2) in simp)
  then have pre: "mgr_ok E (mgr ?w)" "inited (mgr ?w)" "\<not> started (mgr ?w)" "pcs ?w = (\<lambda>_. None)" "transports_ok E None ?w"
    using assms(1) by (auto simp: prog_inv_def prepared_def idle_def)
  have start: "wp (network_prov_mgr_start_provisioning E NETWORK_PROV_SECURITY_1 popv name key)
      (\<lambda>r t. start_result E NETWORK_PROV_SECURITY_1 popv ?w r t \<and> (if r = 0 then just_started else fresh) t) ?w"
    by (rule wp_conj [OF start_spec [OF pre(1) assms(3) pre(2-5)] start_view]) (use assms(2) in simp)
  have old: "app_events (hist ?w) = [NETWORK_PROV_INIT]" using assms(2) by (simp add: view_def)
  show ?thesis
    unfolding call_lib_def
    by (simp add: old, rule wp_mono [OF start])
      (use find_custom_data [OF assms(1,5), of popv] assms(1,5) in \<open>auto simp: start_result_def view_def prov_event_def
        network_prov_mgr_endpoint_register_def find_custom_ep_def prepared_def serves_custom_def service_pc_def base_pc_def split: if_splits\<close>)
qed

lemma init_no_custom:
  assumes "sample_cb sm"
  shows "wp (mgr_init sm E) (\<lambda>r s. r = 0 \<longrightarrow> inited (mgr (lib_state s)) \<and> \<not> started (mgr (lib_state s)) \<and>
    custom (mgr (lib_state s)) = replicate (MAX_CUSTOM_ENDPOINTS (cfg E)) no_custom) (app_boot E)"
proof -
  let ?I = "\<lambda>r w. r = (0 :: int) \<longrightarrow> inited (mgr w) \<and> \<not> started (mgr w) \<and>
    custom (mgr w) = replicate (MAX_CUSTOM_ENDPOINTS (cfg E)) no_custom"
  have init: "wp (network_prov_mgr_init E c) ?I (lib_state (app_boot E))" for c
    by (auto simp: network_prov_mgr_init_def app_boot_def boot_world_def mgr_zero_def)
  have cb: "stable (\<lambda>t. ?I r (lib_state t)) (sm_event_cb sm e)" for r e
    using assms by (auto simp: stable_def prov_event_def prov_event_log_def network_prov_mgr_endpoint_register_def
        split: network_prov_cb_event.split option.split)
  show ?thesis unfolding mgr_init_def by (rule call_lib_rule [where I = ?I, OF init cb])
qed

lemma create_prepared:
  assumes "0 < MAX_CUSTOM_ENDPOINTS (cfg E)" "inited (mgr w)" "\<not> started (mgr w)"
    "custom (mgr w) = replicate (MAX_CUSTOM_ENDPOINTS (cfg E)) no_custom"
  shows "wp (network_prov_mgr_endpoint_create (Some ''custom-data'')) (\<lambda>_. prepared E) w"
proof -
  obtain n where n: "MAX_CUSTOM_ENDPOINTS (cfg E) = Suc n" using assms(1) by (auto simp: gr0_conv_Suc)
  have "find_custom_from k (replicate m no_custom) name = None" for k m name
    by (induction m arbitrary: k) (simp_all add: no_custom_def)
  then show ?thesis
    using assms(2-4) by (simp add: network_prov_mgr_endpoint_create_def find_custom_ep_def is_builtin_ep_def n no_custom_def
        prepared_def strncpy_z_def)
qed

abbreviation custom_ready :: "env \<Rightarrow> app_state \<Rightarrow> bool" where
  "custom_ready E s \<equiv> prepared E (lib_state s) \<and> ready E s"

abbreviation custom_bound :: "env \<Rightarrow> int option \<Rightarrow> app_state \<Rightarrow> bool" where
  "custom_bound E r s \<equiv> r = None \<longrightarrow> (\<exists>p. mgr_pc (mgr (lib_state s)) = Some p \<and> serves_custom E p 0 (lib_state s))"

lemma custom_ready_stable:
  "stable (custom_ready E) (connect_saved E)" "stable (custom_ready E) (is_provisioned E)"
  "stable (custom_ready E) (lib (network_prov_mgr_set_app_info a b c d))"
proof -
  show "stable (custom_ready E) (connect_saved E)" "stable (custom_ready E) (is_provisioned E)"
    using stable_conj [OF prepared.saved_stable ready_stable(1)] stable_conj [OF prepared.provisioned_stable ready_stable(2)] by auto
  have "stable (prepared E) (network_prov_mgr_set_app_info a b c d)"
    by (auto simp: stable_def prepared_def network_prov_mgr_set_app_info_def Let_def split: option.split)
  from stable_conj [OF prepared.lib_stable [OF this] ready_stable(4)]
  show "stable (custom_ready E) (lib (network_prov_mgr_set_app_info a b c d))" .
qed

lemma connect_binds_custom:
  assumes "config_ok E" "buffer_laws E" "0 < MAX_CUSTOM_ENDPOINTS (cfg E)" "sm_event_cb sm = prov_event" "custom_ready E s"
  shows "wp (connect_or_provision sm E []) (custom_bound E) s"
proof -
  have run: "wp (run_provisioning sm E []) (custom_bound E) t" if "custom_ready E t" for t
    unfolding run_provisioning_def wp_bind [of "call_lib _ _"] assms(4)
    by (rule wp_mono [OF started_custom [OF _ _ assms(1-3)]])
      (use that in \<open>auto simp: network_prov_mgr_wait_def split: option.split\<close>)
  show ?thesis
    unfolding connect_or_provision_def
    by (rule stable_bindD [OF custom_ready_stable(2) assms(5)], rule stable_bindD [where I = "custom_ready E"])
      (use custom_ready_stable(1) in \<open>auto intro!: wp_mono [OF run]\<close>)
qed

lemma main_binds_custom:
  assumes "config_ok E" "buffer_laws E" "0 < MAX_CUSTOM_ENDPOINTS (cfg E)" "sm_event_cb sm = prov_event"
  shows "wp (do { r \<leftarrow> mgr_init sm E; if r \<noteq> 0 then ret (Some 0) else do {
      _ \<leftarrow> lib (network_prov_mgr_endpoint_create (Some ''custom-data'')); _ \<leftarrow> lib (network_prov_mgr_set_app_info a b c d);
      connect_or_provision sm E [] } }) (custom_bound E) (app_boot E)"
proof -
  have rest: "wp (do { _ \<leftarrow> lib (network_prov_mgr_endpoint_create (Some ''custom-data'')); _ \<leftarrow> lib (network_prov_mgr_set_app_info a b c d);
      connect_or_provision sm E [] }) (custom_bound E) t"
    if t: "ready E t" "inited (mgr (lib_state t))" "\<not> started (mgr (lib_state t))"
      "custom (mgr (lib_state t)) = replicate (MAX_CUSTOM_ENDPOINTS (cfg E)) no_custom" for t
  proof -
    have "wp (lib (network_prov_mgr_endpoint_create (Some ''custom-data''))) (\<lambda>_. custom_ready E) t"
      using t(2-4) create_prepared [OF assms(3)] stableD [OF ready_stable(3) t(1)] by (auto intro: wp_conj)
    then show ?thesis
      unfolding wp_bind [of "lib (network_prov_mgr_endpoint_create _)"]
      by (rule wp_mono) (rule stable_bindD [OF custom_ready_stable(3)], assumption, erule connect_binds_custom [OF assms])
  qed
  show ?thesis
    unfolding wp_bind [of "mgr_init _ _"]
    by (rule wp_mono [OF wp_conj [OF init_ready init_no_custom]])
      (use assms(4) rest in \<open>auto simp del: wp_bind split: if_splits\<close>)
qed

text \<open>C22. The custom endpoint is there when the service is: whenever the console or the Bluetooth program waits for a
  client, the instance of the running service has the endpoint \<open>custom-data\<close>, and the endpoint is bound to the echo
  handler.\<close>

theorem custom_data_served:
  assumes "config_ok E" and "responses_nonempty E" and "0 < MAX_CUSTOM_ENDPOINTS (cfg E)" and "k = Wifi_console \<or> k = Wifi_ble"
  shows "wp (sample_main k (sample_env E) []) (\<lambda>r s. r = None \<longrightarrow>
     (\<exists>p. mgr_pc (mgr (lib_state s)) = Some p \<and> serves_custom E p 0 (lib_state s))) (app_boot (sample_env E))"
proof -
  have "serves_custom (sample_env E) = serves_custom E" by (simp add: serves_custom_def fun_eq_iff)
  moreover have "sm_event_cb wifi_prov_console = prov_event" "sm_event_cb wifi_prov_ble = prov_event"
    by (simp_all add: wifi_prov_console_def wifi_prov_ble_def)
  ultimately show ?thesis
    using main_binds_custom [of "sample_env E"] assms sample_env_laws
    by (elim disjE) (simp_all add: wifi_prov_console_main_def wifi_prov_ble_main_def del: wp_bind)
qed

theorem custom_data_served_witness:
  "wp (sample_main Wifi_console (sample_env demo_env) []) (\<lambda>r s. r = None \<longrightarrow>
     (\<exists>p. mgr_pc (mgr (lib_state s)) = Some p \<and> serves_custom demo_env p 0 (lib_state s))) (app_boot (sample_env demo_env))"
  by (rule custom_data_served [OF demo_env_config demo_env_laws(1)]) (simp_all add: demo_env_laws)

end
