(* ===== verification/Client_Session.thy ===== *)
theory Client_Session
  imports Sample_Runs
begin

text \<open>
  A client provisions the device: the whole exchange of a phone that knows the proof of possession, over
  protocomm, security 1, the Wi-Fi configuration endpoint and the manager's event. The client is written out as
  a program that makes requests and reads the answers: it runs the handshake, checks the device's proof, and sends
  its commands encrypted at the place in the keystream that it has counted.
\<close>

section \<open>Messages on the wire\<close>

text \<open>Documented behaviour of nanopb for a message that fits its fields: it is encoded, not into nothing, and decoded
  as the same message.\<close>

definition carries :: "'m codec \<Rightarrow> 'm \<Rightarrow> bool" where
  "carries c m \<longleftrightarrow> (\<exists>n bs. pb_get_encoded_size c m = Some n \<and> pb_encode c n m = Some bs \<and> bs \<noteq> [] \<and> pb_decode c bs = Some m)"

definition wire :: "'m codec \<Rightarrow> 'm \<Rightarrow> bytes" where
  "wire c m = the (pb_encode c (the (pb_get_encoded_size c m)) m)"

lemma carries_wire: "carries c m \<Longrightarrow> pb_decode c (wire c m) = Some m" "carries c m \<Longrightarrow> wire c m \<noteq> []"
  by (auto simp: carries_def wire_def)

lemma pb_encode_wire:
  assumes "carries c m" "\<And>h n. malloc_ok (kern E) h n"
  shows "wp (network_prov_pb_encode E c m) Q s \<longleftrightarrow> (\<exists>n. Q (0, Some (wire c m)) (s\<lparr>hist := Kern (K_malloc n True) # hist s\<rparr>) \<and>
    n = (case pb_get_encoded_size c m of None \<Rightarrow> 0 | Some n \<Rightarrow> if n \<noteq> 0 then n else 1))"
  using assms by (auto simp: network_prov_pb_encode_def carries_def wire_def)

abbreviation session_codec :: "env \<Rightarrow> SessionData codec" where "session_codec E \<equiv> SessionData_codec (nanopb E)"
abbreviation config_codec :: "env \<Rightarrow> NetworkConfigPayload codec" where "config_codec E \<equiv> NetworkConfig_codec (nanopb E)"

definition resp0 :: "bytes \<Rightarrow> bytes \<Rightarrow> SessionData" where
  "resp0 pub iv = \<lparr>sec_ver = SecScheme1, session_proto = Proto_sec1
     \<lparr>sec1_msg = Session_Response0, sec1_payload = Sec1_sr0 Status_Success pub iv\<rparr>\<rparr>"

definition set_config :: "CmdSetWifiConfig \<Rightarrow> NetworkConfigPayload" where
  "set_config cmd = \<lparr>config_msg = TypeCmdSetWifiConfig, config_payload = Cmd_set_wifi_config cmd\<rparr>"

definition set_config_ok :: NetworkConfigPayload where
  "set_config_ok = \<lparr>config_msg = TypeRespSetWifiConfig, config_payload = Resp_set_wifi_config Status_Success\<rparr>"

definition apply_config :: NetworkConfigPayload where
  "apply_config = \<lparr>config_msg = TypeCmdApplyWifiConfig, config_payload = Config_none\<rparr>"

definition apply_config_ok :: NetworkConfigPayload where
  "apply_config_ok = \<lparr>config_msg = TypeRespApplyWifiConfig, config_payload = Resp_apply_wifi_config Status_Success\<rparr>"

text \<open>The messages of a provisioning of \<open>cmd\<close> by a client with the public key \<open>pk\<close>.\<close>

definition carries_provisioning :: "env \<Rightarrow> bytes \<Rightarrow> CmdSetWifiConfig \<Rightarrow> bool" where
  "carries_provisioning E pk cmd \<longleftrightarrow> carries (session_codec E) (cmd0 pk) \<and>
     (\<forall>pub iv. length pub = PUBKEY_LEN \<longrightarrow> length iv = RANDOM_LEN \<longrightarrow> carries (session_codec E) (resp0 pub iv)) \<and>
     (\<forall>v. length v = PUBKEY_LEN \<longrightarrow> carries (session_codec E) (cmd1 v) \<and> carries (session_codec E) (resp1 v)) \<and>
     carries (config_codec E) (set_config cmd) \<and> carries (config_codec E) set_config_ok \<and>
     carries (config_codec E) apply_config \<and> carries (config_codec E) apply_config_ok"

section \<open>The client\<close>

text \<open>\<open>ck\<close> computes the session key from the device's public key (the client's side of the key agreement, with the proof of
  possession), \<open>aes\<close> is the keystream.\<close>

definition client_reads_resp0 :: "env \<Rightarrow> int \<times> bytes option \<Rightarrow> (bytes \<times> bytes) option" where
  "client_reads_resp0 E r = (case snd r of None \<Rightarrow> None
     | Some b \<Rightarrow> (case pb_decode (session_codec E) b of None \<Rightarrow> None
        | Some m \<Rightarrow> (case session_proto m of
             Proto_sec1 q \<Rightarrow> (case sec1_payload q of Sec1_sr0 st pub iv \<Rightarrow> Some (pub, iv) | _ \<Rightarrow> None)
           | _ \<Rightarrow> None)))"

definition client_handshake ::
  "env \<Rightarrow> nat \<Rightarrow> bytes \<Rightarrow> (bytes \<Rightarrow> bytes) \<Rightarrow> (bytes \<Rightarrow> bytes \<Rightarrow> nat \<Rightarrow> byte) \<Rightarrow> (bytes \<times> bytes) option prog" where
  "client_handshake E p pk ck aes = do {
     r0 \<leftarrow> protocomm_req_handle E (prog_link E) (Some p) (Some EP_SESSION_NAME) (wire (session_codec E) (cmd0 pk));
     (case client_reads_resp0 E r0 of
        None \<Rightarrow> ret None
      | Some (pub, iv) \<Rightarrow> do {
          let ks = keystream aes (ck pub) iv;
          r1 \<leftarrow> protocomm_req_handle E (prog_link E) (Some p) (Some EP_SESSION_NAME)
            (wire (session_codec E) (cmd1 (xor_bytes pub (ks 0 PUBKEY_LEN))));
          ret (if map_option (pb_decode (session_codec E)) (snd r1) = Some (Some (resp1 (xor_bytes pk (ks PUBKEY_LEN PUBKEY_LEN))))
               then Some (ck pub, iv) else None) }) }"

text \<open>An encrypted request at position \<open>pos\<close>; the answer, decrypted and decoded, and the next position.\<close>

definition client_request ::
  "env \<Rightarrow> nat \<Rightarrow> string \<Rightarrow> (nat \<Rightarrow> nat \<Rightarrow> bytes) \<Rightarrow> nat \<Rightarrow> bytes \<Rightarrow> (NetworkConfigPayload \<times> nat) option prog" where
  "client_request E p ep ks pos msg = do {
     r \<leftarrow> protocomm_req_handle E (prog_link E) (Some p) (Some ep) (xor_bytes msg (ks pos (length msg)));
     ret (case snd r of None \<Rightarrow> None
        | Some b \<Rightarrow> map_option (\<lambda>m. (m, pos + length msg + length b))
            (pb_decode (config_codec E) (xor_bytes b (ks (pos + length msg) (length b))))) }"

definition client_provision ::
  "env \<Rightarrow> nat \<Rightarrow> bytes \<Rightarrow> (bytes \<Rightarrow> bytes) \<Rightarrow> (bytes \<Rightarrow> bytes \<Rightarrow> nat \<Rightarrow> byte) \<Rightarrow> CmdSetWifiConfig \<Rightarrow> bool prog" where
  "client_provision E p pk ck aes cmd = do {
     hs \<leftarrow> client_handshake E p pk ck aes;
     (case hs of
        None \<Rightarrow> ret False
      | Some (key, iv) \<Rightarrow> do {
          a \<leftarrow> client_request E p EP_CONFIG_NAME (keystream aes key iv) (2 * PUBKEY_LEN) (wire (config_codec E) (set_config cmd));
          (case a of
             None \<Rightarrow> ret False
           | Some (m, pos) \<Rightarrow>
              if m \<noteq> set_config_ok then ret False
              else do {
                b \<leftarrow> client_request E p EP_CONFIG_NAME (keystream aes key iv) pos (wire (config_codec E) apply_config);
                ret (map_option fst b = Some apply_config_ok) }) }) }"

section \<open>The handshake over protocomm\<close>

text \<open>The instance with the security endpoint and the Wi-Fi configuration endpoint, whatever its session is.\<close>

definition serves_wifi :: "(security_ref, session_ctx, handler_ref, nat) protocomm \<Rightarrow> bool" where
  "serves_wifi c \<longleftrightarrow> sec c = Some network_prov_security1 \<and>
     (\<exists>e. find_ep c EP_SESSION_NAME = Some e \<and> ep_ty e = EP_SECURITY) \<and>
     find_ep c EP_CONFIG_NAME = Some (data_ep EP_CONFIG_NAME H_wifi_config None)"

lemma serves_wifi_ctx [simp]: "serves_wifi (c\<lparr>sec_ctx := x\<rparr>) = serves_wifi c"
  by (simp add: serves_wifi_def find_ep_def)

text \<open>The service at \<open>p\<close>, its session context and a predicate on the rest of the program.\<close>

definition device_at :: "nat \<Rightarrow> (world \<Rightarrow> bool) \<Rightarrow> (sec1_ctx \<Rightarrow> history \<Rightarrow> bool) \<Rightarrow> world \<Rightarrow> bool" where
  "device_at p J X s \<longleftrightarrow> J s \<and> (\<exists>c x. pcs s p = Some c \<and> serves_wifi c \<and> sec_ctx c = Some (Sec1_object x) \<and> X x (hist s))"

lemma handshake_request:
  assumes J: "pc_stable J" and s: "device_at p J X s"
    and step: "\<And>x. X x (hist s) \<Longrightarrow> wp (sec1_dispatch E x b) (\<lambda>r s'. fst r = ans \<and> Y (snd r) (hist s')) s"
  shows "wp (protocomm_req_handle E (prog_link E) (Some p) (Some EP_SESSION_NAME) b) (\<lambda>r s'. r = ans \<and> device_at p J Y s') s"
proof -
  obtain c x e where c: "pcs s p = Some c" "serves_wifi c" "sec_ctx c = Some (Sec1_object x)" "X x (hist s)"
    "sec c = Some network_prov_security1" "find_ep c EP_SESSION_NAME = Some e" "ep_ty e = EP_SECURITY"
    using s by (auto simp: device_at_def serves_wifi_def)
  have hs: "wp (sec1_handshake E (Some (Sec1_object x)) b) (\<lambda>r s'. J s' \<and> pcs s' = pcs s \<and> fst r = ans \<and>
      (\<exists>y. snd r = Some (Sec1_object y) \<and> Y y (hist s'))) s"
  proof -
    have "wp (sec1_handshake E (Some (Sec1_object x)) b) (\<lambda>_. J) s"
      by (rule stableD [OF pc_stable.stable_sec1(4) [OF J]]) (use s in \<open>simp add: device_at_def\<close>)
    moreover have "wp (sec1_handshake E (Some (Sec1_object x)) b) (\<lambda>r s'. fst r = ans \<and> (\<exists>y. snd r = Some (Sec1_object y) \<and> Y y (hist s'))) s"
      using step [OF c(4)] by (simp add: sec1_handshake_def as_sec1_def)
    moreover have "wp (sec1_handshake E (Some (Sec1_object x)) b) (\<lambda>_ s'. pcs s' = pcs s) s"
      by (simp add: sec1_handshake_def as_sec1_def) (rule wp_mono [OF sec1_dispatch_spec], auto elim!: only_histE)
    ultimately show ?thesis by (simp add: wp_sel)
  qed
  show ?thesis
    unfolding protocomm_req_handle_def
    using c hs pc_stable.object_law(1) [OF J]
    by (auto simp: security1_vtable_def device_at_def elim!: wp_mono)
qed

text \<open>The context of a new session, and one that waits for the client's proof.\<close>

definition new_ctx :: "sec1_ctx \<Rightarrow> sec1_ctx \<Rightarrow> history \<Rightarrow> bool" where
  "new_ctx x y h \<longleftrightarrow> y = x \<and> length (device_pubkey x) = PUBKEY_LEN \<and> length (client_pubkey x) = PUBKEY_LEN \<and>
     length (device_random x) = RANDOM_LEN"

definition keyed_ctx :: "sec1_ctx \<Rightarrow> bytes \<Rightarrow> bytes \<Rightarrow> bytes \<Rightarrow> sec1_ctx \<Rightarrow> history \<Rightarrow> bool" where
  "keyed_ctx x pk key iv y h \<longleftrightarrow> s1_state y = SEC1_CMD0_DONE \<and> device_pubkey y = device_pubkey x \<and> client_pubkey y = pk \<and>
     (\<exists>k. cipher y = ctr_op k iv [] \<and> imported h k = Some key)"

text \<open>What the stacks of the device do in a provisioning without failures: PSA computes and does not fail, the heap has room, an
  array on the stack has its size, and the messages are carried.\<close>

definition stacks_work :: "env \<Rightarrow> (nat \<Rightarrow> bytes \<Rightarrow> bytes) \<Rightarrow> (bytes \<Rightarrow> bytes) \<Rightarrow> (bytes \<Rightarrow> bytes \<Rightarrow> nat \<Rightarrow> byte) \<Rightarrow>
    bytes \<Rightarrow> CmdSetWifiConfig \<Rightarrow> bool" where
  "stacks_work E dh sha aes pk cmd \<longleftrightarrow> psa_laws E dh sha aes \<and> psa_succeeds E \<and> (\<forall>h n. malloc_ok (kern E) h n) \<and>
     (\<forall>h. length (uninit (kern E) h PUBKEY_LEN) = PUBKEY_LEN) \<and> carries_provisioning E pk cmd"

lemma cmd0_answer:
  assumes w: "stacks_work E dh sha aes pk cmd" and pk: "length pk = PUBKEY_LEN" and x: "new_ctx x y (hist s)"
    and iv: "iv = snd (psa_generate_random (psa E) (hist s) RANDOM_LEN)"
  shows "wp (sec1_dispatch E y (wire (session_codec E) (cmd0 pk))) (\<lambda>r s'. fst r = (0, Some (wire (session_codec E) (resp0 (device_pubkey x) iv))) \<and>
    keyed_ctx x pk (session_secret dh sha x pk) iv (snd r) (hist s')) s"
proof -
  have laws: "psa_laws E dh sha aes" "psa_succeeds E" and msgs: "carries_provisioning E pk cmd" and heap: "\<And>h n. malloc_ok (kern E) h n"
    using w by (auto simp: stacks_work_def)
  have len: "length (client_pubkey x) = PUBKEY_LEN" "length (device_random x) = RANDOM_LEN" "length (device_pubkey x) = PUBKEY_LEN" "y = x"
    using x by (auto simp: new_ctx_def)
  have d: "pb_decode (session_codec E) (wire (session_codec E) (cmd0 pk)) = Some (cmd0 pk)"
    using msgs by (intro carries_wire) (simp add: carries_provisioning_def)
  have "length iv = RANDOM_LEN" using psa_lawsD(4) [OF laws(1)] iv by simp
  then have carried: "carries (session_codec E) (resp0 (device_pubkey x) iv)" and rnd: "memcpy (device_random x) iv = iv"
    using msgs len by (auto simp: carries_provisioning_def memcpy_full)
  have "wp (sec1_dispatch E x (wire (session_codec E) (cmd0 pk))) (\<lambda>r _. fst r = (0, Some (wire (session_codec E) (resp0 (device_pubkey x) iv)))) s"
    using d pk carried
    by (simp add: sec1_dispatch_def cmd0_def handle_cmd0_def sc0_client_pubkey_def Let_def derive_session_key_def mix_pop_def
        import_session_key_def arm_cipher_def iv [symmetric] rnd psa_succeedsD [OF laws(2,1)] build_resp0_def resp0_def [symmetric]
        pb_encode_wire heap)
  from wp_conj [OF this dispatch_cmd0 [OF laws d pk len(1,2) iv]] show ?thesis
    unfolding len(4) by (rule wp_mono) (auto simp: keyed_ctx_def same_identity_def)
qed

lemma cmd1_answer:
  assumes w: "stacks_work E dh sha aes pk cmd" and pk: "length pk = PUBKEY_LEN" "length (device_pubkey x) = PUBKEY_LEN"
    and y: "keyed_ctx x pk key iv y (hist s)"
  shows "wp (sec1_dispatch E y (wire (session_codec E) (cmd1 (xor_bytes (device_pubkey x) (keystream aes key iv 0 PUBKEY_LEN)))))
    (\<lambda>r s'. fst r = (0, Some (wire (session_codec E) (resp1 (xor_bytes pk (keystream aes key iv PUBKEY_LEN PUBKEY_LEN))))) \<and>
      established (snd r) (hist s') key iv [PUBKEY_LEN, PUBKEY_LEN]) s"
proof -
  let ?v = "xor_bytes (device_pubkey x) (keystream aes key iv 0 PUBKEY_LEN)"
    and ?w = "xor_bytes pk (keystream aes key iv PUBKEY_LEN PUBKEY_LEN)"
  have laws: "psa_laws E dh sha aes" "psa_succeeds E" and msgs: "carries_provisioning E pk cmd"
    and heap: "\<And>h n. malloc_ok (kern E) h n" and un: "\<And>h. length (uninit (kern E) h PUBKEY_LEN) = PUBKEY_LEN"
    using w by (auto simp: stacks_work_def)
  obtain k where k: "s1_state y = SEC1_CMD0_DONE" "device_pubkey y = device_pubkey x" "client_pubkey y = pk" "cipher y = ctr_op k iv []"
    "imported (hist s) k = Some key" using y by (auto simp: keyed_ctx_def)
  have len: "length ?v = PUBKEY_LEN" "length ?w = PUBKEY_LEN" using pk by simp_all
  have d: "pb_decode (session_codec E) (wire (session_codec E) (cmd1 ?v)) = Some (cmd1 ?v)" "carries (session_codec E) (resp1 ?w)"
    using msgs len by (simp_all add: carries_provisioning_def carries_wire)
  have push: "op_call 0 (Cipher_update n) (ctr_op k iv ms) = ctr_op k iv (n # ms)" for n ms
    by (simp add: op_call_def ctr_op_def)
  have dec: "xor_bytes ?v (keystream aes key iv 0 PUBKEY_LEN) = device_pubkey x" using pk by (simp add: xor_bytes_cancel)
  have full: "memcpy (uninit (kern E) h PUBKEY_LEN) ?w = ?w" for h using un len by (simp add: memcpy_full)
  have "wp (sec1_dispatch E y (wire (session_codec E) (cmd1 ?v))) (\<lambda>r _. fst r = (0, Some (wire (session_codec E) (resp1 ?w)))) s"
    using d k pk
    by (simp add: sec1_dispatch_def cmd1_def handle_cmd1_def sc1_client_verify_data_def Let_def psa_lawsD(5) [OF laws(1)] push dec full
        build_resp1_def resp1_def [symmetric] pb_encode_wire heap)
  moreover have "wp (sec1_dispatch E y (wire (session_codec E) (cmd1 ?v))) (\<lambda>r s'. established (snd r) (hist s') key iv [PUBKEY_LEN, PUBKEY_LEN]) s"
    by (rule wp_mono [OF dispatch_cmd1 [OF laws(1) d(1) len(1) k(1,4,5) _ _ un]]) (use k pk in auto)
  ultimately show ?thesis by (rule wp_conj)
qed

section \<open>Encrypted requests\<close>

abbreviation in_session :: "nat \<Rightarrow> (world \<Rightarrow> bool) \<Rightarrow> bytes \<Rightarrow> bytes \<Rightarrow> nat list \<Rightarrow> world \<Rightarrow> bool" where
  "in_session p J key iv ns \<equiv> device_at p J (\<lambda>x h. established x h key iv ns)"

lemma in_session_heap [simp]:
  assumes "pc_stable J"
  shows "in_session p J key iv ns (s\<lparr>hist := Kern (K_malloc n b) # h\<rparr>) = in_session p J key iv ns (s\<lparr>hist := h\<rparr>)"
    "in_session p J key iv ns (s\<lparr>hist := Kern K_free # h\<rparr>) = in_session p J key iv ns (s\<lparr>hist := h\<rparr>)"
  by (simp_all add: device_at_def pc_stable.silent_law [OF assms] established_def)

lemma device_crypt:
  assumes laws: "psa_laws E dh sha aes" and J: "pc_stable J" and s: "in_session p J key iv ns s"
  shows "wp (crypt p (sec1_encrypt E) b) (\<lambda>r s'. r = (0, xor_bytes b (keystream aes key iv (sum_list ns) (length b))) \<and>
    in_session p J key iv (length b # ns) s') s"
proof -
  obtain c x where c: "pcs s p = Some c" "serves_wifi c" "sec_ctx c = Some (Sec1_object x)" "established x (hist s) key iv ns" "J s"
    using s by (auto simp: device_at_def)
  have "wp (sec1_encrypt E (Some (Sec1_object x)) b) (\<lambda>_. J) s"
    by (rule stableD [OF pc_stable.stable_sec1(3) [OF J] c(5)])
  from wp_conj [OF wp_conj [OF sec1_encrypt_established [OF laws c(4), of b] sec1_encrypt_spec [of E x b s]] this] c
  show ?thesis
    by (auto simp: crypt_def with_pc_def elim!: wp_mono only_histE)
      (auto simp: device_at_def pc_stable.object_law(1) [OF J])
qed

lemma config_request:
  assumes w: "stacks_work E dh sha aes pk cmd" and J: "pc_stable J" "pc_stable J'" and s: "in_session p J key iv ns s"
    and msg: "carries (config_codec E) m" "carries (config_codec E) r"
    and handler: "\<And>t. J t \<Longrightarrow> wp (network_prov_wifi_config_handler E (wire (config_codec E) m))
      (\<lambda>a t'. a = (0, Some (wire (config_codec E) r)) \<and> J' t' \<and> pcs t' = pcs t \<and> imported (hist t') = imported (hist t)) t"
  shows "wp (client_request E p EP_CONFIG_NAME (keystream aes key iv) (sum_list ns) (wire (config_codec E) m))
    (\<lambda>a s'. a = Some (r, sum_list ns + length (wire (config_codec E) m) + length (wire (config_codec E) r)) \<and>
      in_session p J' key iv (length (wire (config_codec E) r) # length (wire (config_codec E) m) # ns) s') s"
proof -
  let ?m = "wire (config_codec E) m" and ?r = "wire (config_codec E) r" and ?ks = "keystream aes key iv"
  let ?b = "xor_bytes ?m (?ks (sum_list ns) (length ?m))" and ?ep = "data_ep EP_CONFIG_NAME H_wifi_config None"
  have laws: "psa_laws E dh sha aes" and heap: "\<And>h n. malloc_ok (kern E) h n" using w by (auto simp: stacks_work_def)
  have m: "?m \<noteq> []" "?r \<noteq> []" using carries_wire(2) [OF msg(1)] carries_wire(2) [OF msg(2)] by auto
  have b: "length ?b = length ?m" by simp
  then have b': "?b \<noteq> []" using m(1) by (metis length_0_conv)
  have dec: "wp (decrypt_request E (security1_vtable E) p ?b) (\<lambda>d t. d = Inr (Some ?m) \<and> in_session p J key iv (length ?m # ns) t) s"
    unfolding decrypt_request_def using b' heap s
    by (simp add: J security1_vtable_def)
      (rule wp_mono [OF device_crypt [OF laws J(1)]], auto simp: J in_session_heap [OF J(1)] xor_bytes_cancel)
  have enc: "wp (encrypt_response E (security1_vtable E) p (Some ?r))
      (\<lambda>a t. a = (0, Some (xor_bytes ?r (?ks (sum_list ms) (length ?r)))) \<and> in_session p J' key iv (length ?r # ms) t) u"
    if "in_session p J' key iv ms u" for u ms
    unfolding encrypt_response_def using m heap that
    by (simp add: J security1_vtable_def)
      (rule wp_mono [OF device_crypt [OF laws J(2)]], auto simp: in_session_heap [OF J(2)])
  have run: "wp (run_endpoint E (prog_link E) p network_prov_security1 ?ep (Some ?m))
      (\<lambda>a t. a = (0, Some (xor_bytes ?r (?ks (sum_list (length ?m # ns)) (length ?r)))) \<and> in_session p J' key iv (length ?r # length ?m # ns) t) u"
    if u: "in_session p J key iv (length ?m # ns) u" for u
  proof -
    have "wp (network_prov_wifi_config_handler E ?m) (\<lambda>a t'. a = (0, Some ?r) \<and> in_session p J' key iv (length ?m # ns) t') u"
      by (rule wp_mono [OF handler]) (use u in \<open>auto simp: device_at_def established_def\<close>)
    then show ?thesis
      by (simp add: run_endpoint_def, elim wp_mono) (auto intro!: enc [where ms = "length ?m # ns", unfolded sum_list.Cons] simp: in_session_heap [OF J(2)])
  qed
  have "wp (handle_data E (prog_link E) p network_prov_security1 ?ep ?b)
      (\<lambda>a t. a = (0, Some (xor_bytes ?r (?ks (sum_list (length ?m # ns)) (length ?r)))) \<and> in_session p J' key iv (length ?r # length ?m # ns) t) s"
    unfolding handle_data_def wp_bind by (simp, rule wp_mono [OF dec]) (auto intro!: run [unfolded sum_list.Cons])
  with s msg show ?thesis
    unfolding client_request_def
    by (auto simp: protocomm_req_handle_def device_at_def [of p J] serves_wifi_def xor_bytes_cancel carries_wire add.commute elim!: wp_mono)
qed

section \<open>The configuration endpoint\<close>

text \<open>The stages of a provisioning: nothing under way, the credentials staged, and the connection requested. The newest change of
  the credential store is then the write of these credentials, and the newest connect request asks for them.\<close>

fun connect_call :: "call \<Rightarrow> bool" where
  "connect_call (Wifi (Wifi_connect i p)) = True"
| "connect_call _ = False"

definition idle_stage :: "network_prov_cb_event list \<Rightarrow> world \<Rightarrow> bool" where
  "idle_stage es s \<longleftrightarrow> wc_wf (wc s) \<and> event_cb (mgr s) \<and> app_events (hist s) = es"

definition staged_stage :: "CmdSetWifiConfig \<Rightarrow> network_prov_cb_event list \<Rightarrow> world \<Rightarrow> bool" where
  "staged_stage cmd es s \<longleftrightarrow> staged cmd (wc s) \<and> event_cb (mgr s) \<and> app_events (hist s) = es"

definition configured :: "iface \<Rightarrow> CmdSetWifiConfig \<Rightarrow> history \<Rightarrow> bool" where
  "configured i cmd h \<longleftrightarrow> find store_change h = Some (Wifi (Cred_set_personal (credential_of cmd))) \<and>
     find connect_call h = Some (Wifi (Wifi_connect i (request_of cmd)))"

definition connecting_stage :: "iface \<Rightarrow> CmdSetWifiConfig \<Rightarrow> network_prov_cb_event list \<Rightarrow> world \<Rightarrow> bool" where
  "connecting_stage i cmd es s \<longleftrightarrow> 0 < inflight_ssid_len (wc s) \<and> event_cb (mgr s) \<and> app_events (hist s) = NETWORK_PROV_CRED_RECV # es \<and>
     configured i cmd (hist s)"

lemma silent_unread [simp]:
  assumes "silent c"
  shows "app_events (c # h) = app_events h" "\<not> store_change c" "\<not> connect_call c"
  using assms by (cases c rule: silent.cases; simp)+

lemma event_readings [simp]:
  "find store_change (event_calls E m ev @ h) = find store_change h" "find connect_call (event_calls E m ev @ h) = find connect_call h"
  "imported (event_calls E m ev @ h) = imported h"
  by (simp_all add: event_calls_def fun_eq_iff)

lemma stages_stable: "pc_stable (idle_stage es)" "pc_stable (staged_stage cmd es)" "pc_stable (connecting_stage i cmd es)"
  by (unfold_locales; simp add: idle_stage_def staged_stage_def connecting_stage_def configured_def)+

lemma set_handler:
  assumes w: "stacks_work E dh sha aes pk cmd" and cmd: "cmd_valid cmd" and s: "idle_stage es s"
  shows "wp (network_prov_wifi_config_handler E (wire (config_codec E) (set_config cmd)))
    (\<lambda>a t. a = (0, Some (wire (config_codec E) set_config_ok)) \<and> staged_stage cmd es t \<and> pcs t = pcs s \<and> imported (hist t) = imported (hist s)) s"
proof -
  have m: "pb_decode (config_codec E) (wire (config_codec E) (set_config cmd)) = Some (set_config cmd)" "carries (config_codec E) set_config_ok"
    "\<And>h n. malloc_ok (kern E) h n"
    using w by (auto simp: stacks_work_def carries_provisioning_def carries_wire)
  have set: "wp (wifi_do_set_config cmd) (\<lambda>st t. st = Status_Success \<and> staged_stage cmd es t \<and> pcs t = pcs s \<and> hist t = hist s) s"
    using set_config_staged [of s cmd] s cmd
    by (simp add: idle_stage_def staged_stage_def cmd_valid_def wifi_do_set_config_def)
  show ?thesis
    unfolding network_prov_wifi_config_handler_def m
    by (simp add: set_config_def cmd_set_wifi_config_def)
      (rule wp_mono [OF set], auto simp: wifi_encode_simple_def set_config_ok_def [symmetric] pb_encode_wire m staged_stage_def)
qed

lemma apply_handler:
  assumes w: "stacks_work E dh sha aes pk cmd" and cmd: "cmd_valid cmd" and s: "staged_stage cmd es s"
    and ifc: "\<And>h. wifi_iface_of E h = Some i" and conn: "connects_accepted E"
    and store: "\<And>h. cred_set_personal_ret (wifi E) h (credential_of cmd) = 0"
  shows "wp (network_prov_wifi_config_handler E (wire (config_codec E) apply_config))
    (\<lambda>a t. a = (0, Some (wire (config_codec E) apply_config_ok)) \<and> connecting_stage i cmd es t \<and> pcs t = pcs s \<and>
      imported (hist t) = imported (hist s)) s"
proof -
  have m: "pb_decode (config_codec E) (wire (config_codec E) apply_config) = Some apply_config" "carries (config_codec E) apply_config_ok"
    "\<And>h n. malloc_ok (kern E) h n"
    using w by (auto simp: stacks_work_def carries_provisioning_def carries_wire)
  have st: "staged cmd (wc s)" using s by (simp add: staged_stage_def)
  have req: "inflight_params (snapshot_inflight ((wc s)\<lparr>sta_state := x\<rparr>)) = request_of cmd" for x
    using st by (intro snapshot_request) (auto simp: staged_def)
  have len: "0 < inflight_ssid_len (snapshot_inflight ((wc s)\<lparr>sta_state := x\<rparr>))" for x
    using st by (simp add: snapshot_inflight_def staged_def)
  have "wp (wifi_do_apply_config E) (\<lambda>st t. st = Status_Success \<and> connecting_stage i cmd es t \<and> pcs t = pcs s \<and>
      imported (hist t) = imported (hist s)) s"
    using s connect_accepted [OF conn]
    by (simp add: wifi_do_apply_config_def ifc store staged_credential_eq [OF st] connect_calls_def req len
        connecting_stage_def staged_stage_def configured_def fun_eq_iff)
  then show ?thesis
    unfolding network_prov_wifi_config_handler_def m
    by (simp add: apply_config_def, elim wp_mono)
      (auto simp: wifi_encode_simple_def apply_config_ok_def [symmetric] pb_encode_wire m connecting_stage_def configured_def)
qed

section \<open>A whole provisioning\<close>

lemma client_handshake_succeeds:
  assumes w: "stacks_work E dh sha aes pk cmd" and pk: "length pk = PUBKEY_LEN" and J: "pc_stable J"
    and s: "device_at p J (new_ctx x) s" and ck: "ck (device_pubkey x) = session_secret dh sha x pk"
  shows "wp (client_handshake E p pk ck aes) (\<lambda>r t. \<exists>iv. r = Some (session_secret dh sha x pk, iv) \<and>
    in_session p J (session_secret dh sha x pk) iv [PUBKEY_LEN, PUBKEY_LEN] t) s"
proof -
  let ?key = "session_secret dh sha x pk" and ?iv = "snd (psa_generate_random (psa E) (hist s) RANDOM_LEN)"
  have msgs: "carries_provisioning E pk cmd" and "psa_laws E dh sha aes" using w by (auto simp: stacks_work_def)
  then have iv: "length ?iv = RANDOM_LEN" by (simp add: psa_lawsD(4))
  have pub: "length (device_pubkey x) = PUBKEY_LEN" using s by (auto simp: device_at_def new_ctx_def)
  let ?v = "xor_bytes (device_pubkey x) (keystream aes ?key ?iv 0 PUBKEY_LEN)" and ?r1 = "resp1 (xor_bytes pk (keystream aes ?key ?iv PUBKEY_LEN PUBKEY_LEN))"
  have c: "carries (session_codec E) (resp0 (device_pubkey x) ?iv)" "carries (session_codec E) ?r1"
    using msgs iv pub pk by (simp_all add: carries_provisioning_def)
  have reads: "client_reads_resp0 E (0, Some (wire (session_codec E) (resp0 (device_pubkey x) ?iv))) = Some (device_pubkey x, ?iv)"
    by (simp add: client_reads_resp0_def carries_wire [OF c(1)]) (simp add: resp0_def)
  note first = handshake_request [OF J s cmd0_answer [OF w pk _ refl]]
    and second = handshake_request [OF J _ cmd1_answer [OF w pk pub]]
  show ?thesis
    unfolding client_handshake_def wp_bind
    by (rule wp_mono [OF first]) (auto simp: reads ck carries_wire [OF c(2)] Let_def intro!: wp_mono [OF second])
qed

lemma client_provisions:
  assumes w: "stacks_work E dh sha aes pk cmd" and "length pk = PUBKEY_LEN" and cmd: "cmd_valid cmd"
    and s: "device_at p (idle_stage es) (new_ctx x) s" and "ck (device_pubkey x) = session_secret dh sha x pk"
    and ifc: "\<And>h. wifi_iface_of E h = Some i" and conn: "connects_accepted E"
    and store: "\<And>h. cred_set_personal_ret (wifi E) h (credential_of cmd) = 0"
  shows "wp (do { ok \<leftarrow> client_provision E p pk ck aes cmd; wifi_config_mgmt_event E (NET_EVENT_WIFI_CONNECT_RESULT 0); ret ok })
    (\<lambda>ok t. ok \<and> configured i cmd (hist t) \<and> app_events (hist t) = NETWORK_PROV_CRED_SUCCESS # NETWORK_PROV_CRED_RECV # es \<and>
      sta_state (wc t) = WifiSta_Connected \<and> sem_given Mgr_done (hist t)) s"
proof -
  let ?key = "session_secret dh sha x pk"
  note hs = client_handshake_succeeds [where ck = ck, OF w assms(2) stages_stable(1) s assms(5)]
  have msgs: "carries (config_codec E) (set_config cmd)" "carries (config_codec E) set_config_ok"
    "carries (config_codec E) apply_config" "carries (config_codec E) apply_config_ok"
    using w by (auto simp: stacks_work_def carries_provisioning_def)
  let ?set = "wire (config_codec E) (set_config cmd)" and ?ok = "wire (config_codec E) set_config_ok"
    and ?apply = "wire (config_codec E) apply_config" and ?started = "wire (config_codec E) apply_config_ok"
  have first: "wp (client_request E p EP_CONFIG_NAME (keystream aes ?key iv) (2 * PUBKEY_LEN) ?set)
      (\<lambda>a t. a = Some (set_config_ok, 2 * PUBKEY_LEN + length ?set + length ?ok) \<and>
        in_session p (staged_stage cmd es) ?key iv [length ?ok, length ?set, PUBKEY_LEN, PUBKEY_LEN] t) u"
    if "in_session p (idle_stage es) ?key iv [PUBKEY_LEN, PUBKEY_LEN] u" for u iv
    using config_request [OF w stages_stable(1,2) that msgs(1,2) set_handler [where es = es, OF w cmd], simplified] by simp
  have second: "wp (client_request E p EP_CONFIG_NAME (keystream aes ?key iv) (2 * PUBKEY_LEN + length ?set + length ?ok) ?apply)
      (\<lambda>a t. map_option fst a = Some apply_config_ok \<and>
        in_session p (connecting_stage i cmd es) ?key iv (length ?started # length ?apply # [length ?ok, length ?set, PUBKEY_LEN, PUBKEY_LEN]) t) u"
    if "in_session p (staged_stage cmd es) ?key iv [length ?ok, length ?set, PUBKEY_LEN, PUBKEY_LEN] u" for u iv
    using config_request [OF w stages_stable(2,3) that msgs(3,4) apply_handler [where es = es, OF w cmd _ ifc conn store], simplified]
    by (auto simp: ac_simps elim!: wp_mono)
  have connected: "wp (wifi_config_mgmt_event E (NET_EVENT_WIFI_CONNECT_RESULT 0)) (\<lambda>_ t. configured i cmd (hist t) \<and>
      app_events (hist t) = NETWORK_PROV_CRED_SUCCESS # NETWORK_PROV_CRED_RECV # es \<and> sta_state (wc t) = WifiSta_Connected \<and>
      sem_given Mgr_done (hist t)) u" if "in_session p (connecting_stage i cmd es) key iv ns u" for u key iv ns
    using that by (auto simp: device_at_def connecting_stage_def configured_def wifi_config_mgmt_event_def on_connect_result_def)
  show ?thesis
    unfolding client_provision_def wp_bind
    by (rule wp_mono [OF hs])
      (auto simp del: mult_2 intro!: wp_mono [OF first [simplified]] wp_mono [OF second [simplified]] connected)
qed

section \<open>From the start of the service\<close>

text \<open>What the client adds: its shared secret \<open>dh'\<close> for the device's public key, mixed with the hash of the whole proof of possession.
  The curve makes both sides agree.\<close>

definition client_key :: "(bytes \<Rightarrow> bytes) \<Rightarrow> (bytes \<Rightarrow> bytes) \<Rightarrow> cstr \<Rightarrow> bytes \<Rightarrow> bytes" where
  "client_key dh' sha popv pub = (case popv of None \<Rightarrow> dh' pub
     | Some q \<Rightarrow> if q = [] then dh' pub else xor_bytes (dh' pub) (sha (bytes_of_string q)))"

definition keys_agree :: "env \<Rightarrow> (nat \<Rightarrow> bytes \<Rightarrow> bytes) \<Rightarrow> (bytes \<Rightarrow> bytes) \<Rightarrow> bytes \<Rightarrow> bool" where
  "keys_agree E dh dh' pk \<longleftrightarrow> (\<forall>h. psa_crypto_init_ret (psa E) h = 0 \<and> fst (psa_generate_key (psa E) h) = 0) \<and>
     (\<forall>h k. fst (psa_export_public_key (psa E) h k) = 0 \<and> length (snd (psa_export_public_key (psa E) h k)) = PUBKEY_LEN \<and>
        dh' (snd (psa_export_public_key (psa E) h k)) = dh k pk)"

text \<open>A proof of possession that the device stores whole.\<close>

definition pop_fits :: "cstr \<Rightarrow> bool" where
  "pop_fits popv \<longleftrightarrow> (case popv of None \<Rightarrow> True | Some q \<Rightarrow> length q < POP_MAX)"

text \<open>The instance before a client comes.\<close>

definition awaits_client :: "nat \<Rightarrow> (world \<Rightarrow> bool) \<Rightarrow> cstr \<Rightarrow> world \<Rightarrow> bool" where
  "awaits_client p J popv s \<longleftrightarrow> J s \<and> (\<exists>c. pcs s p = Some c \<and> serves_wifi c \<and> sec_ctx c = None \<and> pop c = popv)"

lemma sec1_init_agrees:
  assumes w: "stacks_work E dh sha aes pk cmd" and keys: "keys_agree E dh dh' pk" and pop: "pop_fits popv"
  shows "wp (sec1_init E popv) (\<lambda>r t. only_hist s t \<and> (\<exists>x. r = (0, Some (Sec1_object x)) \<and> new_ctx x x (hist t) \<and>
    client_key dh' sha popv (device_pubkey x) = session_secret dh sha x pk)) s"
proof -
  have heap: "\<And>h n. malloc_ok (kern E) h n" using w by (simp add: stacks_work_def)
  show ?thesis
    using keys pop
    by (auto simp: sec1_init_def heap keys_agree_def pop_fits_def sec1_store_pop_def sec1_zero_def new_ctx_def session_secret_def client_key_def Let_def
        memcpy_full bytes_of_string_def take_memcpy_n only_hist_def split: option.split)
qed

lemma open_device:
  assumes w: "stacks_work E dh sha aes pk cmd" and keys: "keys_agree E dh dh' pk" and pop: "pop_fits popv"
    and J: "pc_stable J" and s: "awaits_client p J popv s"
  shows "wp (protocomm_open_session (prog_link E) (Some p)) (\<lambda>_ t. \<exists>x. device_at p J (new_ctx x) t \<and>
    client_key dh' sha popv (device_pubkey x) = session_secret dh sha x pk) s"
proof -
  obtain c where c: "pcs s p = Some c" "serves_wifi c" "sec_ctx c = None" "pop c = popv" "sec c = Some network_prov_security1" "J s"
    using s by (auto simp: awaits_client_def serves_wifi_def)
  have "wp (sec1_init E popv) (\<lambda>_. J) s" by (rule stableD [OF pc_stable.stable_sec1(1) [OF J] c(6)])
  from wp_conj [OF sec1_init_agrees [OF w keys pop] this] show ?thesis
    using c
    by (simp add: protocomm_open_session_def protocomm_close_session_def with_pc_def security1_vtable_def, elim wp_mono)
      (fastforce simp: device_at_def pc_stable.object_law [OF J] new_ctx_def elim!: only_histE)
qed

lemma start_awaits:
  assumes s: "reachable E s" "config_ok E" "buffer_laws E" "fresh s" "inited (mgr s)" "\<not> started (mgr s)" "\<not> NETWORK_TYPE_THREAD (cfg E)"
  shows "wp (network_prov_mgr_start_provisioning E NETWORK_PROV_SECURITY_1 popv name key) (\<lambda>r t. r = 0 \<longrightarrow>
    (\<exists>p. mgr_pc (mgr t) = Some p \<and> awaits_client p (idle_stage [NETWORK_PROV_START, NETWORK_PROV_INIT]) popv t)) s"
proof -
  have pre: "mgr_ok E (mgr s)" "pcs s = (\<lambda>_. None)" "transports_ok E None s" "net_typed E s"
    using reachable_inv [OF s(1-3)] reachable_typed [OF s(1-3)] s(6) by (auto simp: prog_inv_def idle_def)
  have serves: "serves_wifi (service_pc E m NETWORK_PROV_SECURITY_1 popv vj)" for m vj
    using s(7) by (simp add: serves_wifi_def service_pc_def base_pc_def find_ep_def service_eps_def base_eps_def net_eps_def)
  have typed: "wp (network_prov_mgr_start_provisioning E NETWORK_PROV_SECURITY_1 popv name key) (\<lambda>_. net_typed E) s"
    using stableD [OF typed_manager(2) pre(4), of "Mgr_start NETWORK_PROV_SECURITY_1 popv name key"] by (simp add: forget_def)
  show ?thesis
    by (rule wp_mono [OF wp_conj [OF start_spec [OF pre(1) s(2,5,6) pre(2,3)] wp_conj [OF start_view [OF s(4)] typed]]])
      (auto simp: start_result_def awaits_client_def idle_stage_def view_def net_typed_def serves,
        simp_all add: service_pc_def base_pc_def)
qed

text \<open>The service is started, a client connects (each transport then opens a session of the instance), provisions and disappears, and
  the driver reports that the connection is up. The result is that of the start, and whether the client has got all its answers.\<close>

definition provisioning_run ::
  "env \<Rightarrow> cstr \<Rightarrow> cstr \<Rightarrow> cstr \<Rightarrow> bytes \<Rightarrow> (bytes \<Rightarrow> bytes) \<Rightarrow> (bytes \<Rightarrow> bytes \<Rightarrow> nat \<Rightarrow> byte) \<Rightarrow> CmdSetWifiConfig \<Rightarrow> (int \<times> bool) prog" where
  "provisioning_run E popv name key pk ck aes cmd = do {
     r \<leftarrow> network_prov_mgr_start_provisioning E NETWORK_PROV_SECURITY_1 popv name key;
     pc \<leftarrow> gets (\<lambda>s. mgr_pc (mgr s));
     (case pc of
        None \<Rightarrow> ret (r, False)
      | Some p \<Rightarrow> do {
          protocomm_open_session (prog_link E) (Some p);
          ok \<leftarrow> client_provision E p pk ck aes cmd;
          wifi_config_mgmt_event E (NET_EVENT_WIFI_CONNECT_RESULT 0);
          ret (r, ok) }) }"

text \<open>C3. A client that knows the proof of possession provisions the device. Whenever the application has initialised the manager and
  the stacks work, a start that succeeds, the client's handshake, its two encrypted commands and the driver's report that the
  network is joined give: every answer is the one the client expects and decrypts at the place in the keystream it has
  counted itself; the newest change of the credential store is the write of the client's credentials and the newest connect
  request asks for exactly them; the application has seen INIT, START, CRED_RECV, CRED_SUCCESS and nothing else;
  and \<open>network_prov_mgr_wait\<close> can return. A start that fails reports nothing.\<close>

theorem client_provisions_device:
  assumes "reachable E s" and "config_ok E" and "buffer_laws E" and "fresh s" and "inited (mgr s)" and "\<not> started (mgr s)"
    and "\<not> NETWORK_TYPE_THREAD (cfg E)"
    and "stacks_work E dh sha aes pk cmd" and "length pk = PUBKEY_LEN" and "cmd_valid cmd"
    and "keys_agree E dh dh' pk" and "pop_fits popv"
    and "\<And>h. wifi_iface_of E h = Some i" and "connects_accepted E"
    and "\<And>h. cred_set_personal_ret (wifi E) h (credential_of cmd) = 0"
  shows "wp (provisioning_run E popv name key pk (client_key dh' sha popv) aes cmd) (\<lambda>(r, ok) t.
    if r = 0
    then ok \<and> configured i cmd (hist t) \<and> sta_state (wc t) = WifiSta_Connected \<and> sem_given Mgr_done (hist t) \<and>
      app_events (hist t) = [NETWORK_PROV_CRED_SUCCESS, NETWORK_PROV_CRED_RECV, NETWORK_PROV_START, NETWORK_PROV_INIT]
    else \<not> ok \<and> app_events (hist t) = [NETWORK_PROV_INIT]) s"
proof -
  let ?J = "idle_stage [NETWORK_PROV_START, NETWORK_PROV_INIT]" and ?start = "network_prov_mgr_start_provisioning E NETWORK_PROV_SECURITY_1 popv name key"
  have inv: "prog_inv E s" by (rule reachable_inv [OF assms(1-3)])
  then have failed: "wp ?start (\<lambda>r t. r \<noteq> 0 \<longrightarrow> mgr_pc (mgr t) = None \<and> app_events (hist t) = [NETWORK_PROV_INIT]) s"
    using assms(5,6) by (intro wp_mono [OF wp_conj [OF start_spec [OF _ assms(2,5,6)] start_view [OF assms(4)]]])
      (auto simp: prog_inv_def idle_def start_result_def view_def)
  note opened = open_device [OF assms(8,11,12) stages_stable(1)]
    and client = client_provisions [OF assms(8-10) _ _ assms(13-15)]
  show ?thesis
    unfolding provisioning_run_def wp_bind
  proof (rule wp_mono [OF wp_conj [OF start_awaits [OF assms(1-7)] failed]], goal_cases)
    case (1 r t)
    show ?case
    proof (cases "r = 0")
      case True
      with 1 obtain p where p: "mgr_pc (mgr t) = Some p" "awaits_client p ?J popv t" by auto
      show ?thesis
        using True p(1) by simp (rule wp_mono [OF opened [OF p(2)]], auto elim!: wp_mono dest!: client [unfolded wp_bind wp_return])
    qed (use 1 in simp)
  qed
qed

text \<open>A concrete client: a codec that tells the messages of the handshake apart by their first byte, and the four configuration messages
  as single bytes.\<close>

definition tagged_session :: "SessionData codec" where
  "tagged_session = (let enc = (\<lambda>m. case session_proto m of
       Proto_sec1 q \<Rightarrow> (case sec1_payload q of Sec1_sc0 pk \<Rightarrow> 0 # pk | Sec1_sr0 st pub iv \<Rightarrow> 1 # pub @ iv
         | Sec1_sc1 v \<Rightarrow> 2 # v | Sec1_sr1 st v \<Rightarrow> 3 # v | _ \<Rightarrow> [9])
     | _ \<Rightarrow> [9]) in
     \<lparr>pb_decode = (\<lambda>b. case b of [] \<Rightarrow> None | t # v \<Rightarrow> if t = 0 then Some (cmd0 v)
        else if t = 1 then Some (resp0 (take PUBKEY_LEN v) (drop PUBKEY_LEN v)) else if t = 2 then Some (cmd1 v)
        else if t = 3 then Some (resp1 v) else None),
      pb_get_encoded_size = (\<lambda>m. Some (length (enc m))), pb_encode = (\<lambda>_ m. Some (enc m))\<rparr>)"

definition tagged_config :: "NetworkConfigPayload codec" where
  "tagged_config = \<lparr>pb_decode = (\<lambda>b. if b = [1] then Some (set_config demo_cmd) else if b = [2] then Some set_config_ok
       else if b = [3] then Some apply_config else if b = [4] then Some apply_config_ok else None),
     pb_get_encoded_size = (\<lambda>m. Some 1),
     pb_encode = (\<lambda>_ m. Some (if m = set_config demo_cmd then [1] else if m = set_config_ok then [2]
       else if m = apply_config then [3] else if m = apply_config_ok then [4] else [5]))\<rparr>"

definition client_env :: env where
  "client_env = demo_sec1_env\<lparr>nanopb := ok_nanopb\<lparr>SessionData_codec := tagged_session, NetworkConfig_codec := tagged_config,
     NetworkScan_codec := byte_codec, NetworkCtrl_codec := byte_codec\<rparr>, kern := ok_kern\<lparr>app_endpoint := \<lambda>_ _ _ b. (0, Some (1 # b))\<rparr>\<rparr>"

definition client_ready :: world where
  "client_ready = snd (run_state (event_run client_env (Api (Mgr_init demo_config))) (boot_world client_env))"

lemma client_env_simps [simp]:
  "psa client_env = psa demo_sec1_env" "wifi client_env = ok_wifi" "malloc_ok (kern client_env) h n" "cfg client_env = ok_cfg"
  "uninit (kern client_env) = uninit ok_kern" "session_codec client_env = tagged_session" "config_codec client_env = tagged_config"
  by (simp_all add: client_env_def demo_sec1_env_def ok_env_def ok_kern_def)

lemma client_env_laws: "buffer_laws client_env" "config_ok client_env" "connects_accepted client_env" "wifi_iface_of client_env h = Some 1"
  "keys_agree client_env demo_dh (\<lambda>_. replicate 32 9) pk"
  by (simp_all add: buffer_laws_def responses_nonempty_def app_nonempty_def encodes_def config_ok_def connects_accepted_def wifi_iface_of_def
      ok_wifi_def ok_cfg_def keys_agree_def demo_dh_def demo_sec1_env_def ok_psa_def)
    (simp_all add: client_env_def tagged_config_def byte_codec_def)

lemma client_stacks_work: "stacks_work client_env demo_dh demo_sha demo_aes (replicate 32 1) demo_cmd"
proof -
  have "psa_laws client_env demo_dh demo_sha demo_aes" "psa_succeeds client_env"
    using demo_psa_laws demo_psa_succeeds by (simp_all add: psa_laws_def psa_succeeds_def)
  moreover have "carries tagged_session (cmd0 pk)" "length pub = 32 \<Longrightarrow> carries tagged_session (resp0 pub iv)"
    "carries tagged_session (cmd1 v)" "carries tagged_session (resp1 v)" for pk pub iv v
    by (simp_all add: carries_def tagged_session_def Let_def cmd0_def resp0_def cmd1_def resp1_def)
  moreover have "carries tagged_config (set_config demo_cmd)" "carries tagged_config set_config_ok" "carries tagged_config apply_config"
    "carries tagged_config apply_config_ok"
    by (simp_all add: carries_def tagged_config_def set_config_def set_config_ok_def apply_config_def apply_config_ok_def)
  ultimately show ?thesis
    by (simp add: stacks_work_def carries_provisioning_def ok_kern_def)
qed

lemma client_ready_state: "reachable client_env client_ready" "fresh client_ready" "inited (mgr client_ready)" "\<not> started (mgr client_ready)"
proof -
  show "reachable client_env client_ready"
    unfolding client_ready_def
    by (rule reachable.step [OF reachable.boot], rule prog_step.intros [of "Api (Mgr_init demo_config)"]) (simp_all add: prod_eq_iff)
  have "wp (event_run client_env (Api (Mgr_init demo_config))) (\<lambda>_ s. fresh s \<and> inited (mgr s) \<and> \<not> started (mgr s)) (boot_world client_env)"
    by (simp add: network_prov_mgr_init_def demo_config_def boot_world_def mgr_zero_def view_def, simp add: client_env_def ok_kern_def)
  then show "fresh client_ready" "inited (mgr client_ready)" "\<not> started (mgr client_ready)"
    by (simp_all add: client_ready_def wp_sel)
qed

lemma client_start: "wp (network_prov_mgr_start_provisioning client_env NETWORK_PROV_SECURITY_1 (Some ''abcd'') None None) (\<lambda>r _. r = 0) client_ready"
proof -
  have "wp (do { network_prov_mgr_init client_env demo_config;
      network_prov_mgr_start_provisioning client_env NETWORK_PROV_SECURITY_1 (Some ''abcd'') None None }) (\<lambda>r _. r = 0) (boot_world client_env)"
    by (simp add: network_prov_mgr_init_def demo_config_def client_env_def demo_sec1_env_def ok_env_def ok_kern_def ok_cfg_def boot_world_def
        mgr_zero_def network_prov_mgr_start_provisioning_def protocomm_new_def build_version_json_def Let_def start_service_def
        protocomm_set_version_def protocomm_set_security_def add_ep_def find_ep_def empty_protocomm_def net_endpoints_init_def
        network_prov_wifi_scan_init_def network_prov_wifi_config_init_def protocomm_add_endpoint_def no_custom_def
        console_scheme_start_def network_prov_console_start_def upt_rec numeral_3_eq_3 strncpy_z_def)
  then show ?thesis by (simp add: client_ready_def forget_def wp_sel split_def)
qed

lemma run_result: "wp (network_prov_mgr_start_provisioning E NETWORK_PROV_SECURITY_1 popv name key) (\<lambda>r _. r = 0) s \<Longrightarrow>
    wp (provisioning_run E popv name key pk ck aes cmd) (\<lambda>(r, _) _. r = 0) s"
  unfolding provisioning_run_def wp_bind by (elim wp_mono) (auto simp: wp_def split: option.split prod.splits)

theorem client_provisions_device_witness:
  "wp (provisioning_run client_env (Some ''abcd'') None None (replicate 32 1) (client_key (\<lambda>_. replicate 32 9) demo_sha (Some ''abcd'')) demo_aes demo_cmd)
    (\<lambda>(r, ok) t. r = 0 \<and> ok \<and> configured 1 demo_cmd (hist t) \<and> sta_state (wc t) = WifiSta_Connected \<and> sem_given Mgr_done (hist t) \<and>
      app_events (hist t) = [NETWORK_PROV_CRED_SUCCESS, NETWORK_PROV_CRED_RECV, NETWORK_PROV_START, NETWORK_PROV_INIT]) client_ready"
proof -
  have "cmd_valid demo_cmd" "pop_fits (Some ''abcd'')" "cred_set_personal_ret (wifi client_env) h (credential_of demo_cmd) = 0" for h
    by (simp_all add: demo_cmd_def cmd_valid_def pop_fits_def ok_wifi_def credential_of_def)
  then show ?thesis
    using wp_conj [OF run_result [OF client_start] client_provisions_device [where popv = "Some ''abcd''" and name = None and key = None, OF client_ready_state(1) client_env_laws(2,1)
      client_ready_state(2-4) _ client_stacks_work _ _ client_env_laws(5) _ client_env_laws(4,3)]]
    by (auto simp: ok_cfg_def elim!: wp_mono split: if_splits)
qed

end
