(* ===== verification/Preemption.thy ===== *)
theory Preemption
  imports Prov_Prelude
begin

text \<open>
  Preemption inside functions. A \<open>task\<close> is a C function cut into the steps that the hardware performs at
  once: what it does next and, depending on what it read, what remains. \<open>run_all\<close> runs a task without
  interruption, so that a task can be compared with the program of the function it was cut from. The
  relation \<open>preempt\<close> lets any number of tasks run in any interleaving, with new ones starting at any time.
  \<open>keeps_faith\<close> is a rely-guarantee judgement for one task: between its steps the task may rely on an
  assertion that the other tasks keep, and it may hold credits, which it obtains and spends by changing a
  potential of the shared state. The locale \<open>preemptive\<close> derives from it what holds in every interleaving.
\<close>

section \<open>Tasks\<close>

datatype ('s, 'r) task = Returned 'r | Atomic "('s, ('s, 'r) task) state"

text \<open>One step \<open>m\<close>, and what follows on its result.\<close>

definition act :: "('s, 'a) state \<Rightarrow> ('a \<Rightarrow> ('s, 'r) task) \<Rightarrow> ('s, 'r) task" where
  "act m k = Atomic (do { a \<leftarrow> m; ret (k a) })"

primrec run_all :: "('s, 'r) task \<Rightarrow> ('s, 'r) state" where
  "run_all (Returned r) = ret r"
| "run_all (Atomic m) = State_Monad.bind (map_state run_all m) id"

lemma map_state_bind: "map_state f (State_Monad.bind m (\<lambda>a. ret (k a))) = State_Monad.bind m (\<lambda>a. ret (f (k a)))"
  by (simp add: State_Monad.bind_def State_Monad.return_def map_prod_def fun_eq_iff comp_def split: prod.split)

lemma run_all_act [simp]: "run_all (act m k) = do { a \<leftarrow> m; run_all (k a) }"
  by (simp add: act_def map_state_bind)

lemma run_all_if [simp]: "run_all (if b then t else u) = (if b then run_all t else run_all u)"
  by simp

lemma run_all_case_option [simp]:
  "run_all (case x of None \<Rightarrow> t | Some y \<Rightarrow> f y) = (case x of None \<Rightarrow> run_all t | Some y \<Rightarrow> run_all (f y))"
  by (simp split: option.split)

lemma wp_cong: "(\<And>a s'. Q a s' = Q' a s') \<Longrightarrow> wp m Q s = wp m Q' s"
  by (simp add: wp_def split: prod.split)

lemma program_eqI: "(\<And>Q s. wp m Q s = wp n Q s) \<Longrightarrow> m = n"
  by (rule state.expand) (auto intro: wp_eq_run)

section \<open>Interleavings\<close>

text \<open>The tasks that run, and the state they share. Any task of \<open>T\<close> may start, and any running task may do its
  next step.\<close>

inductive preempt :: "('s, 'r) task set \<Rightarrow> ('s, 'r) task list \<times> 's \<Rightarrow> ('s, 'r) task list \<times> 's \<Rightarrow> bool" for T where
  start: "t \<in> T \<Longrightarrow> preempt T (ts, s) (ts @ [t], s)"
| step: "i < length ts \<Longrightarrow> ts ! i = Atomic m \<Longrightarrow> run_state m s = (t', s') \<Longrightarrow> preempt T (ts, s) (ts[i := t'], s')"

inductive preempted :: "('s, 'r) task set \<Rightarrow> ('s, 'r) task list \<times> 's \<Rightarrow> ('s, 'r) task list \<times> 's \<Rightarrow> bool" for T c0 where
  none: "preempted T c0 c0"
| more: "preempted T c0 c \<Longrightarrow> preempt T c c' \<Longrightarrow> preempted T c0 c'"

inductive_cases preemptE: "preempt T (ts, s) c"

text \<open>A schedule says which task does its next step; \<open>along is c Q\<close>: following it from \<open>c\<close> leads to \<open>Q\<close>.\<close>

fun along :: "nat list \<Rightarrow> ('s, 'r) task list \<times> 's \<Rightarrow> (('s, 'r) task list \<times> 's \<Rightarrow> bool) \<Rightarrow> bool" where
  "along [] c Q = Q c"
| "along (i # is) (ts, s) Q =
    (i < length ts \<and> (case ts ! i of Returned r \<Rightarrow> False | Atomic m \<Rightarrow> wp m (\<lambda>t s'. along is (ts[i := t], s') Q) s))"

lemma along_act [simp]: "(case act m k of Returned r \<Rightarrow> f r | Atomic n \<Rightarrow> wp n Q s) = wp m (\<lambda>a. Q (k a)) s"
  by (simp add: act_def)

text \<open>For the evaluation of schedules: what follows a step is only unfolded when the step is done.\<close>

lemma act_cong: "m = m' \<Longrightarrow> act m k = act m' k"
  and wp_step_cong: "m = m' \<Longrightarrow> s = s' \<Longrightarrow> wp m Q s = wp m' Q s'"
  by simp_all

lemmas schedule_cong = act_cong wp_step_cong

lemma preempted_start: "set ts \<subseteq> T \<Longrightarrow> preempted T (us, s) (us @ ts, s)"
proof (induction ts rule: rev_induct)
  case Nil
  then show ?case by (simp add: preempted.none)
next
  case (snoc t ts)
  then have "preempted T (us, s) (us @ ts, s)" "t \<in> T" by auto
  then have "preempted T (us, s) ((us @ ts) @ [t], s)" by (rule preempted.more [OF _ preempt.start])
  then show ?case by simp
qed

lemma preempted_along:
  assumes "preempted T c0 (ts, u)" "along is (ts, u) Q"
  shows "\<exists>c. preempted T c0 c \<and> Q c"
  using assms
proof (induction "is" arbitrary: ts u)
  case (Cons i "is")
  from Cons.prems(2) obtain m where m: "i < length ts" "ts ! i = Atomic m"
    and rest: "along is (ts[i := fst (run_state m u)], snd (run_state m u)) Q"
    by (auto simp: wp_sel split: task.splits)
  show ?case
    by (rule Cons.IH [OF preempted.more [OF Cons.prems(1) preempt.step [OF m]] rest]) simp
qed auto

lemma schedule_reaches: "along is (us @ ts, s) Q \<Longrightarrow> set ts \<subseteq> T \<Longrightarrow> \<exists>c. preempted T (us, s) c \<and> Q c"
  by (rule preempted_along [OF preempted_start])

lemma schedule_reaches_alone: "along is (ts, s) Q \<Longrightarrow> set ts \<subseteq> T \<Longrightarrow> \<exists>c. preempted T ([], s) c \<and> Q c"
  using schedule_reaches [of "is" "[]" ts] by simp

text \<open>A task that is there from the beginning does not get in the way.\<close>

lemma preempted_beside: "preempted T (ts, s) (ts', s') \<Longrightarrow> preempted T (u # ts, s) (u # ts', s')"
proof (induction "(ts', s')" arbitrary: ts' s' rule: preempted.induct)
  case none
  then show ?case by (simp add: preempted.none)
next
  case (more c)
  obtain us r where c: "c = (us, r)" by (cases c)
  from more(3) [unfolded c] have "preempt T (u # us, r) (u # ts', s')"
  proof cases
    case (start t)
    then show ?thesis using preempt.start [of t T "u # us" r] by simp
  next
    case (step i m t')
    then show ?thesis using preempt.step [of "Suc i" "u # us" m r t' s' T] by simp
  qed
  with more(2) [OF c] show ?case by (rule preempted.more)
qed

section \<open>Rely and guarantee\<close>

definition stable_under :: "('s \<Rightarrow> 's \<Rightarrow> bool) \<Rightarrow> ('s \<Rightarrow> bool) \<Rightarrow> bool" where
  "stable_under R P \<longleftrightarrow> (\<forall>s s'. R s s' \<longrightarrow> P s \<longrightarrow> P s')"

text \<open>\<open>keeps_faith I R G \<phi> P n t\<close>: with the assertion \<open>P\<close> and \<open>n\<close> credits, every step of \<open>t\<close> keeps the invariant \<open>I\<close>,
  is one of the steps \<open>G\<close> that the task guarantees, and pays for what it adds to the potential \<open>\<phi>\<close>.\<close>

inductive keeps_faith ::
  "('s \<Rightarrow> bool) \<Rightarrow> ('s \<Rightarrow> 's \<Rightarrow> bool) \<Rightarrow> ('s \<Rightarrow> 's \<Rightarrow> bool) \<Rightarrow> ('s \<Rightarrow> int) \<Rightarrow> ('s \<Rightarrow> bool) \<Rightarrow> nat \<Rightarrow> ('s, 'r) task \<Rightarrow> bool"
  for I R G \<phi> where
  returned: "stable_under R P \<Longrightarrow> keeps_faith I R G \<phi> P n (Returned r)"
| atomic: "stable_under R P \<Longrightarrow>
    (\<And>s t' s'. I s \<Longrightarrow> P s \<Longrightarrow> run_state m s = (t', s') \<Longrightarrow> I s' \<and> G s s' \<and>
      (\<exists>P' n'. P' s' \<and> keeps_faith I R G \<phi> P' n' t' \<and> \<phi> s' + int n' \<le> \<phi> s + int n)) \<Longrightarrow>
    keeps_faith I R G \<phi> P n (Atomic m)"

lemma faith_stepD:
  assumes "keeps_faith I R G \<phi> P n (Atomic m)" "I s" "P s" "run_state m s = (t', s')"
  shows "I s' \<and> G s s' \<and> (\<exists>P' n'. P' s' \<and> keeps_faith I R G \<phi> P' n' t' \<and> \<phi> s' + int n' \<le> \<phi> s + int n)"
  using assms(1)
proof cases
  case atomic
  show ?thesis by (rule atomic(2) [OF assms(2-4)])
qed

lemma faith_act:
  assumes "stable_under R P"
    and "\<And>s. I s \<Longrightarrow> P s \<Longrightarrow> wp m (\<lambda>a s'. I s' \<and> G s s' \<and>
      (\<exists>P' n'. P' s' \<and> keeps_faith I R G \<phi> P' n' (k a) \<and> \<phi> s' + int n' \<le> \<phi> s + int n)) s"
  shows "keeps_faith I R G \<phi> P n (act m k)"
  unfolding act_def
proof (rule keeps_faith.atomic [OF assms(1)])
  fix s t' s'
  assume "I s" "P s" and "run_state (do { a \<leftarrow> m; ret (k a) }) s = (t', s')"
  with assms(2) [of s] show "I s' \<and> G s s' \<and>
      (\<exists>P' n'. P' s' \<and> keeps_faith I R G \<phi> P' n' t' \<and> \<phi> s' + int n' \<le> \<phi> s + int n)"
    by (auto simp: wp_def split: prod.splits)
qed

text \<open>A step after which the task relies on \<open>P' a\<close> with \<open>n'\<close> credits, where \<open>a\<close> is its result.\<close>

lemma faith_assert:
  assumes "stable_under R P"
    and step: "\<And>s. I s \<Longrightarrow> P s \<Longrightarrow> wp m (\<lambda>a s'. I s' \<and> G s s' \<and> P' a s' \<and> \<phi> s' + int n' \<le> \<phi> s + int n) s"
    and rest: "\<And>a s. I s \<Longrightarrow> P' a s \<Longrightarrow> keeps_faith I R G \<phi> (P' a) n' (k a)"
  shows "keeps_faith I R G \<phi> P n (act m k)"
proof (rule faith_act [OF assms(1)])
  fix s assume s: "I s" "P s"
  show "wp m (\<lambda>a s'. I s' \<and> G s s' \<and>
      (\<exists>P' n'. P' s' \<and> keeps_faith I R G \<phi> P' n' (k a) \<and> \<phi> s' + int n' \<le> \<phi> s + int n)) s"
  proof (rule wp_mono [OF step [OF s]])
    fix a s' assume "I s' \<and> G s s' \<and> P' a s' \<and> \<phi> s' + int n' \<le> \<phi> s + int n"
    with rest [of s' a] show "I s' \<and> G s s' \<and>
      (\<exists>P' n'. P' s' \<and> keeps_faith I R G \<phi> P' n' (k a) \<and> \<phi> s' + int n' \<le> \<phi> s + int n)"
      by blast
  qed
qed

lemma faith_stable: "keeps_faith I R G \<phi> P n t \<Longrightarrow> stable_under R P"
  by (auto elim: keeps_faith.cases)

section \<open>Every interleaving\<close>

text \<open>One task \<open>u\<close> that runs from the beginning, as a thread that handles its events one after the other, beside any
  number of tasks of \<open>T\<close>. Each side relies on what the other guarantees.\<close>

locale preemptive_thread =
  fixes u :: "('s, 'r) task" and T :: "('s, 'r) task set" and I :: "'s \<Rightarrow> bool"
    and Ru Gu R G :: "'s \<Rightarrow> 's \<Rightarrow> bool" and \<phi> :: "'s \<Rightarrow> int"
  assumes thread: "keeps_faith I Ru Gu \<phi> (\<lambda>_. True) 0 u"
    and tasks: "t \<in> T \<Longrightarrow> keeps_faith I R G \<phi> (\<lambda>_. True) 0 t"
    and compatible: "G s s' \<Longrightarrow> Ru s s' \<and> R s s'" "Gu s s' \<Longrightarrow> R s s'"
begin

definition rely :: "nat \<Rightarrow> 's \<Rightarrow> 's \<Rightarrow> bool" where
  "rely i = (if i = 0 then Ru else R)"

definition guarantee :: "nat \<Rightarrow> 's \<Rightarrow> 's \<Rightarrow> bool" where
  "guarantee i = (if i = 0 then Gu else G)"

lemma others_rely: "guarantee i s s' \<Longrightarrow> i \<noteq> j \<Longrightarrow> rely j s s'"
  using compatible by (auto simp: rely_def guarantee_def split: if_splits)

text \<open>Every running task has an assertion that holds and credits that the potential leaves.\<close>

definition balanced :: "('s, 'r) task list \<times> 's \<Rightarrow> bool" where
  "balanced c \<longleftrightarrow> (\<exists>Ps ns. length Ps = length (fst c) \<and> length ns = length (fst c) \<and> fst c \<noteq> [] \<and> I (snd c) \<and>
     (\<forall>i < length (fst c). (Ps ! i) (snd c) \<and> keeps_faith I (rely i) (guarantee i) \<phi> (Ps ! i) (ns ! i) (fst c ! i)) \<and>
     \<phi> (snd c) + int (sum_list ns) \<le> 0)"

lemma sum_list_pay:
  assumes "i < length ns"
  shows "int (sum_list (ns[i := n])) = int (sum_list ns) + int n - int (ns ! i)"
  using elem_le_sum_list [OF assms] by (simp add: sum_list_update [OF assms] of_nat_diff)

lemma balanced_start:
  assumes "balanced (ts, s)" "t \<in> T"
  shows "balanced (ts @ [t], s)"
proof -
  from assms(1) obtain Ps ns where "length Ps = length ts" "length ns = length ts" "ts \<noteq> []" "I s"
    "\<forall>i < length ts. (Ps ! i) s \<and> keeps_faith I (rely i) (guarantee i) \<phi> (Ps ! i) (ns ! i) (ts ! i)"
    "\<phi> s + int (sum_list ns) \<le> 0"
    by (auto simp: balanced_def)
  moreover from this(3) have "keeps_faith I (rely (length ts)) (guarantee (length ts)) \<phi> (\<lambda>_. True) 0 t"
    using tasks [OF assms(2)] by (simp add: rely_def guarantee_def)
  ultimately show ?thesis
    by (auto simp: balanced_def nth_append less_Suc_eq intro!: exI [of _ "Ps @ [\<lambda>_. True]"] exI [of _ "ns @ [0]"])
qed

lemma balanced_step:
  assumes "balanced (ts, s)" "i < length ts" "ts ! i = Atomic m" "run_state m s = (t', s')"
  shows "balanced (ts[i := t'], s')"
proof -
  from assms(1) obtain Ps ns where len: "length Ps = length ts" "length ns = length ts" and I: "I s"
    and each: "\<And>j. j < length ts \<Longrightarrow> (Ps ! j) s \<and> keeps_faith I (rely j) (guarantee j) \<phi> (Ps ! j) (ns ! j) (ts ! j)"
    and pot: "\<phi> s + int (sum_list ns) \<le> 0"
    by (auto simp: balanced_def)
  have "keeps_faith I (rely i) (guarantee i) \<phi> (Ps ! i) (ns ! i) (Atomic m)" "(Ps ! i) s"
    using each [OF assms(2)] assms(3) by auto
  from faith_stepD [OF this(1) I this(2) assms(4)] obtain P' n' where
    new: "I s'" "guarantee i s s'" "P' s'" "keeps_faith I (rely i) (guarantee i) \<phi> P' n' t'"
      "\<phi> s' + int n' \<le> \<phi> s + int (ns ! i)"
    by blast
  have others: "(Ps ! j) s'" if "j < length ts" "j \<noteq> i" for j
    using faith_stable each [OF that(1)] others_rely [OF new(2)] that(2) by (metis stable_under_def)
  show ?thesis unfolding balanced_def fst_conv snd_conv
    by (intro exI [of _ "Ps[i := P']"] exI [of _ "ns[i := n']"])
      (use len new each others pot assms(2) in \<open>auto simp: nth_list_update sum_list_pay\<close>)
qed

lemma thread_interleavings_safe:
  assumes "preempted T ([u], s) (ts, s')" "I s" "\<phi> s \<le> 0"
  shows "I s' \<and> \<phi> s' \<le> 0"
proof -
  have "balanced c" if "preempted T ([u], s) c" for c
    using that
  proof induction
    case none
    show ?case unfolding balanced_def using thread assms(2,3)
      by (auto simp: rely_def guarantee_def intro!: exI [of _ "[\<lambda>_. True]"] exI [of _ "[0]"])
  next
    case (more c c')
    from more(2,3) show ?case by cases (auto intro: balanced_start balanced_step)
  qed
  from this [OF assms(1)] show ?thesis by (auto simp: balanced_def)
qed

end

text \<open>Tasks only.\<close>

locale preemptive =
  fixes T :: "('s, 'r) task set" and I :: "'s \<Rightarrow> bool" and R :: "'s \<Rightarrow> 's \<Rightarrow> bool" and \<phi> :: "'s \<Rightarrow> int"
  assumes alike: "t \<in> T \<Longrightarrow> keeps_faith I R R \<phi> (\<lambda>_. True) 0 t"

sublocale preemptive < alone: preemptive_thread "Returned undefined" T I R R R R \<phi>
  by unfold_locales (auto intro: alike keeps_faith.returned simp: stable_under_def)

context preemptive
begin

lemma interleavings_safe:
  assumes "preempted T ([], s) (ts, s')" "I s" "\<phi> s \<le> 0"
  shows "I s' \<and> \<phi> s' \<le> 0"
  by (rule alone.thread_interleavings_safe [OF preempted_beside [OF assms(1)] assms(2,3)])

end

end
