(* ===== verification/Thread_Race.thy ===== *)
theory Thread_Race
  imports Preemption Thread_Ctrl
begin

text \<open>
  The functions of thread_config_handler.c and thread_ctrl_handler.c cut into the steps between which another
  thread may run: the request (transport thread), the state callback (OpenThread thread), the attach timeout
  (system work queue) and the calls of the application. A step is one access to a variable of \<open>tc\<close> or \<open>mgr\<close>
  or one call out of the program; \<open>atomic_cas\<close> is one step; \<open>memset\<close>, \<open>memcpy\<close> and the encoding of a message
  into a fresh buffer are taken as one step each. The mutex of OpenThread is left without effect here, so that the
  interleavings it excludes are among those covered.
\<close>

section \<open>The functions in steps\<close>

type_synonym 'r steps = "(world, 'r) task"

text \<open>\<open>network_prov_emit_event\<close> of network_prov_mgr.c.\<close>

definition emit_task :: "env \<Rightarrow> network_prov_cb_event \<Rightarrow> 'r steps \<Rightarrow> 'r steps" where
  "emit_task E ev k =
    act (gets (\<lambda>s. event_cb (mgr s))) (\<lambda>cb.
    act (if_do cb (ext_call (App (App_event ev)))) (\<lambda>_.
    if ev = NETWORK_PROV_CRED_SUCCESS
    then act (ext_call (Kern (K_sem_give Mgr_done))) (\<lambda>_.
         act (gets (\<lambda>s. started (mgr s))) (\<lambda>st.
         act (gets (\<lambda>s. auto_stop (mgr s))) (\<lambda>auto.
         act (if_do (st \<and> auto) (ext_call (Kern (K_work_schedule Teardown_work (AUTOSTOP_TIMEOUT_MS (cfg E)))))) (\<lambda>_. k))))
    else k))"

definition on_attached_task :: "env \<Rightarrow> 'r steps \<Rightarrow> 'r steps" where
  "on_attached_task E k =
    act claim_pending (\<lambda>won.
    if \<not> won then k
    else act (upd_tc (\<lambda>t. t\<lparr>tc_state := Thread_Attached\<rparr>)) (\<lambda>_.
         act (ext_call (Kern (K_work_cancel Attach_timeout))) (\<lambda>_.
         emit_task E NETWORK_PROV_CRED_SUCCESS k)))"

definition attach_timeout_task :: "env \<Rightarrow> 'r steps \<Rightarrow> 'r steps" where
  "attach_timeout_task E k =
    act claim_pending (\<lambda>won.
    if \<not> won then k
    else act (upd_tc (\<lambda>t. t\<lparr>tc_state := Thread_AttachingFailed\<rparr>)) (\<lambda>_.
         act (upd_tc (\<lambda>t. t\<lparr>tc_fail_reason := ThreadNetworkNotFound\<rparr>)) (\<lambda>_.
         emit_task E (NETWORK_PROV_CRED_FAIL NETWORK_PROV_WIFI_NETWORK_NOT_FOUND) k)))"

text \<open>The kernel takes the work item off its queue and calls it.\<close>

definition run_attach_timeout_task :: "env \<Rightarrow> 'r steps \<Rightarrow> 'r steps" where
  "run_attach_timeout_task E k = act (ext_call (Kern (K_work_run Attach_timeout))) (\<lambda>_. attach_timeout_task E k)"

definition ot_state_changed_task :: "env \<Rightarrow> bool \<Rightarrow> 'r steps \<Rightarrow> 'r steps" where
  "ot_state_changed_task E role_changed k =
    (if \<not> role_changed then k
     else act (gets (\<lambda>s. otThreadGetDeviceRole (ot E) (hist s))) (\<lambda>role.
          if role_is_attached role then on_attached_task E k else k))"

definition thread_config_init_task :: "env \<Rightarrow> (int \<Rightarrow> 'r steps) \<Rightarrow> 'r steps" where
  "thread_config_init_task E k =
    act (upd_tc (\<lambda>_. tc_zero)) (\<lambda>_.
    act (upd_tc (\<lambda>t. t\<lparr>tc_state := Thread_Dettached\<rparr>)) (\<lambda>_.
    act (ext_call (Kern (K_work_init Attach_timeout))) (\<lambda>_.
    act (ask (ot_callback_register_ret (ot E)) (\<lambda>_. Ot Ot_callback_register)) (\<lambda>r.
    if r \<noteq> 0 then k r
    else act (upd_tc (\<lambda>t. t\<lparr>tc_cb_registered := True\<rparr>)) (\<lambda>_. k 0)))))"

definition thread_config_deinit_task :: "'r steps \<Rightarrow> 'r steps" where
  "thread_config_deinit_task k =
    act (ext_call (Kern (K_work_cancel Attach_timeout))) (\<lambda>_.
    act (gets (\<lambda>s. tc_cb_registered (tc s))) (\<lambda>reg.
    if reg
    then act (ext_call (Ot Ot_callback_unregister)) (\<lambda>_.
         act (upd_tc (\<lambda>t. t\<lparr>tc_cb_registered := False\<rparr>)) (\<lambda>_. k))
    else k))"

definition thread_config_reset_task :: "env \<Rightarrow> 'r steps \<Rightarrow> 'r steps" where
  "thread_config_reset_task E k =
    act (ext_call (Kern (K_work_cancel Attach_timeout))) (\<lambda>_.
    act (upd_tc (\<lambda>t. t\<lparr>dataset_staged := False\<rparr>)) (\<lambda>_.
    act (upd_tc (\<lambda>t. t\<lparr>pending := False\<rparr>)) (\<lambda>_.
    act (upd_tc (\<lambda>t. t\<lparr>tc_state := Thread_Dettached\<rparr>)) (\<lambda>_.
    act (upd_tc (\<lambda>t. t\<lparr>tc_mTlvs := zeros OT_DATASET_MAX, tc_mLength := 0\<rparr>)) (\<lambda>_.
    act (ext_call (Ot Ot_mutex_lock)) (\<lambda>_.
    act (ask (\<lambda>h. otThreadSetEnabled (ot E) h False) (\<lambda>_. Ot (Ot_thread_set_enabled False))) (\<lambda>_.
    act (ext_call (Ot Ot_mutex_unlock)) (\<lambda>_. k))))))))"

definition thread_config_erase_task :: "env \<Rightarrow> (int \<Rightarrow> 'r steps) \<Rightarrow> 'r steps" where
  "thread_config_erase_task E k =
    act (ext_call (Kern (K_work_cancel Attach_timeout))) (\<lambda>_.
    act (upd_tc (\<lambda>t. t\<lparr>dataset_staged := False\<rparr>)) (\<lambda>_.
    act (upd_tc (\<lambda>t. t\<lparr>pending := False\<rparr>)) (\<lambda>_.
    act (upd_tc (\<lambda>t. t\<lparr>tc_state := Thread_Dettached\<rparr>)) (\<lambda>_.
    act (ext_call (Ot Ot_mutex_lock)) (\<lambda>_.
    act (ask (\<lambda>h. otThreadSetEnabled (ot E) h False) (\<lambda>_. Ot (Ot_thread_set_enabled False))) (\<lambda>_.
    act (ask (otInstanceErasePersistentInfo (ot E)) (\<lambda>_. Ot Ot_erase_persistent_info)) (\<lambda>err.
    act (ext_call (Ot Ot_mutex_unlock)) (\<lambda>_.
    k (if err \<noteq> 0 then - EIO else 0)))))))))"

text \<open>The first half of \<open>do_apply_config\<close>: OpenThread reads the dataset in the call that it is handed to.\<close>

definition commit_dataset_task :: "env \<Rightarrow> (int \<Rightarrow> 'r steps) \<Rightarrow> 'r steps" where
  "commit_dataset_task E k =
    act (ext_call (Ot Ot_mutex_lock)) (\<lambda>_.
    act (do { ds \<leftarrow> gets (\<lambda>s. take (tc_mLength (tc s)) (tc_mTlvs (tc s)));
              ask (\<lambda>h. otDatasetSetActiveTlvs (ot E) h ds) (\<lambda>_. Ot (Ot_dataset_set_active ds)) }) (\<lambda>err.
    if err = 0
    then act (ext_call (Ot (Ot_ip6_set_enabled True))) (\<lambda>_.
         act (ask (\<lambda>h. otThreadSetEnabled (ot E) h True) (\<lambda>_. Ot (Ot_thread_set_enabled True))) (\<lambda>err.
         act (ext_call (Ot Ot_mutex_unlock)) (\<lambda>_. k err)))
    else act (ext_call (Ot Ot_mutex_unlock)) (\<lambda>_. k err)))"

definition do_apply_config_task :: "env \<Rightarrow> (Status \<Rightarrow> 'r steps) \<Rightarrow> 'r steps" where
  "do_apply_config_task E k =
    act (gets (\<lambda>s. dataset_staged (tc s))) (\<lambda>staged.
    if \<not> staged then k Status_InvalidArgument
    else commit_dataset_task E (\<lambda>err.
      if err \<noteq> 0
      then act (upd_tc (\<lambda>t. t\<lparr>tc_state := Thread_AttachingFailed\<rparr>)) (\<lambda>_.
           act (upd_tc (\<lambda>t. t\<lparr>tc_fail_reason := DatasetInvalid\<rparr>)) (\<lambda>_.
           emit_task E NETWORK_PROV_CRED_RECV
             (emit_task E (NETWORK_PROV_CRED_FAIL NETWORK_PROV_WIFI_AUTH_ERROR) (k Status_Success))))
      else emit_task E NETWORK_PROV_CRED_RECV
          (act (upd_tc (\<lambda>t. t\<lparr>tc_state := Thread_Attaching\<rparr>)) (\<lambda>_.
           act (upd_tc (\<lambda>t. t\<lparr>pending := True\<rparr>)) (\<lambda>_.
           act (ext_call (Ot Ot_mutex_lock)) (\<lambda>_.
           act (ask (otThreadGetDeviceRole (ot E)) (\<lambda>_. Ot Ot_query)) (\<lambda>role.
           act (ext_call (Ot Ot_mutex_unlock)) (\<lambda>_.
           if role_is_attached role then on_attached_task E (k Status_Success)
           else act (ext_call (Kern (K_work_reschedule Attach_timeout ATTACH_TIMEOUT_MS))) (\<lambda>_. k Status_Success)))))))))"

definition do_set_config_task :: "bytes \<Rightarrow> (Status \<Rightarrow> 'r steps) \<Rightarrow> 'r steps" where
  "do_set_config_task dataset k =
    (if dataset = [] \<or> length dataset > OT_DATASET_MAX then k Status_InvalidArgument
     else act (upd_tc (\<lambda>t. t\<lparr>tc_mTlvs := memcpy (tc_mTlvs t) dataset\<rparr>)) (\<lambda>_.
          act (upd_tc (\<lambda>t. t\<lparr>tc_mLength := length dataset\<rparr>)) (\<lambda>_.
          act (upd_tc (\<lambda>t. t\<lparr>dataset_staged := True\<rparr>)) (\<lambda>_. k Status_Success))))"

definition set_and_apply_task :: "env \<Rightarrow> bytes option \<Rightarrow> (int \<Rightarrow> 'r steps) \<Rightarrow> 'r steps" where
  "set_and_apply_task E dataset k =
    (case dataset of
       None \<Rightarrow> k (- EINVAL)
     | Some ds \<Rightarrow>
        if ds = [] \<or> length ds > OT_DATASET_MAX then k (- EINVAL)
        else act (upd_tc (\<lambda>t. t\<lparr>tc_mTlvs := memcpy (tc_mTlvs t) ds\<rparr>)) (\<lambda>_.
             act (upd_tc (\<lambda>t. t\<lparr>tc_mLength := length ds\<rparr>)) (\<lambda>_.
             act (upd_tc (\<lambda>t. t\<lparr>dataset_staged := True\<rparr>)) (\<lambda>_.
             do_apply_config_task E (\<lambda>st. k (if st = Status_Success then 0 else - EIO))))))"

definition fill_attached_state_task :: "env \<Rightarrow> (ThreadAttachState \<Rightarrow> 'r steps) \<Rightarrow> 'r steps" where
  "fill_attached_state_task E k =
    act (ext_call (Ot Ot_mutex_lock)) (\<lambda>_.
    act (ask (otLinkGetPanId (ot E)) (\<lambda>_. Ot Ot_query)) (\<lambda>pan.
    act (ask (otLinkGetChannel (ot E)) (\<lambda>_. Ot Ot_query)) (\<lambda>ch.
    act (ask (otThreadGetExtendedPanId (ot E)) (\<lambda>_. Ot Ot_query)) (\<lambda>xpan.
    act (ask (otThreadGetNetworkName (ot E)) (\<lambda>_. Ot Ot_query)) (\<lambda>name.
    act (ext_call (Ot Ot_mutex_unlock)) (\<lambda>_.
    k \<lparr>tas_pan_id = ucast pan, tas_ext_pan_id = take 8 xpan, tas_channel = ucast ch,
       tas_name = strncpy_z 16 name\<rparr>))))))"

text \<open>\<open>encode_get_status\<close> reads \<open>tc.state\<close> up to three times.\<close>

definition encode_get_status_task :: "env \<Rightarrow> (int \<times> bytes option \<Rightarrow> 'r steps) \<Rightarrow> 'r steps" where
  "encode_get_status_task E k =
    act (gets (\<lambda>s. tc_state (tc s))) (\<lambda>st.
    let answer = (\<lambda>u. act (network_prov_pb_encode E (NetworkConfig_codec (nanopb E))
          \<lparr>config_msg = TypeRespGetThreadStatus, config_payload = Resp_get_thread_status Status_Success st u\<rparr>) k)
    in act (gets (\<lambda>s. tc_state (tc s))) (\<lambda>st2.
       if st2 = Thread_Attached then fill_attached_state_task E (\<lambda>a. answer (ThreadStatus_attached a))
       else act (gets (\<lambda>s. tc_state (tc s))) (\<lambda>st3.
            if st3 = Thread_AttachingFailed
            then act (gets (\<lambda>s. tc_fail_reason (tc s))) (\<lambda>fr. answer (ThreadStatus_fail_reason fr))
            else answer ThreadStatus_none)))"

definition thread_config_handler_task :: "env \<Rightarrow> bytes \<Rightarrow> (int \<times> bytes option \<Rightarrow> 'r steps) \<Rightarrow> 'r steps" where
  "thread_config_handler_task E inbuf k =
    (case pb_decode (NetworkConfig_codec (nanopb E)) inbuf of
       None \<Rightarrow> k (- EINVAL, None)
     | Some req \<Rightarrow>
       (case config_msg req of
          TypeCmdSetThreadConfig \<Rightarrow> do_set_config_task (cmd_set_thread_config E req)
            (\<lambda>st. act (thread_encode_simple E TypeRespSetThreadConfig st) k)
        | TypeCmdApplyThreadConfig \<Rightarrow> do_apply_config_task E
            (\<lambda>st. act (thread_encode_simple E TypeRespApplyThreadConfig st) k)
        | TypeCmdGetThreadStatus \<Rightarrow> encode_get_status_task E k
        | _ \<Rightarrow> k (- ENOTSUP, None)))"

definition thread_ctrl_handler_task :: "env \<Rightarrow> bytes \<Rightarrow> (int \<times> bytes option \<Rightarrow> 'r steps) \<Rightarrow> 'r steps" where
  "thread_ctrl_handler_task E inbuf k =
    (case pb_decode (NetworkCtrl_codec (nanopb E)) inbuf of
       None \<Rightarrow> k (- EINVAL, None)
     | Some req \<Rightarrow>
       (case ctrl_msg req of
          TypeCmdCtrlThreadReset \<Rightarrow> thread_config_reset_task E
            (act (network_prov_pb_encode E (NetworkCtrl_codec (nanopb E))
              \<lparr>ctrl_msg = TypeRespCtrlThreadReset, ctrl_status = Status_Success,
               ctrl_payload = Resp_ctrl_thread_reset\<rparr>) k)
        | TypeCmdCtrlThreadReprov \<Rightarrow> thread_config_reset_task E
            (act (network_prov_pb_encode E (NetworkCtrl_codec (nanopb E))
              \<lparr>ctrl_msg = TypeRespCtrlThreadReprov, ctrl_status = Status_Success,
               ctrl_payload = Resp_ctrl_thread_reprov\<rparr>) k)
        | _ \<Rightarrow> k (- ENOTSUP, None)))"

section \<open>Without preemption the steps are the functions\<close>

lemmas thread_task_defs = emit_task_def on_attached_task_def attach_timeout_task_def ot_state_changed_task_def
  thread_config_init_task_def thread_config_deinit_task_def thread_config_reset_task_def thread_config_erase_task_def
  commit_dataset_task_def do_apply_config_task_def do_set_config_task_def set_and_apply_task_def
  fill_attached_state_task_def encode_get_status_task_def

lemmas thread_run_defs = thread_task_defs thread_op_defs network_prov_emit_event_def
  network_prov_thread_config_set_and_apply_def thread_encode_get_status_def

lemma run_callbacks [simp]:
  "run_all (emit_task E ev k) = do { network_prov_emit_event E ev; run_all k }"
  "run_all (on_attached_task E k) = do { on_attached E; run_all k }"
  "run_all (attach_timeout_task E k) = do { attach_timeout_fn E; run_all k }"
  "run_all (run_attach_timeout_task E k) = do { run_attach_timeout E; run_all k }"
  "run_all (ot_state_changed_task E rc k) = do { ot_state_changed E rc; run_all k }"
  by (rule program_eqI, simp add: thread_run_defs run_attach_timeout_task_def run_attach_timeout_def)+

lemma run_calls [simp]:
  "run_all (thread_config_init_task E f) = do { r \<leftarrow> network_prov_thread_config_init E; run_all (f r) }"
  "run_all (thread_config_deinit_task k) = do { network_prov_thread_config_deinit; run_all k }"
  "run_all (thread_config_reset_task E k) = do { network_prov_thread_config_reset E; run_all k }"
  "run_all (thread_config_erase_task E f) = do { r \<leftarrow> network_prov_thread_config_erase E; run_all (f r) }"
  "run_all (do_set_config_task ds g) = do { st \<leftarrow> thread_do_set_config ds; run_all (g st) }"
  "run_all (commit_dataset_task E f) = do { r \<leftarrow> commit_dataset E; run_all (f r) }"
  "run_all (fill_attached_state_task E l) = do { a \<leftarrow> fill_attached_state E; run_all (l a) }"
  by (rule program_eqI, simp add: thread_run_defs)+

lemma run_apply [simp]:
  "run_all (do_apply_config_task E g) = do { st \<leftarrow> thread_do_apply_config E; run_all (g st) }"
  by (rule program_eqI) (auto simp: do_apply_config_task_def thread_do_apply_config_def intro!: wp_cong)

lemma run_set_and_apply [simp]:
  "run_all (set_and_apply_task E d f) = do { r \<leftarrow> network_prov_thread_config_set_and_apply E d; run_all (f r) }"
  by (rule program_eqI) (simp add: set_and_apply_task_def network_prov_thread_config_set_and_apply_def split: option.split)

lemma run_get_status [simp]:
  "run_all (encode_get_status_task E f) = do { r \<leftarrow> thread_encode_get_status E; run_all (f r) }"
  by (rule program_eqI) (auto simp: encode_get_status_task_def thread_encode_get_status_def Let_def intro!: wp_cong)

lemma run_handlers:
  "run_all (thread_config_handler_task E b Returned) = network_prov_thread_config_handler E b"
  "run_all (thread_ctrl_handler_task E b Returned) = network_prov_thread_ctrl_handler E b"
  by (rule program_eqI, simp add: thread_config_handler_task_def network_prov_thread_config_handler_def
      thread_ctrl_handler_task_def network_prov_thread_ctrl_handler_def
      split: option.split NetworkConfigMsgType.split NetworkCtrlMsgType.split)+

section \<open>Outcomes under preemption\<close>

text \<open>The potential: reported outcomes and the one that is pending, less the received credentials. A task that
  has claimed the pending outcome, or announced credentials, holds one credit.\<close>

definition owed :: "world \<Rightarrow> int" where
  "owed s = int (outcomes (hist s)) + (if pending (tc s) then 1 else 0) - int (recvs (hist s))"

abbreviation faithful :: "nat \<Rightarrow> 'r steps \<Rightarrow> bool" where
  "faithful \<equiv> keeps_faith (\<lambda>s. event_cb (mgr s)) (\<lambda>_ _. True) (\<lambda>_ _. True) owed (\<lambda>_. True)"

lemma faithful_returned [intro!]: "faithful n (Returned r)"
  by (rule keeps_faith.returned) (simp add: stable_under_def)

lemma faithful_act:
  assumes "\<And>s. event_cb (mgr s) \<Longrightarrow> wp m (\<lambda>a s'. event_cb (mgr s') \<and> (\<exists>n'. faithful n' (k a) \<and> owed s' + int n' \<le> owed s + int n)) s"
  shows "faithful n (act m k)"
  by (rule faith_act) (auto simp: stable_under_def intro!: wp_mono [OF assms] exI [of _ "\<lambda>_. True"])

text \<open>Steps that neither report nor claim.\<close>

definition unreported :: "'a prog \<Rightarrow> bool" where
  "unreported m \<longleftrightarrow> (\<forall>s. wp m (\<lambda>_ s'. event_cb (mgr s') = event_cb (mgr s) \<and> owed s' \<le> owed s) s)"

lemma faithful_silent:
  assumes "unreported m" "\<And>a. faithful n (k a)"
  shows "faithful n (act m k)"
proof (rule faithful_act)
  fix s :: world assume cb: "event_cb (mgr s)"
  from assms(1) have "wp m (\<lambda>_ s'. event_cb (mgr s') = event_cb (mgr s) \<and> owed s' \<le> owed s) s"
    by (simp add: unreported_def)
  then show "wp m (\<lambda>a s'. event_cb (mgr s') \<and> (\<exists>n'. faithful n' (k a) \<and> owed s' + int n' \<le> owed s + int n)) s"
    by (rule wp_mono) (use assms(2) cb in \<open>auto intro!: exI [of _ n]\<close>)
qed

lemma faithful_if: "(b \<Longrightarrow> faithful n t) \<Longrightarrow> (\<not> b \<Longrightarrow> faithful n u) \<Longrightarrow> faithful n (if b then t else u)"
  by simp

lemma unreported_steps [intro!]:
  "unreported (gets f)" "unreported (ext_call (Kern c))" "unreported (ext_call (Ot d))" "unreported (ask r (\<lambda>x. Ot (g x)))"
  "unreported (upd_tc (\<lambda>t. t\<lparr>tc_state := st\<rparr>))" "unreported (upd_tc (\<lambda>t. t\<lparr>tc_fail_reason := fr\<rparr>))"
  "unreported (upd_tc (\<lambda>t. t\<lparr>tc_cb_registered := b\<rparr>))" "unreported (upd_tc (\<lambda>t. t\<lparr>dataset_staged := b\<rparr>))"
  "unreported (upd_tc (\<lambda>t. t\<lparr>tc_mTlvs := h t\<rparr>))" "unreported (upd_tc (\<lambda>t. t\<lparr>tc_mLength := n\<rparr>))"
  "unreported (upd_tc (\<lambda>t. t\<lparr>tc_mTlvs := v, tc_mLength := n\<rparr>))"
  "unreported (upd_tc (\<lambda>t. t\<lparr>pending := False\<rparr>))" "unreported (upd_tc (\<lambda>_. tc_zero))"
  "unreported (do { d \<leftarrow> gets f; ask (r' d) (\<lambda>x. Ot (g' d x)) })"
  by (simp_all add: unreported_def owed_def tc_zero_def)

lemma unreported_encode [intro!]: "unreported (network_prov_pb_encode E c m)"
  unfolding unreported_def
  by (auto intro!: wp_mono [OF pb_encode_spec] elim!: only_histE
      simp: pb_post_def owed_def recvs_def outcomes_def heap_only_readings)

lemma unreported_encode_simple [intro!]: "unreported (thread_encode_simple E ty st)"
  unfolding thread_encode_simple_def by (rule unreported_encode)

text \<open>The steps that do.\<close>

lemma faithful_emit:
  assumes "faithful n' k" "n' + (if is_outcome ev then 1 else 0) \<le> n + (if ev = NETWORK_PROV_CRED_RECV then 1 else 0)"
  shows "faithful n (emit_task E ev k)"
proof -
  have rest: "faithful n' (if ev = NETWORK_PROV_CRED_SUCCESS
    then act (ext_call (Kern (K_sem_give Mgr_done))) (\<lambda>_.
         act (gets (\<lambda>s. started (mgr s))) (\<lambda>st.
         act (gets (\<lambda>s. auto_stop (mgr s))) (\<lambda>auto.
         act (if_do (st \<and> auto) (ext_call (Kern (K_work_schedule Teardown_work (AUTOSTOP_TIMEOUT_MS (cfg E)))))) (\<lambda>_. k))))
    else k)" (is "faithful n' ?k")
    by (auto intro!: faithful_silent assms(1) simp: if_do_def) (auto simp: unreported_def)
  have "faithful n (act (ext_call (App (App_event ev))) (\<lambda>_. ?k))"
    by (rule faithful_act) (use assms(2) rest in \<open>auto intro!: exI [of _ n'] simp: owed_def recvs_def outcomes_def
      split: if_splits\<close>)
  then show ?thesis unfolding emit_task_def
    by (intro faithful_act) (auto intro!: exI [of _ n] simp: if_do_def)
qed

lemma faithful_claim:
  assumes "faithful 1 t" "faithful 0 k"
  shows "faithful 0 (act claim_pending (\<lambda>won. if \<not> won then k else t))"
  by (rule faithful_act) (use assms in \<open>auto simp: claim_pending_def owed_def intro: exI [of _ "1::nat"] exI [of _ "0::nat"]\<close>)

lemma faithful_pending:
  assumes "faithful 0 k"
  shows "faithful 1 (act (upd_tc (\<lambda>t. t\<lparr>pending := True\<rparr>)) (\<lambda>_. k))"
  by (rule faithful_act) (use assms in \<open>auto simp: owed_def intro: exI [of _ "0::nat"]\<close>)

subsection \<open>Every function\<close>

lemma faithful_callbacks [intro!]:
  assumes "faithful 0 k"
  shows "faithful 0 (on_attached_task E k)" "faithful 0 (run_attach_timeout_task E k)" "faithful 0 (ot_state_changed_task E rc k)"
proof -
  show att: "faithful 0 (on_attached_task E k)"
    unfolding on_attached_task_def
    by (intro faithful_claim faithful_silent [where n = 1] unreported_steps faithful_emit [where n = 1 and n' = 0] assms) simp
  show "faithful 0 (run_attach_timeout_task E k)"
    unfolding run_attach_timeout_task_def attach_timeout_task_def
    by (intro faithful_silent [where n = 0 and m = "ext_call c" for c] faithful_claim faithful_silent [where n = 1] unreported_steps faithful_emit [where n = 1 and n' = 0] assms) simp
  show "faithful 0 (ot_state_changed_task E rc k)"
    unfolding ot_state_changed_task_def by (auto intro!: faithful_silent faithful_if att assms)
qed

lemma faithful_calls [intro!]:
  "(\<And>r. faithful 0 (f r)) \<Longrightarrow> faithful 0 (thread_config_init_task E f)"
  "faithful 0 k \<Longrightarrow> faithful 0 (thread_config_deinit_task k)"
  "faithful 0 k \<Longrightarrow> faithful 0 (thread_config_reset_task E k)"
  "(\<And>r. faithful 0 (f r)) \<Longrightarrow> faithful 0 (thread_config_erase_task E f)"
  "(\<And>st. faithful 0 (g st)) \<Longrightarrow> faithful 0 (do_set_config_task ds g)"
  "(\<And>r. faithful 0 (f r)) \<Longrightarrow> faithful 0 (commit_dataset_task E f)"
  "(\<And>a. faithful 0 (l a)) \<Longrightarrow> faithful 0 (fill_attached_state_task E l)"
  unfolding thread_config_init_task_def thread_config_deinit_task_def thread_config_reset_task_def
    thread_config_erase_task_def do_set_config_task_def commit_dataset_task_def fill_attached_state_task_def
  by (intro faithful_silent faithful_if unreported_steps; simp; fail)+

lemma faithful_apply [intro!]:
  assumes "\<And>st. faithful 0 (g st)"
  shows "faithful 0 (do_apply_config_task E g)"
  unfolding do_apply_config_task_def
  by (intro faithful_silent [where n = 0] unreported_steps faithful_if faithful_calls(6) assms
      faithful_emit [where n = 0 and n' = 1] faithful_emit [where n = 1 and n' = 0] faithful_silent [where n = 1]
      faithful_pending faithful_callbacks) simp_all

lemma faithful_requests [intro!]:
  assumes "\<And>r. faithful 0 (f r)" "\<And>r. faithful 0 (g r)"
  shows "faithful 0 (set_and_apply_task E d f)" "faithful 0 (encode_get_status_task E g)"
    "faithful 0 (thread_config_handler_task E b g)" "faithful 0 (thread_ctrl_handler_task E b g)"
proof -
  show "faithful 0 (set_and_apply_task E d f)"
    unfolding set_and_apply_task_def by (auto split: option.split intro!: faithful_silent faithful_if assms(1))
  show st: "faithful 0 (encode_get_status_task E g)"
    unfolding encode_get_status_task_def Let_def by (auto intro!: faithful_silent faithful_if assms(2))
  show "faithful 0 (thread_config_handler_task E b g)"
    unfolding thread_config_handler_task_def
    by (auto split: option.split NetworkConfigMsgType.split intro!: st faithful_silent assms(2))
  show "faithful 0 (thread_ctrl_handler_task E b g)"
    unfolding thread_ctrl_handler_task_def
    by (auto split: option.split NetworkCtrlMsgType.split intro!: faithful_silent assms(2))
qed

text \<open>What may run at the same time: requests of any content, the state callback, the timeout, and the calls of the
  manager and the application.\<close>

inductive_set thread_tasks :: "env \<Rightarrow> (world, unit) task set" for E where
  "thread_config_handler_task E b (\<lambda>_. Returned ()) \<in> thread_tasks E"
| "thread_ctrl_handler_task E b (\<lambda>_. Returned ()) \<in> thread_tasks E"
| "ot_state_changed_task E rc (Returned ()) \<in> thread_tasks E"
| "run_attach_timeout_task E (Returned ()) \<in> thread_tasks E"
| "set_and_apply_task E d (\<lambda>_. Returned ()) \<in> thread_tasks E"
| "thread_config_reset_task E (Returned ()) \<in> thread_tasks E"
| "thread_config_erase_task E (\<lambda>_. Returned ()) \<in> thread_tasks E"
| "thread_config_init_task E (\<lambda>_. Returned ()) \<in> thread_tasks E"
| "thread_config_deinit_task (Returned ()) \<in> thread_tasks E"

interpretation thread_race: preemptive "thread_tasks E" "\<lambda>s. event_cb (mgr s)" "\<lambda>_ _. True" owed
  by unfold_locales (auto elim!: thread_tasks.cases)

section \<open>A timeout that is due\<close>

text \<open>The kernel takes the timeout off its queue and calls it, provided that it is armed; as one call and in steps.\<close>

definition due_timeout :: "env \<Rightarrow> unit prog" where
  "due_timeout E = do {
     a \<leftarrow> gets (\<lambda>s. armed Attach_timeout (hist s));
     if_do a (run_attach_timeout E) }"

definition due_timeout_task :: "env \<Rightarrow> 'r steps \<Rightarrow> 'r steps" where
  "due_timeout_task E k =
    act (do { a \<leftarrow> gets (\<lambda>s. armed Attach_timeout (hist s)); if_do a (ext_call (Kern (K_work_run Attach_timeout))); ret a })
      (\<lambda>a. if a then attach_timeout_task E k else k)"

lemma run_due_timeout: "run_all (due_timeout_task E k) = do { due_timeout E; run_all k }"
  by (rule program_eqI) (simp add: due_timeout_task_def due_timeout_def run_attach_timeout_def)

text \<open>After \<open>s\<close> one attempt was made and reported as failed, while its own timeout has not fired and is still armed.\<close>

definition failed_early :: "world \<Rightarrow> world \<Rightarrow> bool" where
  "failed_early s s' \<longleftrightarrow>
     app_events (hist s') = NETWORK_PROV_CRED_FAIL NETWORK_PROV_WIFI_NETWORK_NOT_FOUND # NETWORK_PROV_CRED_RECV # app_events (hist s) \<and>
     tc_state (tc s') = Thread_AttachingFailed \<and> \<not> pending (tc s') \<and> armed Attach_timeout (hist s')"

section \<open>Properties\<close>

text \<open>C9. Preemption never makes the Thread handler report an outcome twice: however the steps of any number of
  requests, state callbacks, timeouts, resets, erasures and calls of the application are interleaved, the reported
  outcomes and the pending one together never exceed the CRED_RECV events.\<close>

theorem thread_outcomes_preempted:
  assumes "preempted (thread_tasks E) ([], s) (pool, s')" and "event_cb (mgr s)"
    and "outcomes (hist s) + (if pending (tc s) then 1 else 0) \<le> recvs (hist s)"
  shows "outcomes (hist s') + (if pending (tc s') then 1 else 0) \<le> recvs (hist s')"
  using thread_race.interleavings_safe [OF assms(1,2)] assms(3) by (auto simp: owed_def split: if_splits)

theorem thread_outcomes_preempted_witness:
  "\<exists>pool s'. preempted (thread_tasks ok_env) ([], (boot_world ok_env)\<lparr>mgr := (mgr_zero ok_env)\<lparr>event_cb := True\<rparr>,
      tc := tc_zero\<lparr>pending := True\<rparr>, hist := [App (App_event NETWORK_PROV_CRED_RECV)]\<rparr>) (pool, s') \<and>
    outcomes (hist s') = 1 \<and> recvs (hist s') = 1 \<and> \<not> pending (tc s')"
proof -
  let ?s = "(boot_world ok_env)\<lparr>mgr := (mgr_zero ok_env)\<lparr>event_cb := True\<rparr>,
      tc := tc_zero\<lparr>pending := True\<rparr>, hist := [App (App_event NETWORK_PROV_CRED_RECV)]\<rparr> :: world"
  let ?t = "run_attach_timeout_task ok_env (Returned ())"
  have "along [0, 1, 1, 0, 1, 1, 1, 1] ([?t, ?t], ?s)
      (\<lambda>c. outcomes (hist (snd c)) \<ge> 1 \<and> recvs (hist (snd c)) = 1 \<and> \<not> pending (tc (snd c)))"
    by (simp add: run_attach_timeout_task_def attach_timeout_task_def emit_task_def claim_pending_def
        outcomes_def recvs_def cong: schedule_cong)
  from schedule_reaches_alone [OF this, of "thread_tasks ok_env"] obtain pool s' where
    run: "preempted (thread_tasks ok_env) ([], ?s) (pool, s')" and
    res: "outcomes (hist s') \<ge> 1" "recvs (hist s') = 1" "\<not> pending (tc s')"
    by (auto simp: thread_tasks.intros)
  from thread_outcomes_preempted [OF run] res have "outcomes (hist s') \<le> 1" by (simp add: outcomes_def recvs_def)
  with run res show ?thesis by (auto intro!: exI [of _ pool] exI [of _ s'])
qed

text \<open>C29. The timeout of an earlier attempt can fail a new one, and only a race can do that. When an Apply finds the timeout of an
  earlier attempt still armed, there is an interleaving of the Apply with the kernel's run of that timeout that ends with the new
  attempt reported as failed while its own timeout is still armed: \<open>do_apply_config\<close> marks the outcome as pending before it
  moves the timeout, so that one that fires in between claims it. In that state neither an attach of the node nor
  the timeout reports anything. Neither of the two orders without preemption ends like that: after the Apply it is its own
  timeout that fires, and before the Apply the new attempt stays pending.\<close>

theorem stale_timeout_fails_new_attempt:
  assumes attempt: "event_cb (mgr s)" "armed Attach_timeout (hist s)" and ds: "ds \<noteq> []" "length ds \<le> OT_DATASET_MAX"
    and accepted: "\<And>h d. otDatasetSetActiveTlvs (ot E) h d = 0" "\<And>h b. otThreadSetEnabled (ot E) h b = 0"
    and detached: "\<And>h. \<not> role_is_attached (otThreadGetDeviceRole (ot E) h)"
  shows "(\<exists>s'. preempted {set_and_apply_task E (Some ds) (\<lambda>_. Returned ()), due_timeout_task E (Returned ())} ([], s)
      ([Returned (), Returned ()], s') \<and> failed_early s s' \<and>
      (\<forall>E' rc. wp (ot_state_changed E' rc) (\<lambda>_ s''. tc s'' = tc s' \<and> app_events (hist s'') = app_events (hist s')) s' \<and>
         wp (due_timeout E') (\<lambda>_ s''. tc s'' = tc s' \<and> app_events (hist s'') = app_events (hist s')) s')) \<and>
    wp (do { _ \<leftarrow> network_prov_thread_config_set_and_apply E (Some ds); due_timeout E }) (\<lambda>_ s'. \<not> failed_early s s') s \<and>
    wp (do { due_timeout E; _ \<leftarrow> network_prov_thread_config_set_and_apply E (Some ds); ret () }) (\<lambda>_ s'. \<not> failed_early s s') s"
proof -
  let ?pool = "[set_and_apply_task E (Some ds) (\<lambda>_. Returned ()), due_timeout_task E (Returned ())]"
  have "along [0,0,0,0,0,0,0,0,0,0,0,0,0, 1,1,1,1,1,1, 0,0,0,0] (?pool, s) (\<lambda>c. fst c = [Returned (), Returned ()] \<and> failed_early s (snd c))"
    using assms by (simp add: thread_task_defs due_timeout_task_def claim_pending_def failed_early_def cong: schedule_cong)
  from schedule_reaches_alone [OF this, of "set ?pool"] obtain s' where s':
    "preempted (set ?pool) ([], s) ([Returned (), Returned ()], s')" "failed_early s s'"
    by auto
  then have "wp (ot_state_changed E' rc) (\<lambda>_ s''. tc s'' = tc s' \<and> app_events (hist s'') = app_events (hist s')) s' \<and>
      wp (due_timeout E') (\<lambda>_ s''. tc s'' = tc s' \<and> app_events (hist s'') = app_events (hist s')) s'" for E' rc
    by (simp add: failed_early_def ot_state_changed_def on_attached_def claim_pending_def due_timeout_def run_attach_timeout_def
        attach_timeout_fn_def)
  moreover have "wp (do { _ \<leftarrow> network_prov_thread_config_set_and_apply E (Some ds); due_timeout E }) (\<lambda>_ s'. \<not> failed_early s s') s"
    "wp (do { due_timeout E; _ \<leftarrow> network_prov_thread_config_set_and_apply E (Some ds); ret () }) (\<lambda>_ s'. \<not> failed_early s s') s"
    using assms
    by (simp_all add: network_prov_thread_config_set_and_apply_def thread_do_apply_config_def commit_dataset_def due_timeout_def
        run_attach_timeout_def attach_timeout_fn_def claim_pending_def failed_early_def)
  ultimately show ?thesis using s' by auto
qed

definition detached_env :: env where
  "detached_env = ok_env\<lparr>ot := (ot ok_env)\<lparr>otDatasetSetActiveTlvs := \<lambda>_ _. 0, otThreadSetEnabled := \<lambda>_ _. 0,
     otThreadGetDeviceRole := \<lambda>_. OT_DEVICE_ROLE_DETACHED\<rparr>\<rparr>"

definition attempt_world :: world where
  "attempt_world = (boot_world detached_env)\<lparr>mgr := (mgr_zero detached_env)\<lparr>event_cb := True\<rparr>,
     tc := tc_zero\<lparr>pending := True, tc_state := Thread_Attaching\<rparr>, hist := [Kern (K_work_reschedule Attach_timeout 30000)]\<rparr>"

theorem stale_timeout_fails_new_attempt_witness:
  "\<exists>s'. preempted {set_and_apply_task detached_env (Some [7]) (\<lambda>_. Returned ()), due_timeout_task detached_env (Returned ())}
     ([], attempt_world) ([Returned (), Returned ()], s') \<and> failed_early attempt_world s'"
proof -
  have E: "otDatasetSetActiveTlvs (ot detached_env) h d = 0" "otThreadSetEnabled (ot detached_env) h b = 0"
    "\<not> role_is_attached (otThreadGetDeviceRole (ot detached_env) h)" for h d b
    by (simp_all add: detached_env_def role_is_attached_def)
  have s: "event_cb (mgr attempt_world)" "armed Attach_timeout (hist attempt_world)" by (simp_all add: attempt_world_def)
  from stale_timeout_fails_new_attempt [OF s, of "[7]", OF _ _ E] show ?thesis by auto
qed

end
