(* ===== verification/Endpoint_Race.thy ===== *)
theory Endpoint_Race
  imports Preemption System
begin

text \<open>
  Application endpoints under preemption (network_prov_mgr.c): a request runs \<open>custom_trampoline\<close> in the
  transport's thread while the application registers and unregisters handlers in its own. The functions are cut
  into their accesses to the entry of the endpoint; the application's handler is one step. \<open>compiler_barrier\<close>
  keeps the two stores of a registration in order and is the order of the steps here.
\<close>

section \<open>The functions in steps\<close>

text \<open>The trampoline reads the handler for its test and again for the call, and the context for the argument; C
  leaves open which of the last two comes first (\<open>ctx_first\<close>). A call through NULL is a fault.\<close>

definition call_task ::
  "env \<Rightarrow> nat option \<Rightarrow> nat \<Rightarrow> bytes \<Rightarrow> (int \<times> bytes option \<Rightarrow> (world, 'r) task) \<Rightarrow> (world, 'r) task" where
  "call_task E f ctx inbuf k = (case f of
     None \<Rightarrow> act (do { set_fault; ret (0, None) }) k
   | Some f \<Rightarrow> act (app_handler E f ctx inbuf) k)"

definition custom_trampoline_task ::
  "env \<Rightarrow> bool \<Rightarrow> nat option \<Rightarrow> bytes \<Rightarrow> (int \<times> bytes option \<Rightarrow> (world, 'r) task) \<Rightarrow> (world, 'r) task" where
  "custom_trampoline_task E ctx_first priv inbuf k =
    (case priv of
       None \<Rightarrow> act (do { set_fault; ret (0, None) }) k
     | Some i \<Rightarrow>
        if i \<ge> MAX_CUSTOM_ENDPOINTS (cfg E) then act (do { set_fault; ret (0, None) }) k
        else act (gets (\<lambda>s. ce_handler (custom (mgr s) ! i))) (\<lambda>f.
          if f = None then k (- ENOTSUP, None)
          else if ctx_first
          then act (gets (\<lambda>s. ce_ctx (custom (mgr s) ! i))) (\<lambda>c.
               act (gets (\<lambda>s. ce_handler (custom (mgr s) ! i))) (\<lambda>f. call_task E f c inbuf k))
          else act (gets (\<lambda>s. ce_handler (custom (mgr s) ! i))) (\<lambda>f.
               act (gets (\<lambda>s. ce_ctx (custom (mgr s) ! i))) (\<lambda>c. call_task E f c inbuf k))))"

definition endpoint_register_task ::
  "cstr \<Rightarrow> nat option \<Rightarrow> nat \<Rightarrow> (int \<Rightarrow> (world, 'r) task) \<Rightarrow> (world, 'r) task" where
  "endpoint_register_task name handler user_ctx k =
    (if name = None \<or> handler = None then k (- EINVAL)
     else act (gets (\<lambda>s. started (mgr s))) (\<lambda>st.
       if \<not> st then k (- EPERM)
       else act (gets (\<lambda>s. find_custom_ep (mgr s) (the name))) (\<lambda>e.
         case e of None \<Rightarrow> k (- ENOENT)
         | Some i \<Rightarrow>
             act (upd_mgr (\<lambda>m. m\<lparr>custom := (custom m)[i := (custom m ! i)\<lparr>ce_ctx := user_ctx\<rparr>]\<rparr>)) (\<lambda>_.
             act (upd_mgr (\<lambda>m. m\<lparr>custom := (custom m)[i := (custom m ! i)\<lparr>ce_handler := handler\<rparr>]\<rparr>)) (\<lambda>_. k 0)))))"

definition endpoint_unregister_task :: "cstr \<Rightarrow> (int \<Rightarrow> (world, 'r) task) \<Rightarrow> (world, 'r) task" where
  "endpoint_unregister_task name k =
    (if name = None then k (- EINVAL)
     else act (gets (\<lambda>s. find_custom_ep (mgr s) (the name))) (\<lambda>e.
         case e of None \<Rightarrow> k (- ENOENT)
         | Some i \<Rightarrow>
             act (upd_mgr (\<lambda>m. m\<lparr>custom := (custom m)[i := (custom m ! i)\<lparr>ce_handler := None\<rparr>]\<rparr>)) (\<lambda>_.
             act (upd_mgr (\<lambda>m. m\<lparr>custom := (custom m)[i := (custom m ! i)\<lparr>ce_ctx := 0\<rparr>]\<rparr>)) (\<lambda>_. k 0))))"

text \<open>Without preemption the steps are the functions.\<close>

lemma run_endpoint_tasks:
  "run_all (custom_trampoline_task E o1 p b Returned) = custom_trampoline E p b"
  "run_all (endpoint_register_task n h c Returned) = network_prov_mgr_endpoint_register n h c"
  "run_all (endpoint_unregister_task n Returned) = network_prov_mgr_endpoint_unregister n"
  by (rule program_eqI, simp add: custom_trampoline_task_def call_task_def custom_trampoline_def endpoint_register_task_def
      network_prov_mgr_endpoint_register_def endpoint_unregister_task_def network_prov_mgr_endpoint_unregister_def
      split: option.split)+

section \<open>Registrations that race requests\<close>

text \<open>\<open>B n\<close> is the set of the registrations, handler and context, that the application makes for endpoint \<open>n\<close>; \<open>bodies i\<close>
  are the requests that arrive for entry \<open>i\<close>. The tasks are any requests and any of the registrations, in any number.\<close>

type_synonym registrations = "string \<Rightarrow> (nat \<times> nat) set"

definition slots :: "world \<Rightarrow> custom_ep list" where
  "slots s = custom (mgr s)"

definition handlers :: "registrations \<Rightarrow> string \<Rightarrow> nat set" where
  "handlers B n = fst ` B n"

definition contexts :: "registrations \<Rightarrow> string \<Rightarrow> nat set" where
  "contexts B n = snd ` B n"

definition bound :: "registrations \<Rightarrow> world \<Rightarrow> bool" where
  "bound B s \<longleftrightarrow> (\<forall>e \<in> set (slots s). \<forall>f. ce_handler e = Some f \<longrightarrow>
     f \<in> handlers B (ce_name e) \<and> ce_ctx e \<in> contexts B (ce_name e))"

inductive_set endpoint_tasks :: "env \<Rightarrow> registrations \<Rightarrow> (nat \<Rightarrow> bytes set) \<Rightarrow> (world, unit) task set" for E B bodies where
  request: "b \<in> bodies i \<Longrightarrow> i < MAX_CUSTOM_ENDPOINTS (cfg E) \<Longrightarrow>
    custom_trampoline_task E o1 (Some i) b (\<lambda>_. Returned ()) \<in> endpoint_tasks E B bodies"
| register: "(f, c) \<in> B n \<Longrightarrow> endpoint_register_task (Some n) (Some f) c (\<lambda>_. Returned ()) \<in> endpoint_tasks E B bodies"

definition calls_bound :: "registrations \<Rightarrow> (nat \<Rightarrow> bytes set) \<Rightarrow> string list \<Rightarrow> history \<Rightarrow> bool" where
  "calls_bound B bodies N k \<longleftrightarrow> (\<forall>f c b. App (App_endpoint f c b) \<in> set k \<longrightarrow>
     (\<exists>i < length N. b \<in> bodies i \<and> f \<in> handlers B (N ! i) \<and> c \<in> contexts B (N ! i)))"

text \<open>The invariant of a race that starts with the entry names \<open>N\<close> and the history \<open>h\<close>, and the steps that the tasks rely
  on: an entry that has a handler keeps having one, and a context that was registered is only replaced by another one that was.\<close>

definition race_inv :: "registrations \<Rightarrow> (nat \<Rightarrow> bytes set) \<Rightarrow> string list \<Rightarrow> history \<Rightarrow> world \<Rightarrow> bool" where
  "race_inv B bodies N h s \<longleftrightarrow> \<not> fault s \<and> map ce_name (slots s) = N \<and> bound B s \<and>
     (\<exists>k. hist s = k @ h \<and> calls_bound B bodies N k)"

definition race_step :: "registrations \<Rightarrow> world \<Rightarrow> world \<Rightarrow> bool" where
  "race_step B s s' \<longleftrightarrow> map ce_name (slots s') = map ce_name (slots s) \<and>
     (\<forall>i < length (slots s). (ce_handler (slots s ! i) \<noteq> None \<longrightarrow> ce_handler (slots s' ! i) \<noteq> None) \<and>
       (ce_ctx (slots s ! i) \<in> contexts B (ce_name (slots s ! i)) \<longrightarrow> ce_ctx (slots s' ! i) \<in> contexts B (ce_name (slots s ! i))))"

lemma race_step_refl [simp]: "race_step B s s"
  by (simp add: race_step_def)

lemma race_step_slots: "race_step B s s' \<Longrightarrow> length (slots s') = length (slots s) \<and>
    (i < length (slots s) \<longrightarrow> ce_name (slots s' ! i) = ce_name (slots s ! i))"
  unfolding race_step_def by (metis length_map nth_map)

text \<open>The assertions of the tasks: the entry has a handler, and what was read from it has the property \<open>Q\<close>; this entry has
  this name and a registered context.\<close>

definition has_handler :: "nat \<Rightarrow> bool \<Rightarrow> world \<Rightarrow> bool" where
  "has_handler i Q s \<longleftrightarrow> i < length (slots s) \<and> ce_handler (slots s ! i) \<noteq> None \<and> Q"

definition has_ctx :: "registrations \<Rightarrow> nat \<Rightarrow> string \<Rightarrow> bool \<Rightarrow> world \<Rightarrow> bool" where
  "has_ctx B i n right s \<longleftrightarrow> i < length (slots s) \<and> ce_name (slots s ! i) = n \<and> (right \<longrightarrow> ce_ctx (slots s ! i) \<in> contexts B n)"

lemma race_assertions:
  "stable_under (race_step B) (\<lambda>_. True)" "stable_under (race_step B) (has_handler i Q)"
  "stable_under (race_step B) (has_ctx B i n right)"
proof -
  show "stable_under (race_step B) (has_handler i Q)"
    by (auto simp: stable_under_def has_handler_def race_step_slots) (auto simp: race_step_def)
  show "stable_under (race_step B) (has_ctx B i n right)"
    by (auto simp: stable_under_def has_ctx_def race_step_slots) (auto simp: race_step_def)
qed (simp add: stable_under_def)

abbreviation safe_task :: "registrations \<Rightarrow> (nat \<Rightarrow> bytes set) \<Rightarrow> string list \<Rightarrow> history \<Rightarrow>
    (world \<Rightarrow> bool) \<Rightarrow> (world, 'r) task \<Rightarrow> bool" where
  "safe_task B bodies N h P \<equiv> keeps_faith (race_inv B bodies N h) (race_step B) (race_step B) (\<lambda>_. 0) P 0"

lemma safe_returned: "safe_task B bodies N h (\<lambda>_. True) (Returned r)"
  by (intro keeps_faith.returned race_assertions)

lemma safe_step:
  assumes "stable_under (race_step B) P"
    and "\<And>s. race_inv B bodies N h s \<Longrightarrow> P s \<Longrightarrow> wp m (\<lambda>a s'. race_inv B bodies N h s' \<and> race_step B s s' \<and> P' a s') s"
    and "\<And>a s. race_inv B bodies N h s \<Longrightarrow> P' a s \<Longrightarrow> safe_task B bodies N h (P' a) (k a)"
  shows "safe_task B bodies N h P (act m k)"
  by (rule faith_assert [where P' = P']) (use assms in auto)

lemma slots_upd [simp]:
  "slots (s\<lparr>hist := h\<rparr>) = slots s" "slots (s\<lparr>mgr := m\<rparr>) = custom m" "slots (s\<lparr>fault := b\<rparr>) = slots s"
  by (simp_all add: slots_def)

lemma race_inv_grow:
  assumes "race_inv B bodies N h s"
  shows "race_inv B bodies N h (s\<lparr>hist := Kern c # hist s\<rparr>)"
    "i < length N \<Longrightarrow> b \<in> bodies i \<Longrightarrow> f \<in> handlers B (N ! i) \<Longrightarrow> x \<in> contexts B (N ! i) \<Longrightarrow>
      race_inv B bodies N h (s\<lparr>hist := App (App_endpoint f x b) # hist s\<rparr>)"
proof -
  from assms obtain k where k: "hist s = k @ h" "calls_bound B bodies N k" by (auto simp: race_inv_def)
  have "race_inv B bodies N h (s\<lparr>hist := (y # k) @ h\<rparr>)" if "calls_bound B bodies N (y # k)" for y
    using assms that unfolding race_inv_def by (auto simp: bound_def intro!: exI [of _ "y # k"])
  from this [of "Kern c"] this [of "App (App_endpoint f x b)"] k
  show "race_inv B bodies N h (s\<lparr>hist := Kern c # hist s\<rparr>)"
    "i < length N \<Longrightarrow> b \<in> bodies i \<Longrightarrow> f \<in> handlers B (N ! i) \<Longrightarrow> x \<in> contexts B (N ! i) \<Longrightarrow>
      race_inv B bodies N h (s\<lparr>hist := App (App_endpoint f x b) # hist s\<rparr>)"
    by (auto simp: calls_bound_def)
qed

lemma race_step_hist [simp]: "race_step B s (s'\<lparr>hist := h\<rparr>) = race_step B s s'"
  by (simp add: race_step_def)

lemma safe_call:
  assumes "b \<in> bodies i"
  shows "safe_task B bodies N h (has_handler i (f \<noteq> None \<and> the f \<in> handlers B (N ! i) \<and> c \<in> contexts B (N ! i)))
    (call_task E f c b (\<lambda>_. Returned ()))"
proof (cases f)
  case (Some g)
  have "safe_task B bodies N h (has_handler i (g \<in> handlers B (N ! i) \<and> c \<in> contexts B (N ! i))) (act (app_handler E g c b) (\<lambda>_. Returned ()))"
  proof (rule safe_step [where P' = "\<lambda>_ _. True", OF race_assertions(2) _ safe_returned])
    fix s assume s: "race_inv B bodies N h s" "has_handler i (g \<in> handlers B (N ! i) \<and> c \<in> contexts B (N ! i)) s"
    then have "i < length N" "g \<in> handlers B (N ! i)" "c \<in> contexts B (N ! i)" by (auto simp: race_inv_def has_handler_def)
    note race_inv_grow(2) [OF s(1) this(1) assms(1) this(2,3)]
    moreover from this have "race_inv B bodies N h (s\<lparr>hist := Kern x # App (App_endpoint g c b) # hist s\<rparr>)" for x
      using race_inv_grow(1) by fastforce
    ultimately show "wp (app_handler E g c b) (\<lambda>a s'. race_inv B bodies N h s' \<and> race_step B s s' \<and> True) s"
      by (simp add: app_handler_def split: option.split)
  qed
  then show ?thesis by (simp add: call_task_def Some)
next
  case None
  show ?thesis unfolding None call_task_def option.case
    by (rule safe_step [where P' = "\<lambda>_ _. True", OF race_assertions(2) _ safe_returned]) (simp add: has_handler_def)
qed

text \<open>Once the entry has a handler, what is read from it was registered.\<close>

lemma safe_see:
  assumes "\<And>e s. race_inv B bodies N h s \<Longrightarrow> has_handler i Q s \<Longrightarrow> Q' (sel (slots s ! i))"
    and "\<And>a. safe_task B bodies N h (has_handler i (Q \<and> Q' a)) (k a)"
  shows "safe_task B bodies N h (has_handler i Q) (act (gets (\<lambda>s. sel (custom (mgr s) ! i))) k)"
  by (rule safe_step [where P' = "\<lambda>a. has_handler i (Q \<and> Q' a)", OF race_assertions(2) _ assms(2)])
    (use assms(1) in \<open>auto simp: has_handler_def slots_def\<close>)

lemma seen_registered:
  assumes "race_inv B bodies N h s" "has_handler i Q s"
  shows "ce_handler (slots s ! i) \<noteq> None \<and> the (ce_handler (slots s ! i)) \<in> handlers B (N ! i)" "ce_ctx (slots s ! i) \<in> contexts B (N ! i)"
  using assms by (auto simp: race_inv_def has_handler_def bound_def)

lemma safe_request:
  assumes "b \<in> bodies i" "i < MAX_CUSTOM_ENDPOINTS (cfg E)" "length N = MAX_CUSTOM_ENDPOINTS (cfg E)"
  shows "safe_task B bodies N h (\<lambda>_. True) (custom_trampoline_task E o1 (Some i) b (\<lambda>_. Returned ()))"
proof -
  let ?f = "\<lambda>s. ce_handler (custom (mgr s) ! i)" and ?c = "\<lambda>s. ce_ctx (custom (mgr s) ! i)"
  let ?rest = "if o1 then act (gets ?c) (\<lambda>c. act (gets ?f) (\<lambda>f. call_task E f c b (\<lambda>_. Returned ())))
     else act (gets ?f) (\<lambda>f. act (gets ?c) (\<lambda>c. call_task E f c b (\<lambda>_. Returned ())))"
  have call: "safe_task B bodies N h (has_handler i ((True \<and> f \<noteq> None \<and> the f \<in> handlers B (N ! i)) \<and> c \<in> contexts B (N ! i)))
      (call_task E f c b (\<lambda>_. Returned ()))"
    "safe_task B bodies N h (has_handler i ((True \<and> c \<in> contexts B (N ! i)) \<and> f \<noteq> None \<and> the f \<in> handlers B (N ! i)))
      (call_task E f c b (\<lambda>_. Returned ()))" for f c
    using safe_call [where bodies = bodies and N = N and B = B and f = f and c = c, OF assms(1)] by (simp_all add: ac_simps)
  have rest: "safe_task B bodies N h (has_handler i True) ?rest"
    by (cases o1) (auto simp del: simp_thms intro!: seen_registered
        safe_see [where Q' = "\<lambda>c. c \<in> contexts B (N ! i)"] safe_see [where Q' = "\<lambda>f. f \<noteq> None \<and> the f \<in> handlers B (N ! i)"] call)
  have "safe_task B bodies N h (\<lambda>_. True) (act (gets ?f) (\<lambda>f. if f = None then Returned () else ?rest))"
  proof (rule safe_step [where P' = "\<lambda>f s. f \<noteq> None \<longrightarrow> has_handler i True s", OF race_assertions(1)])
    fix s assume "race_inv B bodies N h s"
    then show "wp (gets ?f) (\<lambda>f s'. race_inv B bodies N h s' \<and> race_step B s s' \<and> (f \<noteq> None \<longrightarrow> has_handler i True s')) s"
      using assms(2,3) by (auto simp: has_handler_def slots_def race_inv_def)
  next
    fix f :: "nat option"
    show "safe_task B bodies N h (\<lambda>s. f \<noteq> None \<longrightarrow> has_handler i True s) (if f = None then Returned () else ?rest)"
      using rest safe_returned by (cases "f = None") (simp_all only: if_True if_False simp_thms)
  qed
  with assms(2) show ?thesis by (simp add: custom_trampoline_task_def)
qed

text \<open>A store to an entry that keeps what the others rely on: a registered context, or a handler once the context is
  a registered one.\<close>

lemma race_store:
  assumes s: "race_inv B bodies N h s" "has_ctx B i n right s" "(f, c) \<in> B n"
    and e: "e = (custom (mgr s) ! i)\<lparr>ce_ctx := c\<rparr> \<or> right \<and> e = (custom (mgr s) ! i)\<lparr>ce_handler := Some f\<rparr>"
    and s': "s' = s\<lparr>mgr := (mgr s)\<lparr>custom := (custom (mgr s))[i := e]\<rparr>\<rparr>"
  shows "race_inv B bodies N h s'" "race_step B s s'" "has_ctx B i n True s'"
proof -
  have i: "i < length (slots s)" "ce_name (slots s ! i) = n" "right \<longrightarrow> ce_ctx (slots s ! i) \<in> contexts B n"
    using s(2) by (auto simp: has_ctx_def)
  have es: "slots s' = (slots s)[i := e]" by (simp add: slots_def s')
  have reg: "f \<in> handlers B n" "c \<in> contexts B n" using s(3) by (force simp: handlers_def contexts_def)+
  have old: "g \<in> handlers B n" if "ce_handler (slots s ! i) = Some g" for g
    using s(1) i that by (auto simp: race_inv_def bound_def)
  have name: "ce_name e = n" "ce_ctx e \<in> contexts B n" using e i reg by (auto simp: slots_def)
  have new: "g \<in> handlers B n" if "ce_handler e = Some g" for g
    using e that old reg(1) by (auto simp: slots_def)
  have keep: "ce_handler e \<noteq> None" if "ce_handler (slots s ! i) \<noteq> None"
    using e that by (auto simp: slots_def)
  have names: "map ce_name (slots s') = map ce_name (slots s)"
    using name(1) i by (simp add: es map_update list_update_same_conv)
  show "race_inv B bodies N h s'"
    using s(1) names new name i(1) unfolding race_inv_def bound_def es
    by (auto simp: s' dest!: set_update_subset_insert [THEN subsetD])
  show "race_step B s s'"
    using names keep name(2) i by (auto simp: race_step_def es nth_list_update)
  show "has_ctx B i n True s'" using name i by (simp add: has_ctx_def es)
qed

lemma safe_register:
  assumes "(f, c) \<in> B n"
  shows "safe_task B bodies N h (\<lambda>_. True) (endpoint_register_task (Some n) (Some f) c (\<lambda>_. Returned ()))"
proof -
  let ?ctx = "\<lambda>i. upd_mgr (\<lambda>m. m\<lparr>custom := (custom m)[i := (custom m ! i)\<lparr>ce_ctx := c\<rparr>]\<rparr>)"
  let ?handler = "\<lambda>i. upd_mgr (\<lambda>m. m\<lparr>custom := (custom m)[i := (custom m ! i)\<lparr>ce_handler := Some f\<rparr>]\<rparr>)"
  have publish: "safe_task B bodies N h (has_ctx B i n True) (act (?handler i) (\<lambda>_. Returned ()))" for i
    by (rule safe_step [where P' = "\<lambda>_ _. True", OF race_assertions(3) _ safe_returned]) (simp add: race_store [where B = B and n = n and f = f and c = c, OF _ _ assms _ refl])
  have store: "safe_task B bodies N h (has_ctx B i n False) (act (?ctx i) (\<lambda>_. act (?handler i) (\<lambda>_. Returned ())))" for i
    by (rule safe_step [where P' = "\<lambda>_. has_ctx B i n True", OF race_assertions(3) _ publish]) (simp add: race_store [where B = B and n = n and f = f and c = c, OF _ _ assms _ refl])
  have find: "safe_task B bodies N h (\<lambda>_. True) (act (gets (\<lambda>s. find_custom_ep (mgr s) n)) (\<lambda>e.
      case e of None \<Rightarrow> Returned () | Some i \<Rightarrow> act (?ctx i) (\<lambda>_. act (?handler i) (\<lambda>_. Returned ()))))"
  proof (rule safe_step [where P' = "\<lambda>e s. \<forall>i. e = Some i \<longrightarrow> has_ctx B i n False s", OF race_assertions(1)])
    fix e :: "nat option"
    show "safe_task B bodies N h (\<lambda>s. \<forall>i. e = Some i \<longrightarrow> has_ctx B i n False s)
        (case e of None \<Rightarrow> Returned () | Some i \<Rightarrow> act (?ctx i) (\<lambda>_. act (?handler i) (\<lambda>_. Returned ())))"
      using store safe_returned by (cases e) simp_all
  qed (auto simp: has_ctx_def slots_def find_custom_ep_def dest!: find_custom_from_Some)
  show ?thesis unfolding endpoint_register_task_def
    by (simp, rule safe_step [where P' = "\<lambda>_ _. True", OF race_assertions(1)]) (use find safe_returned in auto)
qed

text \<open>The endpoint table of the race, as an instance of the interleavings.\<close>

definition race_tasks :: "env \<Rightarrow> registrations \<Rightarrow> (nat \<Rightarrow> bytes set) \<Rightarrow> string list \<Rightarrow> (world, unit) task set" where
  "race_tasks E B bodies N = (if length N = MAX_CUSTOM_ENDPOINTS (cfg E) then endpoint_tasks E B bodies else {})"

interpretation endpoint_race: preemptive "race_tasks E B bodies N" "race_inv B bodies N h" "race_step B" "\<lambda>_. 0"
  by unfold_locales (auto simp: race_tasks_def elim!: endpoint_tasks.cases intro: safe_request safe_register split: if_splits)

text \<open>A request of the transport, and calls of the application.\<close>

abbreviation request_task :: "env \<Rightarrow> nat \<Rightarrow> bytes \<Rightarrow> (world, unit) task" where
  "request_task E i b \<equiv> custom_trampoline_task E False (Some i) b (\<lambda>_. Returned ())"
abbreviation register_task :: "string \<Rightarrow> nat \<Rightarrow> nat \<Rightarrow> (world, unit) task" where
  "register_task n f c \<equiv> endpoint_register_task (Some n) (Some f) c (\<lambda>_. Returned ())"
abbreviation unregister_task :: "string \<Rightarrow> (world, unit) task" where
  "unregister_task n \<equiv> endpoint_unregister_task (Some n) (\<lambda>_. Returned ())"

text \<open>A running service with one application endpoint.\<close>

definition race_world :: "nat option \<Rightarrow> nat \<Rightarrow> world" where
  "race_world f c = (boot_world ok_env)\<lparr>mgr := (mgr_zero ok_env)\<lparr>started := True,
     custom := [\<lparr>ce_name = ''custom'', ce_handler = f, ce_ctx = c, ce_created = True\<rparr>, no_custom, no_custom]\<rparr>\<rparr>"

lemma race_world_simps: "MAX_CUSTOM_ENDPOINTS (cfg ok_env) = 3" "\<not> fault (race_world f c)" "started (mgr (race_world f c))"
  "custom (mgr (race_world f c)) = [\<lparr>ce_name = ''custom'', ce_handler = f, ce_ctx = c, ce_created = True\<rparr>, no_custom, no_custom]"
  by (simp_all add: race_world_def ok_env_def ok_cfg_def boot_world_def)

lemmas endpoint_task_defs = custom_trampoline_task_def call_task_def app_handler_def
  endpoint_unregister_task_def endpoint_register_task_def

section \<open>Properties\<close>

text \<open>C10. A request that races registrations of its endpoint sees either no handler, or a handler that was registered for the
  endpoint with a context that was registered for it. The application may register any handlers with any contexts (the sets
  \<open>B\<close>), repeatedly and from any thread; then in every interleaving with any number of requests, and in either order in which the
  call reads handler and context, nothing is dereferenced wrongly and every call of the application is a request for some
  entry with a handler and a context out of the registrations for that entry. When there is one registration for the
  entry the call has exactly its pair; with several it may pair the handler of one with the context of another.
  (Unregistering is not among the tasks: see the property after this one.)\<close>

theorem registration_race_safe:
  assumes "preempted (endpoint_tasks E B bodies) ([], s) (pool, s')"
    and "\<not> fault s" "length (custom (mgr s)) = MAX_CUSTOM_ENDPOINTS (cfg E)" "bound B s"
  shows "\<not> fault s' \<and> (\<exists>k. hist s' = k @ hist s \<and>
    (\<forall>f c b. App (App_endpoint f c b) \<in> set k \<longrightarrow>
      (\<exists>i < length (custom (mgr s)). let R = B (ce_name (custom (mgr s) ! i)) in b \<in> bodies i \<and>
        f \<in> fst ` R \<and> c \<in> snd ` R \<and> (\<forall>p. R = {p} \<longrightarrow> (f, c) = p))))"
proof -
  let ?N = "map ce_name (slots s)"
  have "preempted (race_tasks E B bodies ?N) ([], s) (pool, s')" using assms(1,3) by (simp add: race_tasks_def slots_def)
  moreover have "race_inv B bodies ?N (hist s) s" using assms(2,4) by (simp add: race_inv_def calls_bound_def)
  ultimately have "race_inv B bodies ?N (hist s) s'" using endpoint_race.interleavings_safe by blast
  then obtain k where k: "\<not> fault s'" "hist s' = k @ hist s" "calls_bound B bodies ?N k" by (auto simp: race_inv_def)
  have "\<exists>i < length (custom (mgr s)). b \<in> bodies i \<and> f \<in> fst ` B (ce_name (custom (mgr s) ! i)) \<and>
      c \<in> snd ` B (ce_name (custom (mgr s) ! i))" if "App (App_endpoint f c b) \<in> set k" for f c b
    using k(3) that by (fastforce simp: calls_bound_def slots_def handlers_def contexts_def)
  with k(1,2) show ?thesis by (fastforce simp: Let_def)
qed

theorem registration_race_safe_witness:
  "\<exists>s'. preempted (endpoint_tasks ok_env (\<lambda>_. {(7, 9), (8, 10)}) (\<lambda>_. {[1]})) ([], race_world None 0) s' \<and> \<not> fault (snd s') \<and>
     App (App_endpoint 7 9 [1]) \<in> set (hist (snd s'))"
proof -
  let ?B = "\<lambda>_ :: string. {(7, 9), (8, 10 :: nat)}"
  let ?T = "endpoint_tasks ok_env ?B (\<lambda>_. {[1]})"
  have "along [1, 1, 1, 1, 0, 0, 0, 0] ([request_task ok_env 0 [1], register_task ''custom'' 7 9], race_world None 0)
      (\<lambda>c. App (App_endpoint 7 9 [1]) \<in> set (hist (snd c)))"
    by (simp add: endpoint_task_defs find_custom_ep_def race_world_simps cong: schedule_cong split: option.split)
  moreover have "set [request_task ok_env 0 [1], register_task ''custom'' 7 9] \<subseteq> ?T"
    using endpoint_tasks.intros(1) [of "[1]" "\<lambda>_. {[1]}" 0 ok_env False ?B] endpoint_tasks.intros(2) [of 7 9 ?B "''custom''"]
    by (simp add: race_world_simps)
  ultimately obtain pool s' where run: "preempted ?T ([], race_world None 0) (pool, s')"
      "App (App_endpoint 7 9 [1]) \<in> set (hist s')"
    using schedule_reaches_alone by (metis eq_snd_iff)
  from registration_race_safe [OF run(1)] have "\<not> fault s'" by (simp add: race_world_simps bound_def slots_def no_custom_def)
  with run show ?thesis by auto
qed

text \<open>C30. The same does not hold when a handler is removed or replaced: a request that is running while its endpoint is unregistered
  may call through a NULL pointer, or call the handler with a NULL context; and one that is running while another
  handler is registered may call the old handler with the new context.\<close>

theorem unregister_race_unsafe:
  assumes ep: "find_custom_ep (mgr s) n = Some i" "ce_handler (custom (mgr s) ! i) = Some f"
    and started: "started (mgr s)" "length (custom (mgr s)) = MAX_CUSTOM_ENDPOINTS (cfg E)"
  shows "(\<exists>c. preempted {request_task E i b, unregister_task n} ([], s) c \<and> fault (snd c)) \<and>
    (\<exists>c k. preempted {request_task E i b, unregister_task n} ([], s) c \<and> hist (snd c) = k @ App (App_endpoint f 0 b) # hist s) \<and>
    (\<exists>c k. preempted {request_task E i b, register_task n f' c'} ([], s) c \<and> hist (snd c) = k @ App (App_endpoint f c' b) # hist s)"
proof -
  have i: "i < length (custom (mgr s))" "i < MAX_CUSTOM_ENDPOINTS (cfg E)"
    using ep(1) started(2) by (auto simp: find_custom_ep_def dest!: find_custom_from_Some)
  have "along [0, 1, 1, 0, 0, 0] ([request_task E i b, unregister_task n], s) (\<lambda>c. fault (snd c))"
    using assms(1-4) i by (simp add: endpoint_task_defs cong: schedule_cong)
  from schedule_reaches_alone [OF this, of "{request_task E i b, unregister_task n}"]
  have null: "\<exists>c. preempted {request_task E i b, unregister_task n} ([], s) c \<and> fault (snd c)" by simp
  have "along [0, 0, 1, 1, 1, 0, 0] ([request_task E i b, unregister_task n], s) (\<lambda>c. \<exists>k. hist (snd c) = k @ App (App_endpoint f 0 b) # hist s)"
    using assms(1-4) i by (auto simp: endpoint_task_defs occurs cong: schedule_cong split: option.split)
  from schedule_reaches_alone [OF this, of "{request_task E i b, unregister_task n}"]
  have none: "\<exists>c k. preempted {request_task E i b, unregister_task n} ([], s) c \<and> hist (snd c) = k @ App (App_endpoint f 0 b) # hist s" by auto
  have "along [0, 0, 1, 1, 1, 0, 0] ([request_task E i b, register_task n f' c'], s) (\<lambda>c. \<exists>k. hist (snd c) = k @ App (App_endpoint f c' b) # hist s)"
    using assms(1-4) i by (auto simp: endpoint_task_defs cong: schedule_cong split: option.split)
  from schedule_reaches_alone [OF this, of "{request_task E i b, register_task n f' c'}"]
  have mix: "\<exists>c k. preempted {request_task E i b, register_task n f' c'} ([], s) c \<and> hist (snd c) = k @ App (App_endpoint f c' b) # hist s" by auto
  show ?thesis by (intro conjI null none mix)
qed

theorem unregister_race_unsafe_witness:
  "\<exists>c. preempted {request_task ok_env 0 [1], unregister_task ''custom''} ([], race_world (Some 7) 9) c \<and> fault (snd c)"
proof -
  have "find_custom_ep (mgr (race_world (Some 7) 9)) ''custom'' = Some 0"
    by (simp add: race_world_simps find_custom_ep_def)
  from unregister_race_unsafe [OF this, of 7 ok_env "[1]" 0 0] show ?thesis
    by (simp add: race_world_simps)
qed

end
