(* ===== verification/Scan_Race.thy ===== *)
theory Scan_Race
  imports Preemption Wifi_Scan
begin

text \<open>
  The Wi-Fi scan cache under preemption (wifi_scan_handler.c): \<open>sc.entries\<close> as the array it is, filled by the
  thread of the network management events while requests read it in the transport's thread, without a lock.
  Every access to \<open>sc.count\<close>, \<open>sc.finished\<close> and to a field of an entry is a step. An access outside the array sets \<open>c_fault\<close>.
\<close>

section \<open>The cache in memory\<close>

record scan_slot =
  sl_ssid :: bytes
  sl_ssid_len :: u8
  sl_bssid :: bytes
  sl_channel :: u8
  sl_rssi :: "8 word"
  sl_auth :: WifiAuthMode

record wifi_cache =
  c_entries :: "scan_slot list"
  c_count :: nat
  c_finished :: bool
  c_fault :: bool

definition zero_slot :: scan_slot where
  "zero_slot = \<lparr>sl_ssid = zeros WIFI_SSID_MAX_LEN, sl_ssid_len = 0, sl_bssid = zeros WIFI_MAC_ADDR_LEN, sl_channel = 0,
     sl_rssi = 0, sl_auth = WifiAuthMode_Open\<rparr>"

definition load :: "nat \<Rightarrow> (scan_slot \<Rightarrow> 'a) \<Rightarrow> (wifi_cache, 'a) state" where
  "load i sel = State (\<lambda>c. if i < length (c_entries c) then (sel (c_entries c ! i), c)
     else (sel zero_slot, c\<lparr>c_fault := True\<rparr>))"

definition store :: "nat \<Rightarrow> (scan_slot \<Rightarrow> scan_slot) \<Rightarrow> (wifi_cache, unit) state" where
  "store i f = modify (\<lambda>c. if i < length (c_entries c) then c\<lparr>c_entries := (c_entries c)[i := f (c_entries c ! i)]\<rparr>
     else c\<lparr>c_fault := True\<rparr>)"

lemma wp_load [wp, simp]: "i < length (c_entries c) \<Longrightarrow> wp (load i sel) Q c = Q (sel (c_entries c ! i)) c"
  by (simp add: load_def wp_def)

lemma wp_store [wp, simp]: "i < length (c_entries c) \<Longrightarrow>
    wp (store i f) Q c = Q () (c\<lparr>c_entries := (c_entries c)[i := f (c_entries c ! i)]\<rparr>)"
  by (simp add: store_def)

section \<open>The functions in steps\<close>

definition on_scan_result_task :: "nat \<Rightarrow> wifi_scan_result \<Rightarrow> (wifi_cache, 'r) task \<Rightarrow> (wifi_cache, 'r) task" where
  "on_scan_result_task cap r k =
    act (gets c_count) (\<lambda>n.
    if n \<ge> cap then k
    else act (gets c_count) (\<lambda>i.
      act (modify (\<lambda>c. c\<lparr>c_count := i + 1\<rparr>)) (\<lambda>_.
      act (store i (\<lambda>e. e\<lparr>sl_ssid_len := of_nat (min (unat (sr_ssid_length r)) WIFI_SSID_MAX_LEN)\<rparr>)) (\<lambda>_.
      act (load i sl_ssid_len) (\<lambda>l.
      act (store i (\<lambda>e. e\<lparr>sl_ssid := memcpy (sl_ssid e) (take (unat l) (sr_ssid r))\<rparr>)) (\<lambda>_.
      act (store i (\<lambda>e. e\<lparr>sl_bssid := memcpy (sl_bssid e) (take WIFI_MAC_ADDR_LEN (sr_mac r))\<rparr>)) (\<lambda>_.
      act (store i (\<lambda>e. e\<lparr>sl_channel := sr_channel r\<rparr>)) (\<lambda>_.
      act (store i (\<lambda>e. e\<lparr>sl_rssi := sr_rssi r\<rparr>)) (\<lambda>_.
      act (store i (\<lambda>e. e\<lparr>sl_auth := auth_from_zephyr (sr_security r)\<rparr>)) (\<lambda>_. k))))))))))"

text \<open>The thread that delivers the events, one after the other.\<close>

fun mgmt_event_thread :: "nat \<Rightarrow> wifi_scan_event list \<Rightarrow> (wifi_cache, 'r) task \<Rightarrow> (wifi_cache, 'r) task" where
  "mgmt_event_thread cap [] k = k"
| "mgmt_event_thread cap (SCAN_RESULT r # evs) k = on_scan_result_task cap r (mgmt_event_thread cap evs k)"
| "mgmt_event_thread cap (SCAN_DONE # evs) k = act (modify (\<lambda>c. c\<lparr>c_finished := True\<rparr>)) (\<lambda>_. mgmt_event_thread cap evs k)"

text \<open>\<open>do_scan_start\<close> with its effect on the cache; \<open>ok\<close> says whether the scan request was accepted.\<close>

definition do_scan_start_task :: "bool \<Rightarrow> (wifi_cache, 'r) task \<Rightarrow> (wifi_cache, 'r) task" where
  "do_scan_start_task ok k =
    act (modify (\<lambda>c. c\<lparr>c_count := 0\<rparr>)) (\<lambda>_.
    act (modify (\<lambda>c. c\<lparr>c_finished := False\<rparr>)) (\<lambda>_.
    if ok then k else act (modify (\<lambda>c. c\<lparr>c_finished := True\<rparr>)) (\<lambda>_. k)))"

definition scan_status_task :: "(bool \<Rightarrow> u32 \<Rightarrow> (wifi_cache, 'r) task) \<Rightarrow> (wifi_cache, 'r) task" where
  "scan_status_task k = act (gets c_finished) (\<lambda>fin. act (gets c_count) (\<lambda>n. k fin (of_nat n)))"

text \<open>The copy of one entry into the response, and the loop over a page.\<close>

definition copy_entry_task :: "nat \<Rightarrow> (WiFiScanResult \<Rightarrow> (wifi_cache, 'r) task) \<Rightarrow> (wifi_cache, 'r) task" where
  "copy_entry_task i k =
    act (load i sl_ssid_len) (\<lambda>size.
    act (load i sl_ssid_len) (\<lambda>len.
    act (load i (\<lambda>e. take (unat len) (sl_ssid e))) (\<lambda>ssid.
    act (load i sl_channel) (\<lambda>channel.
    act (load i sl_rssi) (\<lambda>rssi.
    act (load i (\<lambda>e. take WIFI_MAC_ADDR_LEN (sl_bssid e))) (\<lambda>bssid.
    act (load i sl_auth) (\<lambda>auth.
    k \<lparr>wsr_ssid = take (unat size) (memcpy (zeros WIFI_SSID_MAX_LEN) ssid), wsr_channel = ucast channel, wsr_rssi = scast rssi,
       wsr_bssid = bssid, wsr_auth = auth\<rparr>)))))))"

function scan_result_loop :: "u32 \<Rightarrow> u32 \<Rightarrow> nat \<Rightarrow> WiFiScanResult list \<Rightarrow>
    (WiFiScanResult list \<Rightarrow> (wifi_cache, 'r) task) \<Rightarrow> (wifi_cache, 'r) task" where
  "scan_result_loop want i n out k =
    act (gets c_count) (\<lambda>count.
    if unat i < count \<and> n < PAGE_ENTRIES \<and> n < unat want
    then copy_entry_task (unat i) (\<lambda>w. scan_result_loop want (i + 1) (n + 1) (out @ [w]) k)
    else k out)"
  by pat_completeness auto
termination by (relation "measure (\<lambda>(want, i, n, out, k). PAGE_ENTRIES - n)") auto

declare scan_result_loop.simps [simp del]

section \<open>Without preemption the cache is the list of its used entries\<close>

definition slot_wf :: "scan_slot \<Rightarrow> bool" where
  "slot_wf e \<longleftrightarrow> length (sl_ssid e) = WIFI_SSID_MAX_LEN \<and> unat (sl_ssid_len e) \<le> WIFI_SSID_MAX_LEN \<and>
     length (sl_bssid e) = WIFI_MAC_ADDR_LEN"

definition cache_wf :: "nat \<Rightarrow> wifi_cache \<Rightarrow> bool" where
  "cache_wf cap c \<longleftrightarrow> \<not> c_fault c \<and> length (c_entries c) = cap \<and> c_count c \<le> cap \<and> (\<forall>e \<in> set (c_entries c). slot_wf e)"

text \<open>The arrays of a result of the driver have their sizes.\<close>

definition result_wf :: "wifi_scan_result \<Rightarrow> bool" where
  "result_wf r \<longleftrightarrow> WIFI_SSID_MAX_LEN \<le> length (sr_ssid r) \<and> length (sr_mac r) = WIFI_MAC_ADDR_LEN"

definition slot_entry :: "scan_slot \<Rightarrow> scan_entry" where
  "slot_entry e = \<lparr>se_ssid = take (unat (sl_ssid_len e)) (sl_ssid e), se_bssid = sl_bssid e, se_channel = sl_channel e,
     se_rssi = sl_rssi e, se_auth = sl_auth e\<rparr>"

definition used_entries :: "wifi_cache \<Rightarrow> scan_entry list" where
  "used_entries c = map slot_entry (take (c_count c) (c_entries c))"

lemma ssid_len_of: "unat (of_nat (min (unat (x :: u8)) WIFI_SSID_MAX_LEN) :: u8) = min (unat x) WIFI_SSID_MAX_LEN"
  by (simp add: unat_of_nat take_bit_nat_eq_self)

lemma length_cached [simp]: "cache_wf cap c \<Longrightarrow> length (used_entries c) = c_count c"
  by (simp add: used_entries_def cache_wf_def)

lemma nth_cached: "cache_wf cap c \<Longrightarrow> i < c_count c \<Longrightarrow> used_entries c ! i = slot_entry (c_entries c ! i)"
  by (simp add: used_entries_def cache_wf_def)

lemma slot_at: "cache_wf cap c \<Longrightarrow> i < cap \<Longrightarrow> slot_wf (c_entries c ! i)"
  by (auto simp: cache_wf_def)

text \<open>The whole list of updates of a new entry.\<close>

definition filled :: "wifi_scan_result \<Rightarrow> scan_slot \<Rightarrow> scan_slot" where
  "filled r e = \<lparr>sl_ssid = memcpy (sl_ssid e) (take (min (unat (sr_ssid_length r)) WIFI_SSID_MAX_LEN) (sr_ssid r)),
     sl_ssid_len = of_nat (min (unat (sr_ssid_length r)) WIFI_SSID_MAX_LEN),
     sl_bssid = memcpy (sl_bssid e) (take WIFI_MAC_ADDR_LEN (sr_mac r)), sl_channel = sr_channel r, sl_rssi = sr_rssi r,
     sl_auth = auth_from_zephyr (sr_security r)\<rparr>"

lemma filled_entry: "slot_wf e \<Longrightarrow> result_wf r \<Longrightarrow> slot_wf (filled r e) \<and> slot_entry (filled r e) = scan_entry_of r"
  by (auto simp: slot_wf_def filled_def slot_entry_def scan_entry_of_def result_wf_def ssid_len_of length_memcpy_at
      take_memcpy_n memcpy_full)

lemma run_on_scan_result:
  assumes "cache_wf cap c"
  shows "wp (run_all (on_scan_result_task cap r k)) Q c =
    wp (run_all k) Q (if c_count c \<ge> cap then c
      else c\<lparr>c_count := c_count c + 1, c_entries := (c_entries c)[c_count c := filled r (c_entries c ! c_count c)]\<rparr>)"
  using assms
  by (cases "c_entries c ! c_count c") (simp add: on_scan_result_task_def cache_wf_def filled_def ssid_len_of)

lemma on_scan_result_refines:
  assumes "cache_wf cap c" "result_wf r"
  shows "wp (run_all (on_scan_result_task cap r (Returned x))) (\<lambda>_ c'. cache_wf cap c' \<and> c_finished c' = c_finished c \<and>
    used_entries c' = (if length (used_entries c) \<ge> cap then used_entries c else used_entries c @ [scan_entry_of r])) c"
proof (cases "c_count c \<ge> cap")
  case True
  then show ?thesis using assms by (simp add: run_on_scan_result)
next
  case False
  let ?e = "filled r (c_entries c ! c_count c)"
  have "slot_wf ?e" "slot_entry ?e = scan_entry_of r" using filled_entry [OF slot_at assms(2)] assms(1) False by auto
  then show ?thesis using assms False
    by (auto simp: run_on_scan_result cache_wf_def used_entries_def take_Suc_conv_app_nth
        dest!: set_update_subset_insert [THEN subsetD])
qed

lemma run_copy_entry:
  assumes "cache_wf cap c" "i < cap"
  shows "wp (run_all (copy_entry_task i k)) Q c = wp (run_all (k (wifi_result_of (slot_entry (c_entries c ! i))))) Q c"
  using assms slot_at [OF assms]
  by (simp add: copy_entry_task_def cache_wf_def slot_wf_def wifi_result_of_def slot_entry_def take_memcpy_n)

lemma run_scan_result_loop:
  assumes "cache_wf cap c"
  shows "wp (run_all (scan_result_loop want i n out k)) Q c =
    wp (run_all (k (out @ scan_loop wifi_result_of (used_entries c) PAGE_ENTRIES want i n))) Q c"
proof (induction want i n out k rule: scan_result_loop.induct)
  case (1 want i n out k)
  show ?case
  proof (cases "unat i < c_count c \<and> n < PAGE_ENTRIES \<and> n < unat want")
    case True
    moreover from this assms have "unat i < cap" by (auto simp: cache_wf_def)
    ultimately show ?thesis using 1 assms
      by (subst scan_result_loop.simps, subst scan_loop.simps) (simp add: run_copy_entry nth_cached)
  next
    case False
    then show ?thesis using assms
      by (subst scan_result_loop.simps, subst scan_loop.simps) auto
  qed
qed

text \<open>A request that is not interrupted returns the page of the list.\<close>

lemma scan_result_page:
  assumes "cache_wf cap c"
  shows "wp (run_all (scan_result_loop want start 0 [] Returned)) (\<lambda>ws c'. c' = c \<and> ws = wifi_scan_page (used_entries c) start want) c"
  using assms by (simp add: run_scan_result_loop wifi_scan_page_def)

section \<open>Preemption\<close>

text \<open>Requests of the transport's threads; the event thread runs beside them.\<close>

inductive_set scan_tasks :: "(wifi_cache, WiFiScanResult list) task set" where
  "do_scan_start_task ok (Returned []) \<in> scan_tasks"
| "scan_status_task (\<lambda>_ _. Returned []) \<in> scan_tasks"
| "scan_result_loop want start 0 [] Returned \<in> scan_tasks"

text \<open>A request changes no entry and at most empties the cache; only the event thread relies on that.\<close>

definition request_step :: "wifi_cache \<Rightarrow> wifi_cache \<Rightarrow> bool" where
  "request_step c c' \<longleftrightarrow> c_entries c' = c_entries c \<and> c_count c' \<le> c_count c"

abbreviation reader :: "nat \<Rightarrow> (wifi_cache, 'r) task \<Rightarrow> bool" where
  "reader cap \<equiv> keeps_faith (cache_wf cap) (\<lambda>_ _. True) request_step (\<lambda>_. 0) (\<lambda>_. True) 0"

abbreviation writer :: "nat \<Rightarrow> (wifi_cache \<Rightarrow> bool) \<Rightarrow> (wifi_cache, 'r) task \<Rightarrow> bool" where
  "writer cap P \<equiv> keeps_faith (cache_wf cap) request_step (\<lambda>_ _. True) (\<lambda>_. 0) P 0"

lemma reader_step:
  assumes "\<And>c. cache_wf cap c \<Longrightarrow> wp m (\<lambda>a c'. cache_wf cap c' \<and> request_step c c' \<and> ok a) c" "\<And>a. ok a \<Longrightarrow> reader cap (k a)"
  shows "reader cap (act m k)"
  by (rule faith_assert [where P' = "\<lambda>a _. ok a"]) (use assms in \<open>auto simp: stable_under_def cong: conj_cong\<close>)

lemma reader_steps:
  "i < cap \<Longrightarrow> (\<And>a. reader cap (k a)) \<Longrightarrow> reader cap (act (load i sel) k)"
  "(\<And>a. reader cap (k a)) \<Longrightarrow> reader cap (act (gets f) k)"
  "(\<And>n. n \<le> cap \<Longrightarrow> reader cap (g n)) \<Longrightarrow> reader cap (act (gets c_count) g)"
  "(\<And>a. reader cap (h a)) \<Longrightarrow> reader cap (act (modify (\<lambda>c. c\<lparr>c_count := 0\<rparr>)) h)"
  "(\<And>a. reader cap (h a)) \<Longrightarrow> reader cap (act (modify (\<lambda>c. c\<lparr>c_finished := b\<rparr>)) h)"
proof -
  show "i < cap \<Longrightarrow> (\<And>a. reader cap (k a)) \<Longrightarrow> reader cap (act (load i sel) k)"
    by (rule reader_step [where ok = "\<lambda>_. True"]) (simp_all add: cache_wf_def [of _ c for c] request_step_def [of c for c])
  show "(\<And>n. n \<le> cap \<Longrightarrow> reader cap (g n)) \<Longrightarrow> reader cap (act (gets c_count) g)"
    by (rule reader_step [where ok = "\<lambda>n. n \<le> cap"]) (simp_all add: cache_wf_def [of _ c for c] request_step_def [of c for c])
qed (rule reader_step [where ok = "\<lambda>_. True"]; simp add: cache_wf_def [of _ c for c] request_step_def [of c for c])+

lemma reader_returned: "reader cap (Returned r)"
  by (rule keeps_faith.returned) (simp add: stable_under_def)

lemma reader_loop:
  assumes "\<And>ws. reader cap (k ws)"
  shows "reader cap (scan_result_loop want i n out k)"
  using assms
proof (induction want i n out k rule: scan_result_loop.induct)
  case (1 want i n out k)
  have "reader cap (copy_entry_task (unat i) (\<lambda>w. scan_result_loop want (i + 1) (n + 1) (out @ [w]) k))"
    if "unat i < count" "count \<le> cap" "n < PAGE_ENTRIES" "n < unat want" for count
    unfolding copy_entry_task_def using that 1 by (intro reader_steps(1) 1(1) [of count]) auto
  with 1(2) show ?case
    by (subst scan_result_loop.simps, intro reader_steps(3)) auto
qed

lemma reader_requests: "t \<in> scan_tasks \<Longrightarrow> reader cap t"
  by (induction rule: scan_tasks.induct)
    (simp_all add: do_scan_start_task_def scan_status_task_def reader_loop reader_steps reader_returned)

lemma stable_assertions: "stable_under request_step (\<lambda>_. b)" "stable_under request_step (\<lambda>c. c_count c < cap)"
  by (auto simp: stable_under_def request_step_def)

lemma writer_step:
  assumes "stable_under request_step P" "\<And>c. cache_wf cap c \<Longrightarrow> P c \<Longrightarrow> wp m (\<lambda>a c'. cache_wf cap c' \<and> P' a c') c"
    and "\<And>a c. P' a c \<Longrightarrow> writer cap (P' a) (k a)"
  shows "writer cap P (act m k)"
  by (rule faith_assert [where P' = P']) (use assms in auto)

lemma wf_store: "cache_wf cap c \<Longrightarrow> (slot_wf (c_entries c ! i) \<Longrightarrow> slot_wf e) \<Longrightarrow> i < cap \<Longrightarrow>
    cache_wf cap (c\<lparr>c_entries := (c_entries c)[i := e]\<rparr>)"
  by (auto simp: cache_wf_def dest!: set_update_subset_insert [THEN subsetD])

lemma writer_store:
  assumes "i < cap" "\<And>e. slot_wf e \<Longrightarrow> slot_wf (f e)" "writer cap (\<lambda>_. True) k"
  shows "writer cap (\<lambda>_. True) (act (store i f) (\<lambda>_. k))"
proof (rule writer_step [where P' = "\<lambda>_ _. True", OF stable_assertions(1)])
  fix c assume c: "cache_wf cap c"
  moreover from this assms(1) have "i < length (c_entries c)" by (simp add: cache_wf_def)
  ultimately show "wp (store i f) (\<lambda>a c'. cache_wf cap c' \<and> True) c"
    using assms(1,2) by (simp add: wf_store)
qed (rule assms(3))

lemma writer_load_len:
  assumes "i < cap" "\<And>l. unat l \<le> WIFI_SSID_MAX_LEN \<Longrightarrow> writer cap (\<lambda>_. True) (k l)"
  shows "writer cap (\<lambda>_. True) (act (load i sl_ssid_len) k)"
proof (rule writer_step [where P' = "\<lambda>l _. unat l \<le> WIFI_SSID_MAX_LEN", OF stable_assertions(1)])
  fix c assume c: "cache_wf cap c"
  with assms(1) slot_at [OF c assms(1)] show "wp (load i sl_ssid_len) (\<lambda>l c'. cache_wf cap c' \<and> unat l \<le> WIFI_SSID_MAX_LEN) c"
    by (simp add: cache_wf_def slot_wf_def)
qed (use assms(2) in simp)

lemma writer_on_scan_result:
  assumes "writer cap (\<lambda>_. True) k"
  shows "writer cap (\<lambda>_. True) (on_scan_result_task cap r k)"
proof -
  let ?fill = "\<lambda>i. act (store i (\<lambda>e. e\<lparr>sl_ssid_len := of_nat (min (unat (sr_ssid_length r)) WIFI_SSID_MAX_LEN)\<rparr>)) (\<lambda>_.
      act (load i sl_ssid_len) (\<lambda>l.
      act (store i (\<lambda>e. e\<lparr>sl_ssid := memcpy (sl_ssid e) (take (unat l) (sr_ssid r))\<rparr>)) (\<lambda>_.
      act (store i (\<lambda>e. e\<lparr>sl_bssid := memcpy (sl_bssid e) (take WIFI_MAC_ADDR_LEN (sr_mac r))\<rparr>)) (\<lambda>_.
      act (store i (\<lambda>e. e\<lparr>sl_channel := sr_channel r\<rparr>)) (\<lambda>_.
      act (store i (\<lambda>e. e\<lparr>sl_rssi := sr_rssi r\<rparr>)) (\<lambda>_.
      act (store i (\<lambda>e. e\<lparr>sl_auth := auth_from_zephyr (sr_security r)\<rparr>)) (\<lambda>_. k)))))))"
  have fill: "writer cap (\<lambda>_. True) (?fill i)" if "i < cap" for i
    using that by (intro writer_store writer_load_len assms) (auto simp: slot_wf_def ssid_len_of length_memcpy_at)
  have count: "writer cap (\<lambda>_. i < cap) (act (modify (\<lambda>c. c\<lparr>c_count := i + 1\<rparr>)) (\<lambda>_. ?fill i))" if "i < cap" for i
    by (rule writer_step [where P' = "\<lambda>_ _. True", OF stable_assertions(1) _ fill [OF that]]) (auto simp: cache_wf_def)
  have "writer cap (\<lambda>c. c_count c < cap) (act (gets c_count) (\<lambda>i. act (modify (\<lambda>c. c\<lparr>c_count := i + 1\<rparr>)) (\<lambda>_. ?fill i)))"
    by (rule writer_step [where P' = "\<lambda>i _. i < cap", OF stable_assertions(2) _ count]) auto
  then show ?thesis unfolding on_scan_result_task_def
    by (intro writer_step [where P' = "\<lambda>n c. if n < cap then c_count c < cap else True", OF stable_assertions(1)])
      (auto intro!: assms split: if_splits)
qed

lemma writer_thread: "writer cap (\<lambda>_. True) k \<Longrightarrow> writer cap (\<lambda>_. True) (mgmt_event_thread cap evs k)"
proof (induction cap evs k rule: mgmt_event_thread.induct)
  case (3 cap evs k)
  have "wp (modify (\<lambda>c. c\<lparr>c_finished := True\<rparr>)) (\<lambda>_ c'. cache_wf cap c' \<and> True) c" if "cache_wf cap c" for c
    using that by (simp add: cache_wf_def)
  then have "writer cap (\<lambda>_. True) (act (modify (\<lambda>c. c\<lparr>c_finished := True\<rparr>)) (\<lambda>_. mgmt_event_thread cap evs k))"
    by (intro writer_step [where P' = "\<lambda>_ _. True", OF stable_assertions(1)] 3)
  then show ?case by simp
qed (auto intro: writer_on_scan_result)

interpretation scan_race: preemptive_thread "mgmt_event_thread cap evs (Returned [])" scan_tasks "cache_wf cap"
    request_step "\<lambda>_ _. True" "\<lambda>_ _. True" request_step "\<lambda>_. 0"
  by unfold_locales (auto intro: writer_thread keeps_faith.returned stable_assertions reader_requests)

text \<open>An empty cache with room for one network, and a network.\<close>

definition demo_cache :: wifi_cache where
  "demo_cache = \<lparr>c_entries = [zero_slot], c_count = 0, c_finished = False, c_fault = False\<rparr>"

definition demo_result :: wifi_scan_result where
  "demo_result = \<lparr>sr_ssid = replicate 33 104, sr_ssid_length = 40, sr_mac = [1, 2, 3, 4, 5, 6], sr_channel = 6, sr_rssi = 200,
     sr_security = WIFI_SECURITY_TYPE_PSK\<rparr>"

section \<open>Properties\<close>

text \<open>C11. The Wi-Fi scan cache has no lock, and stays inside its array all the same: however the steps of the event thread
  (results and ends of scans, in any number and of any content) are interleaved with the steps of any number of requests that start a scan,
  ask for its state or read a page from any index, no access leaves the array of \<open>SCAN_MAX_ENTRIES\<close> entries, the number of
  entries never exceeds it, and no entry has an SSID longer than its buffer.\<close>

theorem scan_cache_preempted:
  assumes "preempted scan_tasks ([mgmt_event_thread cap evs (Returned [])], c) (pool, c')" and "cache_wf cap c"
  shows "\<not> c_fault c' \<and> length (c_entries c') = cap \<and> c_count c' \<le> cap \<and>
    (\<forall>e \<in> set (c_entries c'). unat (sl_ssid_len e) \<le> length (sl_ssid e))"
  using scan_race.thread_interleavings_safe [OF assms] by (auto simp: cache_wf_def slot_wf_def)

theorem scan_cache_preempted_witness:
  "\<exists>pool c'. preempted scan_tasks ([mgmt_event_thread 1 [SCAN_RESULT demo_result, SCAN_RESULT demo_result] (Returned [])],
      demo_cache) (pool, c') \<and> c_count c' = 1 \<and> \<not> c_fault c'"
proof -
  let ?u = "mgmt_event_thread 1 [SCAN_RESULT demo_result, SCAN_RESULT demo_result] (Returned [])"
  have "along [0,0,0,0,0,0,0,0,0,0, 0] ([?u] @ [], demo_cache) (\<lambda>(pool, c'). c_count c' = 1)"
    by (simp add: on_scan_result_task_def demo_cache_def cong: schedule_cong)
  from schedule_reaches [OF this, of scan_tasks] obtain pool c' where
    run: "preempted scan_tasks ([?u], demo_cache) (pool, c')" "c_count c' = 1" by auto
  from scan_cache_preempted [OF run(1)] have "\<not> c_fault c'"
    by (simp add: demo_cache_def cache_wf_def slot_wf_def zero_slot_def)
  with run show ?thesis by blast
qed

text \<open>C31. What the lock would be for: a request for the results can return an entry that is not there yet. When the cache is empty
  and the driver reports a network, a request in between sees the new count and the old contents of the entry \<open>e\<close>
  (those of an earlier scan, or of the cleared array), whatever network is reported; the request would return nothing
  before the report and the new network after it.\<close>

theorem scan_page_torn:
  assumes cache: "cache_wf cap c" "c_count c = 0" "c_entries c = e # es" and r: "result_wf r"
  shows "(\<exists>c'. preempted scan_tasks ([mgmt_event_thread cap [SCAN_RESULT r] (Returned [])], c)
      ([Returned [], Returned [wifi_result_of (slot_entry e)]], c') \<and> used_entries c' = [scan_entry_of r]) \<and>
    wp (run_all (scan_result_loop 4 0 0 [] Returned)) (\<lambda>ws _. ws = []) c \<and>
    wp (do { run_all (mgmt_event_thread cap [SCAN_RESULT r] (Returned [])); run_all (scan_result_loop 4 0 0 [] Returned) })
      (\<lambda>ws _. ws = [wifi_result_of (scan_entry_of r)]) c"
proof (intro conjI)
  let ?u = "mgmt_event_thread cap [SCAN_RESULT r] (Returned [])" and ?t = "scan_result_loop 4 0 0 [] Returned"
  have e: "slot_wf e" "0 < cap" using cache by (auto simp: cache_wf_def)
  have new: "slot_entry (filled r e) = scan_entry_of r" using filled_entry [OF e(1) r] by simp
  have "along [0,0,0, 1,1,1,1,1,1,1,1,1, 0,0,0,0,0,0,0] ([?u] @ [?t], c)
      (\<lambda>(pool, c'). pool = [Returned [], Returned [wifi_result_of (slot_entry e)]] \<and> used_entries c' = [slot_entry (filled r e)])"
    using cache e
    by (simp add: on_scan_result_task_def scan_result_loop.simps copy_entry_task_def cache_wf_def cong: schedule_cong)
      (simp add: used_entries_def filled_def slot_entry_def wifi_result_of_def slot_wf_def take_memcpy_n ssid_len_of)
  from schedule_reaches [OF this, of scan_tasks] new
  show "\<exists>c'. preempted scan_tasks ([?u], c) ([Returned [], Returned [wifi_result_of (slot_entry e)]], c') \<and> used_entries c' = [scan_entry_of r]"
    by (auto simp: scan_tasks.intros)
  show "wp (run_all ?t) (\<lambda>ws _. ws = []) c"
    using cache by (auto simp: wifi_pages.page_law used_entries_def intro!: wp_mono [OF scan_result_page [OF cache(1)]])
  show "wp (do { run_all ?u; run_all ?t }) (\<lambda>ws _. ws = [wifi_result_of (scan_entry_of r)]) c"
    using cache e r used_entries_def [of c]
    by (auto intro!: wp_mono [OF on_scan_result_refines [OF cache(1) r]] wp_mono [OF scan_result_page [of cap]]
        simp: wifi_pages.page_law)
qed

theorem scan_page_torn_witness:
  "\<exists>c'. preempted scan_tasks ([mgmt_event_thread 1 [SCAN_RESULT demo_result] (Returned [])], demo_cache)
      ([Returned [], Returned [wifi_result_of (slot_entry zero_slot)]], c') \<and> used_entries c' = [scan_entry_of demo_result]"
  by (rule scan_page_torn [THEN conjunct1])
    (simp_all add: demo_cache_def demo_result_def cache_wf_def slot_wf_def zero_slot_def result_wf_def)

end
