(* ===== verification/Fake_Wifi.thy ===== *)
theory Fake_Wifi
  imports Wifi_Config Wifi_Scan
begin

text \<open>
  \<^verbatim>\<open>src/sim/wifi/fake_wifi.c\<close>: the simulated Wi-Fi driver with which the whole program runs on a host
  without hardware. It is a model of the Wi-Fi stack inside the repository: the last part puts it in the
  place of the parameter \<open>wifi\<close> and shows what a provisioning attempt and a scan then do.
\<close>

section \<open>The driver\<close>

text \<open>\<open>struct fake_wifi_ap\<close> (fake_wifi.h).\<close>

record fake_wifi_ap =
  ap_ssid :: bytes
  ap_ssid_len :: u8
  ap_bssid :: bytes
  ap_channel :: u8
  ap_rssi :: "8 word"
  ap_security :: wifi_security_type

text \<open>\<open>struct fake_wifi_data\<close>: an array with its length is the list of the used elements; \<open>scan_cb\<close> is
  whether the callback is set; the last two fields say whether a work item is submitted.\<close>

record fake_wifi_data =
  aps :: "fake_wifi_ap list"
  next_conn :: int
  next_sync_err :: int
  creds_mode :: bool
  exp_ssid :: bytes
  exp_pass :: bytes
  conn_ssid :: bytes
  conn_channel :: u8
  fw_connected :: bool
  scan_cb :: bool
  scan_work :: bool
  connect_work :: bool

definition fw_data :: fake_wifi_data where
  "fw_data = \<lparr>aps = [], next_conn = WIFI_STATUS_CONN_SUCCESS, next_sync_err = 0, creds_mode = False, exp_ssid = [],
     exp_pass = [], conn_ssid = [], conn_channel = 0, fw_connected = False, scan_cb = False, scan_work = False,
     connect_work = False\<rparr>"

text \<open>What the driver raises: scan callbacks and network management events.\<close>

datatype fw_event = Scan_cb wifi_scan_event | Connect_result int | Disconnect_result int

subsection \<open>Test control\<close>

text \<open>\<open>max_ap\<close> is the Kconfig bound of the list.\<close>

definition fake_wifi_set_scan_aps :: "nat \<Rightarrow> fake_wifi_ap list \<Rightarrow> nat \<Rightarrow> fake_wifi_data \<Rightarrow> fake_wifi_data" where
  "fake_wifi_set_scan_aps max_ap xs count d =
    (let n = (if count > max_ap then max_ap else count) in d\<lparr>aps := take n xs\<rparr>)"

definition fake_wifi_set_next_connect_result :: "int \<Rightarrow> fake_wifi_data \<Rightarrow> fake_wifi_data" where
  "fake_wifi_set_next_connect_result status d = d\<lparr>next_conn := status\<rparr>"

definition fake_wifi_set_next_connect_sync_error :: "int \<Rightarrow> fake_wifi_data \<Rightarrow> fake_wifi_data" where
  "fake_wifi_set_next_connect_sync_error errnum d = d\<lparr>next_sync_err := errnum\<rparr>"

definition fake_wifi_set_expected_credentials :: "cstr \<Rightarrow> cstr \<Rightarrow> fake_wifi_data \<Rightarrow> fake_wifi_data" where
  "fake_wifi_set_expected_credentials ssid pass d =
    (if cstr_empty ssid then d\<lparr>creds_mode := False\<rparr>
     else d\<lparr>creds_mode := True, exp_ssid := take WIFI_SSID_MAX_LEN (bytes_of_string (the ssid)),
       exp_pass := (case pass of None \<Rightarrow> [] | Some p \<Rightarrow> take WIFI_PSK_MAX_LEN (bytes_of_string p))\<rparr>)"

definition fake_wifi_reset :: "fake_wifi_data \<Rightarrow> fake_wifi_data" where
  "fake_wifi_reset d = d\<lparr>aps := [], next_conn := WIFI_STATUS_CONN_SUCCESS, next_sync_err := 0, creds_mode := False,
     exp_ssid := [], exp_pass := [], fw_connected := False, conn_ssid := []\<rparr>"

subsection \<open>Connect\<close>

fun ssid_in_list :: "fake_wifi_ap list \<Rightarrow> bytes \<Rightarrow> bool" where
  "ssid_in_list [] ssid = False"
| "ssid_in_list (a # as) ssid =
    (if unat (ap_ssid_len a) = length ssid \<and> take (length ssid) (ap_ssid a) = ssid then True else ssid_in_list as ssid)"

definition ssid_in_scan_list :: "fake_wifi_data \<Rightarrow> bytes \<Rightarrow> bool" where
  "ssid_in_scan_list d ssid = ssid_in_list (aps d) ssid"

definition psk_of :: "wifi_connect_req_params \<Rightarrow> bytes" where
  "psk_of p = (case cp_psk p of None \<Rightarrow> [] | Some x \<Rightarrow> x)"

definition creds_outcome :: "fake_wifi_data \<Rightarrow> wifi_connect_req_params \<Rightarrow> int" where
  "creds_outcome d p =
    (if \<not> ssid_in_scan_list d (cp_ssid p) then WIFI_STATUS_CONN_AP_NOT_FOUND
     else if length (cp_ssid p) \<noteq> length (exp_ssid d) \<or> cp_ssid p \<noteq> exp_ssid d \<or>
       length (psk_of p) \<noteq> length (exp_pass d) \<or> exp_pass d \<noteq> [] \<and> psk_of p \<noteq> exp_pass d
     then WIFI_STATUS_CONN_WRONG_PASSWORD
     else WIFI_STATUS_CONN_SUCCESS)"

definition fake_connect :: "wifi_connect_req_params \<Rightarrow> fake_wifi_data \<Rightarrow> int \<times> fake_wifi_data" where
  "fake_connect params d =
    (if next_sync_err d \<noteq> 0 then (- next_sync_err d, d\<lparr>next_sync_err := 0\<rparr>)
     else let d = (if creds_mode d then d\<lparr>next_conn := creds_outcome d params\<rparr> else d)
       in (0, d\<lparr>conn_ssid := take WIFI_SSID_MAX_LEN (cp_ssid params),
         conn_channel := (if cp_channel params = WIFI_CHANNEL_ANY then 1 else cp_channel params),
         connect_work := True\<rparr>))"

definition connect_work_fn :: "fake_wifi_data \<Rightarrow> fw_event list \<times> fake_wifi_data" where
  "connect_work_fn d =
    ([Connect_result (next_conn d)],
     d\<lparr>connect_work := False, fw_connected := (next_conn d = WIFI_STATUS_CONN_SUCCESS)\<rparr>)"

definition fake_disconnect :: "fake_wifi_data \<Rightarrow> int \<times> fw_event list \<times> fake_wifi_data" where
  "fake_disconnect d = (0, [Disconnect_result 0], d\<lparr>fw_connected := False\<rparr>)"

text \<open>The status that a connected station reports; None is the state DISCONNECTED.\<close>

definition fake_iface_status :: "fake_wifi_data \<Rightarrow> int \<times> wifi_iface_status option" where
  "fake_iface_status d =
    (0, if \<not> fw_connected d then None
        else Some \<lparr>ist_ssid = conn_ssid d, ist_bssid = replicate WIFI_MAC_ADDR_LEN 171,
          ist_channel = ucast (conn_channel d)\<rparr>)"

subsection \<open>Scan\<close>

definition scan_result_of :: "fake_wifi_ap \<Rightarrow> wifi_scan_result" where
  "scan_result_of ap = (let n = (if unat (ap_ssid_len ap) < WIFI_SSID_MAX_LEN then unat (ap_ssid_len ap) else WIFI_SSID_MAX_LEN) in
     \<lparr>sr_ssid = memcpy (zeros (WIFI_SSID_MAX_LEN + 1)) (take n (ap_ssid ap)), sr_ssid_length = of_nat n,
       sr_mac = take WIFI_MAC_ADDR_LEN (ap_bssid ap), sr_channel = ap_channel ap, sr_rssi = ap_rssi ap,
       sr_security = ap_security ap\<rparr>)"

text \<open>None when the callback is called through a NULL pointer.\<close>

definition scan_work_fn :: "fake_wifi_data \<Rightarrow> (fw_event list \<times> fake_wifi_data) option" where
  "scan_work_fn d =
    (if \<not> scan_cb d then None
     else Some (map (\<lambda>a. Scan_cb (SCAN_RESULT (scan_result_of a))) (aps d) @ [Scan_cb SCAN_DONE], d\<lparr>scan_work := False\<rparr>))"

definition fake_scan :: "fake_wifi_data \<Rightarrow> int \<times> fake_wifi_data" where
  "fake_scan d = (0, d\<lparr>scan_cb := True, scan_work := True\<rparr>)"

definition fake_ap_enable :: "wifi_connect_req_params \<Rightarrow> int" where
  "fake_ap_enable params = 0"

definition fake_ap_disable :: int where
  "fake_ap_disable = 0"

section \<open>The driver in the place of the stack\<close>

text \<open>The state of the driver follows from the connect requests in the history.\<close>

fun fw_after :: "fake_wifi_data \<Rightarrow> history \<Rightarrow> fake_wifi_data" where
  "fw_after d [] = d"
| "fw_after d (Wifi (Wifi_connect i p) # h) = snd (fake_connect p (fw_after d h))"
| "fw_after d (c # h) = fw_after d h"

definition fake_env :: "fake_wifi_data \<Rightarrow> env \<Rightarrow> env" where
  "fake_env d E = E\<lparr>wifi := (wifi E)\<lparr>
     wifi_connect_ret := \<lambda>h i p. fst (fake_connect p (fw_after d h)),
     wifi_scan_ret := \<lambda>h i. fst (fake_scan (fw_after d h)),
     wifi_ap_enable_ret := \<lambda>h i p. fake_ap_enable p\<rparr>\<rparr>"

lemma fake_env_sel [simp]:
  "wifi_connect_ret (wifi (fake_env d E)) h i p = fst (fake_connect p (fw_after d h))"
  "wifi_iface_of (fake_env d E) h = wifi_iface_of E h"
  "cred_set_personal_ret (wifi (fake_env d E)) = cred_set_personal_ret (wifi E)"
  "cfg (fake_env d E) = cfg E"
  by (simp_all add: fake_env_def wifi_iface_of_def split: option.split)

lemma fw_after_events [simp]: "fw_after d (event_calls E m ev @ h) = fw_after d h"
  by (simp add: event_calls_def)

text \<open>The control fields do not depend on the requests.\<close>

lemma fake_connect_control:
  "creds_mode (snd (fake_connect p d)) = creds_mode d" "aps (snd (fake_connect p d)) = aps d"
  "exp_ssid (snd (fake_connect p d)) = exp_ssid d" "exp_pass (snd (fake_connect p d)) = exp_pass d"
  "next_sync_err (snd (fake_connect p d)) = 0"
  by (simp_all add: fake_connect_def Let_def)

lemma fw_after_control:
  "creds_mode (fw_after d h) = creds_mode d \<and> aps (fw_after d h) = aps d \<and> exp_ssid (fw_after d h) = exp_ssid d \<and>
    exp_pass (fw_after d h) = exp_pass d \<and> (next_sync_err d = 0 \<longrightarrow> next_sync_err (fw_after d h) = 0)"
  by (induction d h rule: fw_after.induct) (simp_all add: fake_connect_control)

text \<open>The verdict on credentials: the network is there, and it is the expected one with the expected
  passphrase.\<close>

definition verdict :: "fake_wifi_data \<Rightarrow> bytes \<Rightarrow> bytes \<Rightarrow> int" where
  "verdict d ssid pass = (if \<not> ssid_in_scan_list d ssid then WIFI_STATUS_CONN_AP_NOT_FOUND
     else if ssid = exp_ssid d \<and> pass = exp_pass d then WIFI_STATUS_CONN_SUCCESS else WIFI_STATUS_CONN_WRONG_PASSWORD)"

lemma creds_outcome_verdict: "creds_outcome d p = verdict d (cp_ssid p) (psk_of p)"
  by (auto simp: creds_outcome_def verdict_def)

lemma psk_of_request: "psk_of (request_of cmd) = cmd_passphrase cmd" "cp_ssid (request_of cmd) = cmd_ssid cmd"
  by (simp_all add: psk_of_def request_of_def)

text \<open>An accepted request leaves the driver with the verdict to deliver.\<close>

lemma fake_connect_verdict:
  assumes "creds_mode d" "next_sync_err d = 0"
  shows "fst (fake_connect (request_of cmd) (fw_after d h)) = 0"
    "connect_work_fn (snd (fake_connect (request_of cmd) (fw_after d h))) =
      ([Connect_result (verdict d (cmd_ssid cmd) (cmd_passphrase cmd))],
       (snd (fake_connect (request_of cmd) (fw_after d h)))\<lparr>connect_work := False,
         fw_connected := (verdict d (cmd_ssid cmd) (cmd_passphrase cmd) = WIFI_STATUS_CONN_SUCCESS)\<rparr>)"
proof -
  have f: "creds_mode (fw_after d h)" "next_sync_err (fw_after d h) = 0" "aps (fw_after d h) = aps d"
    "exp_ssid (fw_after d h) = exp_ssid d" "exp_pass (fw_after d h) = exp_pass d"
    using assms fw_after_control [of d h] by simp_all
  have v: "verdict (fw_after d h) ssid pass = verdict d ssid pass" for ssid pass
    by (simp add: verdict_def ssid_in_scan_list_def f)
  show "fst (fake_connect (request_of cmd) (fw_after d h)) = 0"
    "connect_work_fn (snd (fake_connect (request_of cmd) (fw_after d h))) =
      ([Connect_result (verdict d (cmd_ssid cmd) (cmd_passphrase cmd))],
       (snd (fake_connect (request_of cmd) (fw_after d h)))\<lparr>connect_work := False,
         fw_connected := (verdict d (cmd_ssid cmd) (cmd_passphrase cmd) = WIFI_STATUS_CONN_SUCCESS)\<rparr>)"
    using f v by (simp_all add: fake_connect_def connect_work_fn_def Let_def creds_outcome_verdict psk_of_request)
qed

text \<open>The kernel delivers what the driver raises to the handlers that registered for it.\<close>

fun deliver :: "env \<Rightarrow> fw_event \<Rightarrow> unit prog" where
  "deliver E (Connect_result st) = wifi_config_mgmt_event E (NET_EVENT_WIFI_CONNECT_RESULT st)"
| "deliver E (Scan_cb ev) = wifi_scan_mgmt_event E ev"
| "deliver E (Disconnect_result st) = wifi_config_mgmt_event E wifi_event_other"

text \<open>The steps of the driver: the work item of a scan only runs after a scan request has set the
  callback.\<close>

inductive fw_reach :: "fake_wifi_data \<Rightarrow> bool" where
  init: "fw_reach fw_data"
| set_aps: "fw_reach d \<Longrightarrow> fw_reach (fake_wifi_set_scan_aps n xs k d)"
| set_result: "fw_reach d \<Longrightarrow> fw_reach (fake_wifi_set_next_connect_result st d)"
| set_error: "fw_reach d \<Longrightarrow> fw_reach (fake_wifi_set_next_connect_sync_error e d)"
| set_creds: "fw_reach d \<Longrightarrow> fw_reach (fake_wifi_set_expected_credentials a b d)"
| reset: "fw_reach d \<Longrightarrow> fw_reach (fake_wifi_reset d)"
| connect: "fw_reach d \<Longrightarrow> fw_reach (snd (fake_connect p d))"
| connect_due: "fw_reach d \<Longrightarrow> connect_work d \<Longrightarrow> fw_reach (snd (connect_work_fn d))"
| disconnect: "fw_reach d \<Longrightarrow> fw_reach (snd (snd (fake_disconnect d)))"
| scan: "fw_reach d \<Longrightarrow> fw_reach (snd (fake_scan d))"
| scan_due: "fw_reach d \<Longrightarrow> scan_work d \<Longrightarrow> scan_work_fn d = Some (evs, d') \<Longrightarrow> fw_reach d'"

lemma fw_reach_scan_cb: "fw_reach d \<Longrightarrow> scan_work d \<longrightarrow> scan_cb d"
  by (induction rule: fw_reach.induct)
    (auto simp: fw_data_def fake_wifi_set_scan_aps_def fake_wifi_set_next_connect_result_def Let_def
      fake_wifi_set_next_connect_sync_error_def fake_wifi_set_expected_credentials_def fake_wifi_reset_def
      fake_connect_def connect_work_fn_def fake_disconnect_def fake_scan_def scan_work_fn_def split: if_splits)

section \<open>A scan over the driver\<close>

definition cached :: "fake_wifi_ap \<Rightarrow> scan_entry" where
  "cached a = \<lparr>se_ssid = take (min (unat (ap_ssid_len a)) WIFI_SSID_MAX_LEN) (ap_ssid a),
     se_bssid = take WIFI_MAC_ADDR_LEN (ap_bssid a), se_channel = ap_channel a, se_rssi = ap_rssi a,
     se_auth = auth_from_zephyr (ap_security a)\<rparr>"

definition ap_wf :: "fake_wifi_ap \<Rightarrow> bool" where
  "ap_wf a \<longleftrightarrow> length (ap_ssid a) = WIFI_SSID_MAX_LEN + 1"

lemma scan_entry_cached:
  assumes "ap_wf a"
  shows "scan_entry_of (scan_result_of a) = cached a"
proof -
  let ?n = "min (unat (ap_ssid_len a)) WIFI_SSID_MAX_LEN"
  have n: "?n \<le> 32" by simp
  have "unat (of_nat ?n :: u8) = ?n mod 2 ^ 8" by (simp add: unat_of_nat)
  with n have u: "unat (of_nat ?n :: u8) = ?n" by simp
  have l: "length (take ?n (ap_ssid a)) = ?n" using assms n by (simp add: ap_wf_def)
  have "take ?n (memcpy (zeros (WIFI_SSID_MAX_LEN + 1)) (take ?n (ap_ssid a))) = take ?n (ap_ssid a)"
    using l by (simp add: take_memcpy_n)
  moreover have eq: "(if unat (ap_ssid_len a) < WIFI_SSID_MAX_LEN then unat (ap_ssid_len a) else WIFI_SSID_MAX_LEN) = ?n"
    by simp
  ultimately show ?thesis
    unfolding scan_entry_of_def scan_result_of_def Let_def eq cached_def using u n by (simp add: min_absorb1)
qed

lemma scan_fills_cache:
  assumes "length (sc_entries (sc s)) \<le> SCAN_MAX_ENTRIES (cfg E)" "\<forall>a \<in> set xs. ap_wf a"
  shows "wp (for_each (deliver E) (map (\<lambda>a. Scan_cb (SCAN_RESULT (scan_result_of a))) xs)) (\<lambda>_ s'.
     s' = s\<lparr>sc := (sc s)\<lparr>sc_entries := take (SCAN_MAX_ENTRIES (cfg E)) (sc_entries (sc s) @ map cached xs)\<rparr>\<rparr>) s"
  using assms
proof (induction xs arbitrary: s)
  case Nil
  then show ?case by simp
next
  case (Cons a xs)
  show ?case
  proof (cases "length (sc_entries (sc s)) < SCAN_MAX_ENTRIES (cfg E)")
    case True
    let ?s = "s\<lparr>sc := (sc s)\<lparr>sc_entries := sc_entries (sc s) @ [cached a]\<rparr>\<rparr>"
    have "wp (for_each (deliver E) (map (\<lambda>a. Scan_cb (SCAN_RESULT (scan_result_of a))) xs)) (\<lambda>_ s'.
       s' = ?s\<lparr>sc := (sc ?s)\<lparr>sc_entries := take (SCAN_MAX_ENTRIES (cfg E)) (sc_entries (sc ?s) @ map cached xs)\<rparr>\<rparr>) ?s"
      using True Cons.prems by (intro Cons.IH) auto
    with True Cons.prems(2) show ?thesis
      by (simp add: wifi_scan_mgmt_event_def on_scan_result_def scan_entry_cached)
  next
    case False
    with Cons.prems have "length (sc_entries (sc s)) = SCAN_MAX_ENTRIES (cfg E)" by simp
    moreover from this have "wp (for_each (deliver E) (map (\<lambda>a. Scan_cb (SCAN_RESULT (scan_result_of a))) xs)) (\<lambda>_ s'.
       s' = s\<lparr>sc := (sc s)\<lparr>sc_entries := take (SCAN_MAX_ENTRIES (cfg E)) (sc_entries (sc s) @ map cached xs)\<rparr>\<rparr>) s"
      using Cons.prems by (intro Cons.IH) auto
    ultimately show ?thesis by (simp add: wifi_scan_mgmt_event_def on_scan_result_def)
  qed
qed

section \<open>Properties\<close>

text \<open>C40. A provisioning attempt over the simulated driver ends as the credentials deserve: after Set and
  Apply, when the driver's work item has run, the station is Connected exactly when the SSID is on the
  air and SSID and passphrase are the expected ones; otherwise the attempt has failed, with the reason
  NetworkNotFound exactly when the SSID is not on the air, and the application got the matching event.\<close>

theorem fake_provisioning_outcome:
  assumes "wc_wf (wc s)" and "cmd_valid cmd" and "\<And>h. wifi_iface_of E h = Some i"
    and "\<And>h. cred_set_personal_ret (wifi E) h (credential_of cmd) = 0"
    and "creds_mode d" and "next_sync_err d = 0" and "attempts_max (wc s) = 0" and "event_cb (mgr s)"
  shows "wp (do { _ \<leftarrow> wifi_do_set_config cmd;
       _ \<leftarrow> wifi_do_apply_config (fake_env d E);
       evs \<leftarrow> gets (\<lambda>s. fst (connect_work_fn (fw_after d (hist s))));
       for_each (deliver (fake_env d E)) evs })
    (\<lambda>_ s'. let v = verdict d (cmd_ssid cmd) (cmd_passphrase cmd) in
       (sta_state (wc s'), hd (app_events (hist s'))) =
         (if v = WIFI_STATUS_CONN_SUCCESS then (WifiSta_Connected, NETWORK_PROV_CRED_SUCCESS)
          else (WifiSta_ConnectionFailed, NETWORK_PROV_CRED_FAIL (if v = WIFI_STATUS_CONN_AP_NOT_FOUND
            then NETWORK_PROV_WIFI_NETWORK_NOT_FOUND else NETWORK_PROV_WIFI_AUTH_ERROR))) \<and>
       (v \<noteq> WIFI_STATUS_CONN_SUCCESS \<longrightarrow> fail_reason (wc s') =
          (if v = WIFI_STATUS_CONN_AP_NOT_FOUND then WifiNetworkNotFound else AuthError))) s"
proof -
  let ?v = "verdict d (cmd_ssid cmd) (cmd_passphrase cmd)" and ?E = "fake_env d E"
  let ?run = "do { _ \<leftarrow> wifi_do_apply_config ?E;
       evs \<leftarrow> gets (\<lambda>s. fst (connect_work_fn (fw_after d (hist s))));
       for_each (deliver ?E) evs }"
  have run: "wp ?run (\<lambda>_ s'. let v = ?v in
       (sta_state (wc s'), hd (app_events (hist s'))) =
         (if v = WIFI_STATUS_CONN_SUCCESS then (WifiSta_Connected, NETWORK_PROV_CRED_SUCCESS)
          else (WifiSta_ConnectionFailed, NETWORK_PROV_CRED_FAIL (if v = WIFI_STATUS_CONN_AP_NOT_FOUND
            then NETWORK_PROV_WIFI_NETWORK_NOT_FOUND else NETWORK_PROV_WIFI_AUTH_ERROR))) \<and>
       (v \<noteq> WIFI_STATUS_CONN_SUCCESS \<longrightarrow> fail_reason (wc s') =
          (if v = WIFI_STATUS_CONN_AP_NOT_FOUND then WifiNetworkNotFound else AuthError))) t"
    if t: "staged cmd (wc t)" "attempts_max (wc t) = 0" "event_cb (mgr t)" for t
  proof -
    have req: "inflight_params (snapshot_inflight ((wc t)\<lparr>sta_state := x\<rparr>)) = request_of cmd" for x
      using t(1) by (intro snapshot_request) (auto simp: staged_def)
    have cred: "staged_credential (wc t) = credential_of cmd" using t(1) by (rule staged_credential_eq)
    have len: "0 < wc_ssid_len (wc t)" using t(1) by (simp add: staged_def)
    have snap: "inflight_ssid_len (snapshot_inflight w) = wc_ssid_len w" "attempts_max (snapshot_inflight w) = attempts_max w" for w
      by (simp_all add: snapshot_inflight_def)
    show ?thesis
      using t(2,3) len
      by (simp add: wifi_do_apply_config_def assms(3,4) cred connect_calls_def connect_ret_def req fake_connect_verdict [OF assms(5,6)]
          wifi_config_mgmt_event_def on_connect_result_def final_failure_def Let_def snap)
  qed
  have "wp (wifi_do_set_config cmd) (\<lambda>st s'. staged cmd (wc s') \<and> attempts_max (wc s') = 0 \<and> event_cb (mgr s')) s"
    by (rule wp_mono [OF wp_conj [OF set_config_staged [OF assms(1)]]])
      (use assms(2,7,8) in \<open>auto simp: wifi_do_set_config_def cmd_valid_def\<close>)
  then show ?thesis
    unfolding wp_bind [of "wifi_do_set_config cmd"] by (rule wp_mono) (simp del: wp_bind add: run)
qed

definition demo_driver :: fake_wifi_data where
  "demo_driver = fw_data\<lparr>aps := [\<lparr>ap_ssid = [104, 111] @ zeros 31, ap_ssid_len = 2, ap_bssid = zeros 6, ap_channel = 6,
     ap_rssi = 0, ap_security = WIFI_SECURITY_TYPE_PSK\<rparr>], creds_mode := True, exp_ssid := [104, 111],
     exp_pass := [1, 2, 3, 4, 5, 6, 7, 8]\<rparr>"

theorem fake_provisioning_outcome_witness:
  "wp (do { _ \<leftarrow> wifi_do_set_config demo_cmd;
       _ \<leftarrow> wifi_do_apply_config (fake_env demo_driver ok_env);
       evs \<leftarrow> gets (\<lambda>s. fst (connect_work_fn (fw_after demo_driver (hist s))));
       for_each (deliver (fake_env demo_driver ok_env)) evs })
    (\<lambda>_ s'. sta_state (wc s') = WifiSta_Connected)
    (demo_world\<lparr>wc := (wc demo_world)\<lparr>attempts_max := 0\<rparr>\<rparr>)"
proof -
  have v: "verdict demo_driver (cmd_ssid demo_cmd) (cmd_passphrase demo_cmd) = 0"
    by (simp add: verdict_def ssid_in_scan_list_def demo_driver_def demo_cmd_def)
  show ?thesis
    by (rule wp_mono [OF fake_provisioning_outcome [where i = 1]])
      (use v in \<open>simp_all add: demo_world_def wc_zero_def wc_wf_def demo_cmd_def cmd_valid_def
        ok_env_def ok_wifi_def wifi_iface_of_def credential_of_def demo_driver_def fw_data_def\<close>)
qed

text \<open>A scan over the simulated driver fills the cache with exactly the programmed access points, in
  their order, cut at the size of the cache, and then marks the scan as finished.\<close>

theorem fake_scan_cached:
  assumes "sc_entries (sc s) = []" and "\<forall>a \<in> set (aps d). ap_wf a" and "scan_work_fn (snd (fake_scan d)) = Some (evs, d')"
  shows "wp (for_each (deliver E) evs) (\<lambda>_ s'. sc_entries (sc s') = take (SCAN_MAX_ENTRIES (cfg E)) (map cached (aps d)) \<and>
     sc_finished (sc s') \<and> sem_given Wifi_scan_done_sem (hist s')) s"
proof -
  have evs: "evs = map (\<lambda>a. Scan_cb (SCAN_RESULT (scan_result_of a))) (aps d) @ [Scan_cb SCAN_DONE]"
    using assms(3) by (auto simp: scan_work_fn_def fake_scan_def)
  show ?thesis
    unfolding evs wp_for_each_append
    by (rule wp_mono [OF scan_fills_cache [OF _ assms(2)]]) (simp_all add: assms(1) wifi_scan_mgmt_event_def)
qed

theorem fake_scan_cached_witness:
  "wp (for_each (deliver ok_env) (fst (the (scan_work_fn (snd (fake_scan demo_driver))))))
     (\<lambda>_ s'. sc_entries (sc s') = take 16 (map cached (aps demo_driver))) demo_world"
proof -
  have "sc_entries (sc demo_world) = []" by (simp add: demo_world_def boot_world_def)
  moreover have "\<forall>a \<in> set (aps demo_driver). ap_wf a" by (simp add: demo_driver_def ap_wf_def)
  moreover have "scan_work_fn (snd (fake_scan demo_driver)) = Some (the (scan_work_fn (snd (fake_scan demo_driver))))"
    by (simp add: scan_work_fn_def fake_scan_def)
  ultimately show ?thesis
    using fake_scan_cached [of demo_world demo_driver "fst (the (scan_work_fn (snd (fake_scan demo_driver))))"
        "snd (the (scan_work_fn (snd (fake_scan demo_driver))))" ok_env]
    by (auto elim!: wp_mono simp: ok_env_def ok_cfg_def)
qed

end
