(* ===== verification/Spec2Isabelle.thy ===== *)
theory Spec2Isabelle
  imports Client_Session Thread_Race Endpoint_Race Scan_Race Fake_Wifi
begin

text \<open>
  Network provisioning for Zephyr: a verification library.

  \<^bold>\<open>The program.\<close> A device without credentials offers a provisioning service to a phone. A transport
  (Bluetooth, HTTP on an access point of the device, or the shell) carries requests to named endpoints;
  the protocomm core dispatches them; a security scheme decrypts and encrypts them; the endpoint handlers
  scan for networks, stage and apply credentials and report the state; a manager owns the life cycle and
  reports events to the application. The sample applications reconnect with stored credentials at boot and
  offer the service when that fails.

  \<^bold>\<open>How it is modelled.\<close> Every C function is a program of the state monad over one record \<open>world\<close>, which holds
  the static variables of each C file (one record per file) and the protocomm instances. Every program is
  total, there is no fuel: the loops of the sources run over lists and arrays of known length, the retry loop
  of the samples has a termination proof, and the only
  wait without a timeout (\<open>network_prov_mgr_wait\<close>) is an option. A read through a pointer to an object
  that does not exist sets the flag \<open>fault\<close>; heap blocks are counted in the history. Everything outside the
  repository (the kernel, PSA Crypto, nanopb, the Wi-Fi, OpenThread, Bluetooth and HTTP stacks, the
  credential store, the application) is one parameter \<open>env\<close>: each external function may answer in any way
  that depends on the history of all external calls, and each call is recorded, so that the theorems speak
  about which calls are made, in which order and with which arguments. The Kconfig symbols that the code
  reads are the fields of \<open>config\<close>; CONFIG_WIFI and the DHCP server are taken as enabled in the access point
  code.

  \<^bold>\<open>Hypotheses.\<close> What the code relies on is named where it is needed: \<open>psa_laws\<close> (PSA computes the functions it
  documents), \<open>sem_law\<close> (k_sem), \<open>responses_nonempty\<close> (a typed protobuf message is not empty), \<open>app_nonempty\<close>
  (an application handler does not answer with an empty buffer), \<open>config_ok\<close> (the Kconfig range of the number
  of application endpoints), \<open>cred_store_rejects_empty\<close> and \<open>connects_accepted\<close>
  (the Wi-Fi driver accepts the connect request), and for the samples \<open>stored_as\<close>, \<open>store_readable\<close> (the credential store
  returns what was stored) and \<open>driver_reports\<close> (which results the driver reports after a request; a waiting thread continues with the first); for a whole provisioning
  \<open>stacks_work\<close> (PSA and the heap do not fail, and nanopb decodes what it encoded of the messages of the exchange) and
  \<open>keys_agree\<close> (both sides of the key agreement compute the same secret). Each property that has one is applied to a concrete
  environment in its witness.

  \<^bold>\<open>The theories.\<close>
  \<^item> \<open>Prov_Prelude\<close>: buffers, errno values, the monad and its weakest preconditions. \<open>C_Text\<close>: the text
    functions of the C library (\<open>strtoul\<close>, \<open>strstr\<close>, \<open>snprintf\<close>), with the round trip of decimal numbers. \<open>Json_Text\<close>: JSON
    values, their text, and a reader for JSON texts (RFC 8259, without escapes and fractions) that is independent of the
    program's code, with the round trip.
  \<^item> \<open>Prov_Messages\<close>, \<open>Platform\<close>: the messages of the protocol and the boundary described above.
  \<^item> \<open>Pb_Util\<close> (pb_util.c), \<open>Protocomm\<close> (protocomm.c): registry, sessions, dispatch. The locale
    \<open>security_vtable\<close> is the contract of a security scheme, \<open>protocomm_link\<close> the contract of a linked program;
    the core's lemmas are proved in them. The registry refines a bounded map.
  \<^item> \<open>Security0\<close> (security0.c) and \<open>Security1\<close> (security1.c) interpret \<open>security_vtable\<close>. Security 1: the
    session is established only by a client that proves the session key, exactly with the right proof; the
    channel is one AES-CTR keystream; a session with at most one Cmd0 releases its keys, a second Cmd0 leaks one.
  \<^item> \<open>Prov_State\<close>: the static data and \<open>network_prov_emit_event\<close>.
  \<^item> \<open>Scan_Paging\<close> (a locale for the result pages), \<open>Wifi_Scan\<close> and \<open>Thread_Scan\<close> (wifi_scan_handler.c,
    thread_scan_handler.c): the caches stay in bounds, blocking scans finish, paging returns every entry once.
  \<^item> \<open>Wifi_Config\<close>, \<open>Wifi_Ctrl\<close> (wifi_config_handler.c, wifi_ctrl_handler.c): a step relation of requests,
    events and retries with its invariant; outcomes never exceed the credentials received; the retry budget (which
    retries are scheduled, and that each one, run by the kernel when armed, makes one request);
    Apply uses what Set received; a reset silences the attempt.
  \<^item> \<open>Thread_Config\<close>, \<open>Thread_Ctrl\<close> (thread_config_handler.c, thread_ctrl_handler.c): the attach state machine,
    its timeout, the single claim of an outcome, and the discipline of the OpenThread mutex.
  \<^item> \<open>Program\<close>: the functions behind the function pointers; the interpretation of \<open>protocomm_link\<close> on them;
    requests are balanced, payloads need a handshake.
  \<^item> \<open>Transport\<close>: the locale \<open>prov_scheme\<close>, the contract between the manager and a transport, interpreted by
    \<open>Console\<close> (protocomm_console.c), \<open>Softap\<close> (protocomm_softap.c) and \<open>Ble\<close> (protocomm_ble.c), with the
    sessions, buffers, URLs, cookies, GATT table and advertising data of each.
  \<^item> \<open>Manager\<close> (network_prov_mgr.c): all operations of the manager; a JSON reader gets the version document back.
    \<open>Service\<close>: a start is all or nothing for the manager, the heap, the network handlers and the console, over any scheme, and what
    a teardown gives back; what a failed start leaves in the Bluetooth transport.
  \<^item> \<open>System\<close>: the whole program as a state machine over application calls, transport callbacks, network
    events and work items, with its invariant: no wrong dereference, no leak; the life cycle as an abstract
    machine that the program refines; auto-stop and the wait for success. The lawful steps (\<open>enabled\<close>, \<open>reachable\<close>) leave out one
    case: Bluetooth callbacks that come when the transport still holds the instance of a start that failed. The runs
    (\<open>program_run\<close>) have it; the memory safety is stated over them with that case as the exception, and a theorem shows
    what happens in it. The properties over \<open>reachable\<close> states (life cycle, types, events, auto-stop) do not cover it.
  \<^item> \<open>Stability\<close>: predicates that programs keep, with one locale for the sessions and transports and one for requests,
    so that a client lemma says only what its predicate has to do with the network handlers. \<open>Program_Types\<close>
    interprets them for the types of the static data (array sizes, lengths, caches): every reachable state is
    well typed. \<open>Event_Protocol\<close> interprets them for the automaton of the events that the application sees.
  \<^item> \<open>Samples\<close> (samples/*/src/main.c): the four sample applications, with the reconnect loop: its bounds, its outcome,
    and that it requests what provisioning requested. \<open>Sample_Runs\<close>: whole runs from boot through the wait, with the
    locale \<open>app_client\<close> for what the samples' code keeps; the runs are runs of the library's state machine, the wait
    ends exactly with a success, stored credentials are kept, and the custom endpoint echoes over the encrypted channel.
  \<^item> \<open>Client_Session\<close>: a client as a program that makes requests and reads the answers. From the start of the
    service through handshake, Set, Apply and the driver's result, all components run together: the client gets what it
    expects, its credentials are stored and requested, and the application sees the success.
  \<^item> \<open>Fake_Wifi\<close> (sim/wifi/fake_wifi.c): the simulated driver, and the Wi-Fi handlers run over it in the place
    of the parameter.
  \<^item> \<open>Preemption\<close>: functions as sequences of atomic steps, pools of them that are interleaved in any way, and the
    rely-guarantee rules (\<open>keeps_faith\<close>) with the locales \<open>preemptive_thread\<close> and \<open>preemptive\<close>: when each function, step by step,
    keeps an invariant and pays for what it reports from a budget, so does every interleaving of any number of them.
    \<open>Thread_Race\<close> (thread_config_handler.c, thread_ctrl_handler.c), \<open>Endpoint_Race\<close> (the trampoline, register and unregister of
    network_prov_mgr.c) and \<open>Scan_Race\<close> (the cache of wifi_scan_handler.c as the C array, field by field) interpret them on
    the functions of the sources, one step per access to shared data or external call. Without preemption
    the step versions are equal to (or, for the cache, refine) the functions of the other theories.

  \<^bold>\<open>Concurrency.\<close> A step of \<open>System\<close> is one complete callback or call. Preemption inside a function is modelled where the
  sources say that threads meet: the outcome of a Thread attempt, the handlers of the application's endpoints, and
  the Wi-Fi scan cache (which has no lock where the Thread cache has one). There the theorems hold for all interleavings of atomic
  steps in a sequentially consistent memory, and where the code is not safe under preemption a theorem exhibits
  the interleaving. The other races the code knows it protects with mechanisms that are in the model (the snapshot of the
  Wi-Fi credentials, the synchronous cancellation of the teardown). The application's callback is an observer whose own calls
  are further steps; in the samples it is their callback, run after the call that reports the event.

  \<^bold>\<open>Not modelled.\<close> Logging; the wiping of the session context before it is freed (the freed object no longer exists in the
  model); the tests; the code that
  nanopb generates from the schema; registration tables that Zephyr expands at build time (shell
  command, connection callbacks, the network device of the simulated driver); whether the peer's mathematics
  (X25519, SHA-256, AES) is secure; preemption outside the three places above; memory orders weaker than sequential
  consistency.
\<close>

end
